(* ===== verification/Prelude.thy ===== *)
theory Prelude
  imports Complex_Main "HOL-Library.Word"
begin

text \<open>
  Shared vocabulary of the development: machine integers at the widths the Rust code uses,
  the saturating subtraction of the standard library, the outcome of a fallible Rust
  function, the lemma collections the component theories add to, and generic facts about
  lists and rational numbers.
\<close>

section \<open>Collections of facts\<close>

named_theorems frame_simps \<open>which fields an operation leaves alone\<close>
named_theorems bound_intros \<open>bounds of computed values\<close>
named_theorems panic_simps \<open>evaluation of operations that can panic\<close>

section \<open>Machine integers\<close>

type_synonym u8 = "8 word"
type_synonym u16 = "16 word"
type_synonym u32 = "32 word"
type_synonym u64 = "64 word"

text \<open>The standard library's \<open>saturating_sub\<close> on unsigned integers.\<close>

definition saturating_sub :: "'a::len word \<Rightarrow> 'a word \<Rightarrow> 'a word" where
  "saturating_sub a b = (if a < b then 0 else a - b)"

lemma unat_saturating_sub: "unat (saturating_sub a b) = unat a - unat b"
proof (cases "a < b")
  case True
  then show ?thesis by (simp add: saturating_sub_def word_less_nat_alt)
next
  case False
  then have "b \<le> a" by simp
  with False show ?thesis by (simp add: saturating_sub_def unat_sub)
qed

lemma saturating_sub_self [simp]: "saturating_sub a a = 0"
  by (simp add: saturating_sub_def)

lemma saturating_sub_0 [simp]: "saturating_sub a 0 = a"
  by (simp add: saturating_sub_def)

section \<open>Outcomes of fallible functions\<close>

text \<open>
  A Rust function that returns a \<open>Result\<close> either returns a value, returns an error
  (whose text is the \<open>anyhow\<close> message), or panics: an index out of bounds, an assertion
  of the library that fails, an arithmetic check.
\<close>

datatype 'a outcome = Good 'a | Err string | Panic

fun obind :: "'a outcome \<Rightarrow> ('a \<Rightarrow> 'b outcome) \<Rightarrow> 'b outcome" where
  "obind (Good x) f = f x"
| "obind (Err e) f = Err e"
| "obind Panic f = Panic"

text \<open>\<open>anyhow\<close>'s \<open>context\<close>: the error's text is replaced by the context.\<close>

fun octx :: "string \<Rightarrow> 'a outcome \<Rightarrow> 'a outcome" where
  "octx c (Err e) = Err c"
| "octx c r = r"

fun oget :: "'a option \<Rightarrow> string \<Rightarrow> 'a outcome" where
  "oget (Some x) e = Good x"
| "oget None e = Err e"

lemma obind_eq_Good: "obind m f = Good y \<longleftrightarrow> (\<exists>x. m = Good x \<and> f x = Good y)"
  by (cases m) auto

lemma obind_neq_Panic:
  "m \<noteq> Panic \<Longrightarrow> (\<And>x. m = Good x \<Longrightarrow> f x \<noteq> Panic) \<Longrightarrow> obind m f \<noteq> Panic"
  by (cases m) auto

lemma octx_eq_Good [simp]: "octx c m = Good x \<longleftrightarrow> m = Good x"
  by (cases m) auto

lemma octx_eq_Panic [simp]: "octx c m = Panic \<longleftrightarrow> m = Panic"
  by (cases m) auto

lemma oget_eq_Good [simp]: "oget v e = Good x \<longleftrightarrow> v = Some x"
  by (cases v) auto

lemma oget_neq_Panic [simp]: "oget v e \<noteq> Panic"
  by (cases v) auto

section \<open>Generic facts\<close>

lemma sum_list_nonneg_rat: "(\<And>x. x \<in> set xs \<Longrightarrow> (0::rat) \<le> f x) \<Longrightarrow> 0 \<le> sum_list (map f xs)"
  by (induction xs) auto

lemma sum_list_le_rat:
  "(\<And>x. x \<in> set xs \<Longrightarrow> f x \<le> (g x :: rat)) \<Longrightarrow> sum_list (map f xs) \<le> sum_list (map g xs)"
  by (rule sum_list_mono)

lemma foldl_snoc: "foldl f a (xs @ [x]) = f (foldl f a xs) x"
  by simp

lemma foldl_invariant:
  assumes "P a" and "\<And>s x. P s \<Longrightarrow> x \<in> set xs \<Longrightarrow> P (f s x)"
  shows "P (foldl f a xs)"
  using assms by (induction xs arbitrary: a) auto

text \<open>A run of fallible steps, and the last \<open>n\<close> elements of a list.\<close>

fun orun :: "('e \<Rightarrow> 's \<Rightarrow> 's outcome) \<Rightarrow> 'e list \<Rightarrow> 's \<Rightarrow> 's outcome" where
  "orun f [] s = Good s"
| "orun f (e # es) s = obind (f e s) (orun f es)"

lemma orun_append: "orun f (xs @ ys) s = obind (orun f xs s) (orun f ys)"
proof (induction xs arbitrary: s)
  case (Cons x xs)
  then show ?case by (cases "f x s") simp_all
qed simp

definition last_n :: "nat \<Rightarrow> 'a list \<Rightarrow> 'a list" where
  "last_n n xs = drop (length xs - n) xs"

lemma last_n_all [simp]: "length xs \<le> n \<Longrightarrow> last_n n xs = xs"
  by (simp add: last_n_def)

lemma length_last_n: "length (last_n n xs) = min n (length xs)"
  by (simp add: last_n_def)

lemma last_n_append: "last_n n (last_n n xs @ ys) = last_n n (xs @ ys)"
  by (cases "length xs \<le> n") (auto simp: last_n_def add.commute)

section \<open>Cumulative reports\<close>

text \<open>
  A counter that is told cumulative values: each report yields the increment to record and the
  next state. \<open>feed\<close> runs a list of reports and adds up the increments.
\<close>

fun feed :: "(rat \<Rightarrow> 's \<Rightarrow> rat \<times> 's) \<Rightarrow> rat list \<Rightarrow> 's \<Rightarrow> rat \<times> 's" where
  "feed report [] s = (0, s)"
| "feed report (c # cs) s = (let (d, s') = report c s; (e, s'') = feed report cs s' in (d + e, s''))"

text \<open>
  The interface of such a counter: the increment is what the report exceeds the largest value
  seen so far by. Then nothing is counted twice: the increments of any run of reports, repeated
  or out of order, add up to the largest value less the first.
\<close>

locale cumulative_counter =
  fixes live :: "'s \<Rightarrow> bool" and seen :: "'s \<Rightarrow> rat" and report :: "rat \<Rightarrow> 's \<Rightarrow> rat \<times> 's"
  assumes delta: "live s \<Longrightarrow> fst (report c s) = max (c - seen s) 0"
    and seen_report: "live s \<Longrightarrow> seen (snd (report c s)) = max (seen s) c"
    and live_report: "live s \<Longrightarrow> live (snd (report c s))"
begin

lemma feed_live: "live s \<Longrightarrow> live (snd (feed report cs s))"
  by (induction cs arbitrary: s) (simp_all add: live_report split_beta Let_def)

lemma feed_seen: "live s \<Longrightarrow> seen (snd (feed report cs s)) = foldl max (seen s) cs"
proof (induction cs arbitrary: s)
  case (Cons c cs)
  have "live (snd (report c s))" by (rule live_report [OF Cons.prems])
  from Cons.IH [OF this] show ?case
    by (simp add: split_beta Let_def seen_report [OF Cons.prems])
qed simp

lemma feed_total: "live s \<Longrightarrow> fst (feed report cs s) = foldl max (seen s) cs - seen s"
proof (induction cs arbitrary: s)
  case (Cons c cs)
  have "live (snd (report c s))" by (rule live_report [OF Cons.prems])
  from Cons.IH [OF this] show ?case
    by (simp add: split_beta Let_def seen_report [OF Cons.prems] delta [OF Cons.prems])
qed simp

lemma feed_nonneg: "live s \<Longrightarrow> 0 \<le> fst (feed report cs s)"
proof (induction cs arbitrary: s)
  case (Cons c cs)
  have "live (snd (report c s))" by (rule live_report [OF Cons.prems])
  from Cons.IH [OF this] show ?case
    by (simp add: split_beta Let_def delta [OF Cons.prems])
qed simp

end

end
