(* ===== verification/Float64.thy ===== *)
theory Float64
  imports Prelude "HOL-Library.Log_Nat"
begin

text \<open>
  Rust's \<open>f64\<close>: IEEE 754 binary64 with round-half-to-even, computed exactly over the
  rationals, so every arithmetic operation of the model rounds where the machine rounds.
  The two zeros are one value here (the program never divides by a zero whose sign matters),
  and all NaNs are one value. The elementary functions \<open>ln\<close>, \<open>exp\<close>, \<open>powf\<close> and
  \<open>sqrt\<close>, whose last bits the Rust standard library leaves to the platform, are the
  record \<open>libm\<close>, an argument of the definitions that use them.
\<close>

section \<open>Values and rounding\<close>

datatype f64 = Fin rat | PInf | NInf | NaN

text \<open>
  Powers of two. The code equation keeps the evaluation on integers, where powers and
  comparisons are cheap.
\<close>

definition pow2 :: "int \<Rightarrow> rat" where
  "pow2 e = 2 powi e"

lemma pow2_code [code]:
  "pow2 e = (if 0 \<le> e then of_int (2 ^ nat e) else 1 / of_int (2 ^ nat (- e)))"
  by (simp add: pow2_def power_int_def field_simps)

text \<open>The exponent of a positive rational: the \<open>e\<close> with \<open>2 ^ e \<le> x < 2 ^ (e + 1)\<close>.\<close>

definition bexp :: "rat \<Rightarrow> int" where
  "bexp x = (case quotient_of x of (p, q) \<Rightarrow>
     let e = bitlen p - bitlen q in if pow2 e \<le> x then e else e - 1)"

text \<open>The exponent of the last bit of the 53-bit significand, bounded by the subnormals.\<close>

definition uexp :: "rat \<Rightarrow> int" where
  "uexp x = max (bexp x - 52) (- 1074)"

text \<open>Round half to even, to an integer.\<close>

definition rhe :: "rat \<Rightarrow> int" where
  "rhe y = (let f = \<lfloor>y\<rfloor>; r = y - of_int f in
     if r < 1 / 2 then f else if 1 / 2 < r then f + 1 else if even f then f else f + 1)"

definition rmag :: "rat \<Rightarrow> rat" where
  "rmag x = of_int (rhe (x / pow2 (uexp x))) * pow2 (uexp x)"

definition rval :: "rat \<Rightarrow> rat" where
  "rval x = (if x = 0 then 0 else if 0 < x then rmag x else - rmag (- x))"

definition rnd :: "rat \<Rightarrow> f64" where
  "rnd x = (let v = rval x in
     if \<bar>v\<bar> < pow2 1024 then Fin v else if 0 < x then PInf else NInf)"

section \<open>Operations\<close>

fun fneg :: "f64 \<Rightarrow> f64" where
  "fneg (Fin x) = Fin (- x)"
| "fneg PInf = NInf"
| "fneg NInf = PInf"
| "fneg NaN = NaN"

fun fabs :: "f64 \<Rightarrow> f64" where
  "fabs (Fin x) = Fin \<bar>x\<bar>"
| "fabs NInf = PInf"
| "fabs a = a"

fun fadd :: "f64 \<Rightarrow> f64 \<Rightarrow> f64" where
  "fadd (Fin x) (Fin y) = rnd (x + y)"
| "fadd NaN b = NaN"
| "fadd a NaN = NaN"
| "fadd PInf NInf = NaN"
| "fadd NInf PInf = NaN"
| "fadd PInf b = PInf"
| "fadd NInf b = NInf"
| "fadd a PInf = PInf"
| "fadd a NInf = NInf"

definition fsub :: "f64 \<Rightarrow> f64 \<Rightarrow> f64" where
  "fsub a b = fadd a (fneg b)"

definition inf_of_sign :: "rat \<Rightarrow> f64" where
  "inf_of_sign s = (if s = 0 then NaN else if 0 < s then PInf else NInf)"

fun fmul :: "f64 \<Rightarrow> f64 \<Rightarrow> f64" where
  "fmul (Fin x) (Fin y) = rnd (x * y)"
| "fmul NaN b = NaN"
| "fmul a NaN = NaN"
| "fmul PInf (Fin y) = inf_of_sign y"
| "fmul NInf (Fin y) = inf_of_sign (- y)"
| "fmul (Fin x) PInf = inf_of_sign x"
| "fmul (Fin x) NInf = inf_of_sign (- x)"
| "fmul PInf PInf = PInf"
| "fmul NInf NInf = PInf"
| "fmul PInf NInf = NInf"
| "fmul NInf PInf = NInf"

fun fdiv :: "f64 \<Rightarrow> f64 \<Rightarrow> f64" where
  "fdiv (Fin x) (Fin y) = (if y = 0 then inf_of_sign x else rnd (x / y))"
| "fdiv NaN b = NaN"
| "fdiv a NaN = NaN"
| "fdiv PInf (Fin y) = (if 0 \<le> y then PInf else NInf)"
| "fdiv NInf (Fin y) = (if 0 \<le> y then NInf else PInf)"
| "fdiv (Fin x) b = Fin 0"
| "fdiv a b = NaN"

text \<open>Comparisons are false as soon as one side is NaN.\<close>

fun flt :: "f64 \<Rightarrow> f64 \<Rightarrow> bool" where
  "flt NaN b = False"
| "flt a NaN = False"
| "flt (Fin x) (Fin y) = (x < y)"
| "flt NInf b = (b \<noteq> NInf)"
| "flt a PInf = (a \<noteq> PInf)"
| "flt a b = False"

fun fle :: "f64 \<Rightarrow> f64 \<Rightarrow> bool" where
  "fle NaN b = False"
| "fle a NaN = False"
| "fle (Fin x) (Fin y) = (x \<le> y)"
| "fle NInf b = True"
| "fle a PInf = True"
| "fle a b = False"

text \<open>\<open>f64::min\<close> and \<open>f64::max\<close> return the other argument when one is NaN.\<close>

definition fmin :: "f64 \<Rightarrow> f64 \<Rightarrow> f64" where
  "fmin a b = (if a = NaN then b else if b = NaN then a else if flt b a then b else a)"

definition fmax :: "f64 \<Rightarrow> f64 \<Rightarrow> f64" where
  "fmax a b = (if a = NaN then b else if b = NaN then a else if flt a b then b else a)"

text \<open>\<open>f64::clamp\<close>; its assertion \<open>min <= max\<close> is \<open>clamp_ok\<close>.\<close>

definition fclamp :: "f64 \<Rightarrow> f64 \<Rightarrow> f64 \<Rightarrow> f64" where
  "fclamp x lo hi = (if flt x lo then lo else if flt hi x then hi else x)"

definition clamp_ok :: "f64 \<Rightarrow> f64 \<Rightarrow> bool" where
  "clamp_ok lo hi = fle lo hi"

text \<open>A literal of the source is rounded when it is read.\<close>

definition flit :: "rat \<Rightarrow> f64" where
  "flit x = rnd x"

definition f_of_u64 :: "u64 \<Rightarrow> f64" where
  "f_of_u64 n = rnd (of_nat (unat n))"

definition f_of_nat :: "nat \<Rightarrow> f64" where
  "f_of_nat n = rnd (of_nat n)"

fun is_fin :: "f64 \<Rightarrow> bool" where
  "is_fin (Fin x) = True"
| "is_fin a = False"

text \<open>The values that really are binary64 numbers.\<close>

fun f64_ok :: "f64 \<Rightarrow> bool" where
  "f64_ok (Fin x) = (rnd x = Fin x)"
| "f64_ok a = True"

section \<open>Elementary functions\<close>

record libm =
  m_ln :: "f64 \<Rightarrow> f64"
  m_exp :: "f64 \<Rightarrow> f64"
  m_pow2 :: "f64 \<Rightarrow> f64"
  m_sqrt :: "f64 \<Rightarrow> f64"

section \<open>Facts about rounding\<close>

subsection \<open>The exponent and the significand\<close>

lemma bexp_bounds:
  assumes "0 < x"
  shows "2 powi (bexp x) \<le> x" and "x < 2 powi (bexp x + 1)"
proof -
  obtain p q where pq: "quotient_of x = (p, q)" by (cases "quotient_of x")
  have q: "0 < q" using quotient_of_denom_pos [OF pq] .
  have x: "x = of_int p / of_int q" using quotient_of_div [OF pq] .
  have p: "0 < p" using assms q by (simp add: x zero_less_divide_iff)
  let ?P = "bitlen p" and ?Q = "bitlen q"
  have P1: "1 \<le> ?P" and Q1: "1 \<le> ?Q"
    using p q bitlen_eq_zero_iff [of p] bitlen_eq_zero_iff [of q] bitlen_nonneg [of p] bitlen_nonneg [of q]
    by linarith+
  have pb: "(2::rat) powi (?P - 1) \<le> of_int p" "of_int p < (2::rat) powi ?P"
  proof -
    have "of_int (2 ^ nat (?P - 1)) \<le> (of_int p :: rat)" "(of_int p :: rat) < of_int (2 ^ nat ?P)"
      using bitlen_bounds [OF p] unfolding of_int_le_iff of_int_less_iff by simp_all
    then show "(2::rat) powi (?P - 1) \<le> of_int p" "of_int p < (2::rat) powi ?P"
      using P1 by (simp_all add: power_int_nonneg_exp)
  qed
  have qb: "(2::rat) powi (?Q - 1) \<le> of_int q" "of_int q < (2::rat) powi ?Q"
  proof -
    have "of_int (2 ^ nat (?Q - 1)) \<le> (of_int q :: rat)" "(of_int q :: rat) < of_int (2 ^ nat ?Q)"
      using bitlen_bounds [OF q] unfolding of_int_le_iff of_int_less_iff by simp_all
    then show "(2::rat) powi (?Q - 1) \<le> of_int q" "of_int q < (2::rat) powi ?Q"
      using Q1 by (simp_all add: power_int_nonneg_exp)
  qed
  have up: "x < 2 powi (?P - ?Q + 1)"
  proof -
    have "x < 2 powi ?P / of_int q" using pb q by (simp add: x divide_strict_right_mono)
    also have "\<dots> \<le> 2 powi ?P / 2 powi (?Q - 1)"
      using qb q by (intro divide_left_mono) auto
    also have "\<dots> = 2 powi (?P - ?Q + 1)"
      by (simp add: power_int_diff [symmetric] algebra_simps)
    finally show ?thesis .
  qed
  have lo: "2 powi (?P - ?Q - 1) \<le> x"
  proof -
    have "(2::rat) powi (?P - ?Q - 1) = 2 powi (?P - 1) / 2 powi ?Q"
      by (simp add: power_int_diff [symmetric] algebra_simps)
    also have "\<dots> \<le> 2 powi (?P - 1) / of_int q"
      using qb q by (intro divide_left_mono) auto
    also have "\<dots> \<le> x" using pb q by (simp add: x divide_right_mono)
    finally show ?thesis .
  qed
  show "2 powi (bexp x) \<le> x" and "x < 2 powi (bexp x + 1)"
    using up lo by (auto simp: bexp_def pow2_def pq Let_def)
qed

lemma powi2_less_iff: "(2::rat) powi a < 2 powi b \<longleftrightarrow> a < b"
  by (metis linorder_not_less one_less_numeral_iff power_int_increasing power_int_strict_increasing
      semiring_norm(76) less_imp_le)

lemma powi2_le_iff: "(2::rat) powi a \<le> 2 powi b \<longleftrightarrow> a \<le> b"
  using powi2_less_iff [of b a] by (simp add: linorder_not_less [symmetric])

lemma bexp_le: "0 < x \<Longrightarrow> x < 2 powi e \<Longrightarrow> bexp x < e"
  using bexp_bounds(1) [of x] powi2_less_iff [of "bexp x" e] by linarith

lemma bexp_ge: "2 powi e \<le> x \<Longrightarrow> e \<le> bexp x"
proof -
  assume a: "2 powi e \<le> x"
  have "(0::rat) < 2 powi e" by simp
  with a have "0 < x" by linarith
  from bexp_bounds(2) [OF this] a powi2_less_iff [of e "bexp x + 1"] show "e \<le> bexp x" by linarith
qed

lemma bexp_mono: "0 < x \<Longrightarrow> x \<le> y \<Longrightarrow> bexp x \<le> bexp y"
  using bexp_bounds(1) [of x] bexp_ge [of "bexp x" y] by linarith

lemma rhe_of_int [simp]: "rhe (of_int m) = m"
  by (simp add: rhe_def Let_def)

lemma rhe_bounds: "\<lfloor>y\<rfloor> \<le> rhe y" "rhe y \<le> \<lfloor>y\<rfloor> + 1"
  by (simp_all add: rhe_def Let_def)

lemma rhe_mono:
  assumes "x \<le> y" shows "rhe x \<le> rhe y"
proof (cases "\<lfloor>x\<rfloor> = \<lfloor>y\<rfloor>")
  case True
  with assms show ?thesis by (auto simp: rhe_def Let_def)
next
  case False
  with assms have "\<lfloor>x\<rfloor> + 1 \<le> \<lfloor>y\<rfloor>" using floor_mono [OF assms] by linarith
  with rhe_bounds(2) [of x] rhe_bounds(1) [of y] show ?thesis by linarith
qed

lemma rhe_nonneg: "0 \<le> y \<Longrightarrow> 0 \<le> rhe y"
  using rhe_mono [of 0 y] rhe_of_int [of 0] by simp

lemma powi2_of_int: "0 \<le> k \<Longrightarrow> (2::rat) powi k = of_int (2 ^ nat k)"
  by (simp add: power_int_nonneg_exp)

lemma powi2_shift:
  assumes "u \<le> k" shows "(2::rat) powi k = of_int (2 ^ nat (k - u)) * 2 powi u"
proof -
  have "(2::rat) powi k = 2 powi ((k - u) + u)" by simp
  also have "\<dots> = 2 powi (k - u) * 2 powi u" by (rule power_int_add) simp
  also have "(2::rat) powi (k - u) = of_int (2 ^ nat (k - u))" using assms by (intro powi2_of_int) simp
  finally show ?thesis .
qed

lemma uexp_mono: "0 < x \<Longrightarrow> x \<le> y \<Longrightarrow> uexp x \<le> uexp y"
  using bexp_mono [of x y] by (simp add: uexp_def)

lemma rmag_nonneg: "0 \<le> x \<Longrightarrow> 0 \<le> rmag x"
  by (simp add: rmag_def pow2_def rhe_nonneg)

text \<open>Rounding never crosses a grid point \<open>n * 2 ^ uexp x\<close>.\<close>

lemma rmag_le_grid:
  assumes "0 < x" and "x \<le> of_int n * 2 powi (uexp x)"
  shows "rmag x \<le> of_int n * 2 powi (uexp x)"
proof -
  have "x / 2 powi (uexp x) \<le> of_int n" using assms(2) by (simp add: pos_divide_le_eq)
  from rhe_mono [OF this] have "rhe (x / 2 powi (uexp x)) \<le> n" by simp
  then have "of_int (rhe (x / 2 powi (uexp x))) \<le> (of_int n :: rat)" by simp
  then show ?thesis by (simp add: rmag_def pow2_def)
qed

lemma rmag_ge_grid:
  assumes "0 < x" and "of_int n * 2 powi (uexp x) \<le> x"
  shows "of_int n * 2 powi (uexp x) \<le> rmag x"
proof -
  have "of_int n \<le> x / 2 powi (uexp x)" using assms(2) by (simp add: pos_le_divide_eq)
  from rhe_mono [OF this] have "n \<le> rhe (x / 2 powi (uexp x))" by simp
  then have "(of_int n :: rat) \<le> of_int (rhe (x / 2 powi (uexp x)))" by simp
  then show ?thesis by (simp add: rmag_def pow2_def)
qed

lemma rmag_mono:
  assumes x: "0 < x" and xy: "x \<le> y"
  shows "rmag x \<le> rmag y"
proof (cases "uexp x = uexp y")
  case True
  have "x / 2 powi (uexp x) \<le> y / 2 powi (uexp x)"
    using xy by (simp add: divide_right_mono)
  from rhe_mono [OF this] have "of_int (rhe (x / 2 powi (uexp x))) \<le> (of_int (rhe (y / 2 powi (uexp x))) :: rat)"
    by simp
  with True show ?thesis by (simp add: rmag_def pow2_def)
next
  case False
  with uexp_mono [OF x xy] have lt: "uexp x < uexp y" by simp
  then have uy: "uexp y = bexp y - 52" and big: "- 1074 \<le> uexp x" by (auto simp: uexp_def)
  let ?B = "(2::rat) powi (bexp y)"
  have By: "?B \<le> y" using bexp_bounds(1) [of y] x xy by simp
  have xB: "x \<le> ?B"
  proof (rule ccontr)
    assume "\<not> x \<le> ?B"
    then have "bexp y \<le> bexp x" using bexp_ge [of "bexp y" x] by simp
    with lt show False by (auto simp: uexp_def)
  qed
  have e1: "?B = of_int (2 ^ nat (bexp y - uexp x)) * 2 powi (uexp x)"
    using lt uy by (intro powi2_shift) simp
  have e2: "?B = of_int (2 ^ 52) * 2 powi (uexp y)"
  proof -
    have "?B = 2 powi (52 + uexp y)" using uy by simp
    also have "\<dots> = 2 powi 52 * 2 powi (uexp y)" by (rule power_int_add) simp
    finally show ?thesis by simp
  qed
  have "rmag x \<le> ?B" using rmag_le_grid [OF x] xB e1 by metis
  also have "?B \<le> rmag y" using rmag_ge_grid [of y "2 ^ 52"] By e2 x xy by simp
  finally show ?thesis .
qed

lemma rval_mono: "x \<le> y \<Longrightarrow> rval x \<le> rval y"
proof -
  assume xy: "x \<le> y"
  consider "0 < x" | "x = 0" | "x < 0" "0 < y" | "x < 0" "y = 0" | "x < 0" "y < 0" by linarith
  then show ?thesis
  proof cases
    case 1 with xy show ?thesis by (simp add: rval_def rmag_mono)
  next
    case 2 with xy show ?thesis using rmag_nonneg [of y] by (auto simp: rval_def)
  next
    case 3 with rmag_nonneg [of y] rmag_nonneg [of "- x"] show ?thesis by (simp add: rval_def)
  next
    case 4 with rmag_nonneg [of "- x"] show ?thesis by (simp add: rval_def)
  next
    case 5 with xy show ?thesis using rmag_mono [of "- y" "- x"] by (simp add: rval_def)
  qed
qed

lemma rval_minus: "rval (- x) = - rval x"
  by (simp add: rval_def)

lemma rval_0 [simp]: "rval 0 = 0"
  by (simp add: rval_def)

text \<open>Numbers with a 53-bit significand and an exponent in range are not rounded.\<close>

lemma rmag_exact:
  assumes x: "x = of_int m * 2 powi k" and m: "0 < m" "m < 2 ^ 53" and k: "- 1074 \<le> k"
  shows "rmag x = x"
proof -
  have pos: "0 < x" using x m by simp
  have "x < of_int (2 ^ 53) * 2 powi k"
    unfolding x using m(2) by (intro mult_strict_right_mono) (simp_all only: of_int_less_iff, simp_all)
  also have "\<dots> = 2 powi (53 + k)" by (simp add: power_int_add)
  finally have "bexp x < 53 + k" using bexp_le [OF pos] by simp
  then have u: "uexp x \<le> k" using k by (simp add: uexp_def)
  have "x = of_int (m * 2 ^ nat (k - uexp x)) * 2 powi (uexp x)"
    using powi2_shift [OF u] by (simp add: x)
  then have g: "x / 2 powi (uexp x) = of_int (m * 2 ^ nat (k - uexp x))"
    by (simp add: divide_eq_eq)
  show ?thesis
    unfolding rmag_def pow2_def g rhe_of_int using g by (simp add: divide_eq_eq)
qed

lemma rmag_exact':
  assumes x: "x = of_int m * 2 powi k" and m: "0 < m" "m \<le> 2 ^ 53" and k: "- 1074 \<le> k"
  shows "rmag x = x"
proof (cases "m = 2 ^ 53")
  case True
  have "x = 2 powi 53 * 2 powi k" using x True by simp
  also have "\<dots> = of_int 1 * 2 powi (53 + k)" by (simp add: power_int_add)
  finally show ?thesis using rmag_exact [of x 1 "53 + k"] k by simp
next
  case False
  with assms show ?thesis by (intro rmag_exact) auto
qed

lemma rmag_form:
  assumes "0 < x"
  shows "\<exists>m. rmag x = of_int m * 2 powi (uexp x) \<and> 0 \<le> m \<and> m \<le> 2 ^ 53"
proof -
  have "x < 2 powi (bexp x + 1)" using bexp_bounds(2) [OF assms] .
  also have "\<dots> \<le> 2 powi (53 + uexp x)" by (simp add: powi2_le_iff uexp_def)
  also have "\<dots> = of_int (2 ^ 53) * 2 powi (uexp x)" by (simp add: power_int_add)
  finally have "x / 2 powi (uexp x) \<le> of_int (2 ^ 53)" by (simp add: pos_divide_le_eq)
  from rhe_mono [OF this] have "rhe (x / 2 powi (uexp x)) \<le> 2 ^ 53" unfolding rhe_of_int .
  moreover have "0 \<le> rhe (x / 2 powi (uexp x))" using assms by (intro rhe_nonneg) simp
  ultimately show ?thesis by (auto simp: rmag_def pow2_def)
qed

lemma rmag_idem: "0 < x \<Longrightarrow> rmag x \<noteq> 0 \<Longrightarrow> rmag (rmag x) = rmag x"
proof -
  assume x: "0 < x" and nz: "rmag x \<noteq> 0"
  obtain m where m: "rmag x = of_int m * 2 powi (uexp x)" "0 \<le> m" "m \<le> 2 ^ 53"
    using rmag_form [OF x] by blast
  with nz have "0 < m" by (cases "m = 0") auto
  then show ?thesis using m by (intro rmag_exact' [OF m(1)]) (simp_all add: uexp_def)
qed

lemma rval_idem [simp]: "rval (rval x) = rval x"
proof -
  have *: "rval (rmag y) = rmag y" if "0 < y" for y
    using that rmag_idem [of y] rmag_nonneg [of y] by (cases "rmag y = 0") (auto simp: rval_def)
  consider "0 < x" | "x = 0" | "x < 0" by linarith
  then show ?thesis
  proof cases
    case 1 then show ?thesis using * by (simp add: rval_def [of x])
  next
    case 2 then show ?thesis by simp
  next
    case 3 then show ?thesis using * [of "- x"] by (simp add: rval_def [of x] rval_minus)
  qed
qed

lemma rval_exact:
  assumes "x = of_int m * 2 powi k" and "\<bar>m\<bar> \<le> 2 ^ 53" and "- 1074 \<le> k"
  shows "rval x = x"
proof -
  consider "m = 0" | "0 < m" | "m < 0" by linarith
  then show ?thesis
  proof cases
    case 1 with assms show ?thesis by simp
  next
    case 2
    with assms have "rmag x = x" "0 < x" by (auto intro: rmag_exact')
    then show ?thesis by (simp add: rval_def)
  next
    case 3
    then have "0 < - x" using assms by (simp add: mult_neg_pos)
    moreover have "rmag (- x) = - x" using 3 assms by (intro rmag_exact' [of _ "- m" k]) auto
    ultimately show ?thesis by (simp add: rval_def)
  qed
qed

subsection \<open>Rounding to binary64\<close>

lemma pow2_pos [simp]: "0 < pow2 e"
  by (simp add: pow2_def)

lemma pow2_limit: "\<bar>x\<bar> \<le> 2 ^ 53 \<Longrightarrow> \<bar>x\<bar> < pow2 1024"
proof -
  assume "\<bar>x\<bar> \<le> 2 ^ 53"
  also have "(2::rat) ^ 53 = 2 powi 53" by simp
  also have "(2::rat) powi 53 < 2 powi 1024" unfolding powi2_less_iff by simp
  finally show ?thesis by (simp add: pow2_def)
qed

lemma rnd_0 [simp]: "rnd 0 = Fin 0"
  by (simp add: rnd_def)

text \<open>For evaluation: the overflow test by the exponent.\<close>

lemma rnd_code [code]:
  "rnd x = (let v = rval x in
     if v = 0 \<or> bexp \<bar>v\<bar> < 1024 then Fin v else if 0 < x then PInf else NInf)"
proof -
  have "(\<bar>v\<bar> < pow2 1024) = (v = 0 \<or> bexp \<bar>v\<bar> < 1024)" for v
  proof (cases "v = 0")
    case True
    then show ?thesis by (simp add: pow2_def)
  next
    case False
    then show ?thesis
      using bexp_le [of "\<bar>v\<bar>" 1024] bexp_ge [of 1024 "\<bar>v\<bar>"]
      by (metis linorder_not_less pow2_def zero_less_abs_iff)
  qed
  then show ?thesis by (simp add: rnd_def)
qed

lemma rnd_neq_NaN [simp]: "rnd x \<noteq> NaN"
  by (simp add: rnd_def Let_def)

lemma rnd_Fin_iff: "rnd x = Fin v \<longleftrightarrow> v = rval x \<and> \<bar>rval x\<bar> < pow2 1024"
  by (auto simp: rnd_def Let_def)

lemma rnd_idem: "rnd x = Fin v \<Longrightarrow> rnd v = Fin v"
  by (auto simp: rnd_Fin_iff)

lemma f64_ok_rnd [simp]: "f64_ok (rnd x)"
  by (cases "rnd x") (auto simp: rnd_idem)

lemma rnd_exact:
  assumes "x = of_int m * 2 powi k" and "\<bar>m\<bar> \<le> 2 ^ 53" and "- 1074 \<le> k" and "\<bar>x\<bar> < pow2 1024"
  shows "rnd x = Fin x"
  using rval_exact [OF assms(1-3)] assms(4) by (simp add: rnd_Fin_iff)

lemma rnd_between:
  assumes "rnd lo = Fin lo" and "rnd hi = Fin hi" and "lo \<le> x" and "x \<le> hi"
  shows "\<exists>v. rnd x = Fin v \<and> lo \<le> v \<and> v \<le> hi"
proof -
  have l: "rval lo = lo" "\<bar>lo\<bar> < pow2 1024" and h: "rval hi = hi" "\<bar>hi\<bar> < pow2 1024"
    using assms(1,2) by (auto simp: rnd_Fin_iff)
  have "lo \<le> rval x" "rval x \<le> hi" using rval_mono [OF assms(3)] rval_mono [OF assms(4)] l h by simp_all
  with l h show ?thesis by (auto simp: rnd_Fin_iff)
qed

lemma rnd_of_int:
  assumes "\<bar>n\<bar> \<le> 2 ^ 53" shows "rnd (of_int n) = Fin (of_int n)"
proof -
  have "\<bar>of_int n :: rat\<bar> \<le> of_int (2 ^ 53)"
    using assms unfolding of_int_abs [symmetric] of_int_le_iff .
  then have "\<bar>of_int n :: rat\<bar> < pow2 1024" by (intro pow2_limit) simp
  then show ?thesis using assms by (intro rnd_exact [of _ n 0]) auto
qed

lemma rnd_1 [simp]: "rnd 1 = Fin 1"
  using rnd_of_int [of 1] by simp

lemma rnd_half [simp]: "rnd (1 / 2) = Fin (1 / 2)"
  by (rule rnd_exact [of _ 1 "- 1"], simp_all, rule pow2_limit [of "1 / 2", simplified])

subsection \<open>Closed intervals of finite values\<close>

fun fin_in :: "rat \<Rightarrow> rat \<Rightarrow> f64 \<Rightarrow> bool" where
  "fin_in lo hi (Fin v) = (lo \<le> v \<and> v \<le> hi)"
| "fin_in lo hi a = False"

lemma fin_in_iff: "fin_in lo hi a \<longleftrightarrow> (\<exists>v. a = Fin v \<and> lo \<le> v \<and> v \<le> hi)"
  by (cases a) auto

lemma fin_in_weaken: "fin_in a b x \<Longrightarrow> lo \<le> a \<Longrightarrow> b \<le> hi \<Longrightarrow> fin_in lo hi x"
  by (auto simp: fin_in_iff)

lemma fin_in_rnd:
  "rnd lo = Fin lo \<Longrightarrow> rnd hi = Fin hi \<Longrightarrow> lo \<le> x \<Longrightarrow> x \<le> hi \<Longrightarrow> fin_in lo hi (rnd x)"
  using rnd_between [of lo hi x] by auto

lemma fin_in_neg: "fin_in a b x \<Longrightarrow> fin_in (- b) (- a) (fneg x)"
  by (auto simp: fin_in_iff)

lemma fin_in_add:
  assumes "fin_in a b x" "fin_in c d y" "rnd lo = Fin lo" "rnd hi = Fin hi" "lo \<le> a + c" "b + d \<le> hi"
  shows "fin_in lo hi (fadd x y)"
proof -
  obtain u v where "x = Fin u" "a \<le> u" "u \<le> b" "y = Fin v" "c \<le> v" "v \<le> d"
    using assms(1,2) by (auto simp: fin_in_iff)
  with assms(3-6) show ?thesis by (auto intro!: fin_in_rnd)
qed

lemma fin_in_sub:
  assumes "fin_in a b x" "fin_in c d y" "rnd lo = Fin lo" "rnd hi = Fin hi" "lo \<le> a - d" "b - c \<le> hi"
  shows "fin_in lo hi (fsub x y)"
  using fin_in_add [OF assms(1) fin_in_neg [OF assms(2)] assms(3,4)] assms(5,6) by (simp add: fsub_def)

lemma fin_in_mul:
  assumes "fin_in a b x" "fin_in c d y" "rnd lo = Fin lo" "rnd hi = Fin hi"
    and "0 \<le> a" "0 \<le> c" "lo \<le> a * c" "b * d \<le> hi"
  shows "fin_in lo hi (fmul x y)"
proof -
  obtain u v where uv: "x = Fin u" "a \<le> u" "u \<le> b" "y = Fin v" "c \<le> v" "v \<le> d"
    using assms(1,2) by (auto simp: fin_in_iff)
  then have "a * c \<le> u * v" "u * v \<le> b * d" using assms(5,6) by (auto intro!: mult_mono)
  with assms(3-8) uv show ?thesis by (auto intro!: fin_in_rnd)
qed

lemma fin_in_clamp:
  "lo \<le> hi \<Longrightarrow> x \<noteq> NaN \<Longrightarrow> fin_in lo hi (fclamp x (Fin lo) (Fin hi))"
  by (cases x) (auto simp: fclamp_def)

lemma fclamp_NaN [simp]: "fclamp NaN lo hi = NaN"
  by (cases hi) (auto simp: fclamp_def)

lemma fclamp_id: "fin_in lo hi x \<Longrightarrow> fclamp x (Fin lo) (Fin hi) = x"
  by (auto simp: fin_in_iff fclamp_def)

lemma fin_in_not_NaN: "fin_in lo hi x \<Longrightarrow> x \<noteq> NaN"
  by (auto simp: fin_in_iff)

lemma f64_ok_ops [simp]:
  "f64_ok (fadd a b)" "f64_ok (fmul a b)" "f64_ok (fdiv a b)" "f64_ok (fsub a b)"
proof -
  show add: "f64_ok (fadd a b)" for a b by (cases "(a, b)" rule: fadd.cases) auto
  show "f64_ok (fmul a b)" by (cases "(a, b)" rule: fmul.cases) (auto simp: inf_of_sign_def)
  show "f64_ok (fdiv a b)" by (cases "(a, b)" rule: fdiv.cases) (auto simp: inf_of_sign_def)
  show "f64_ok (fsub a b)" by (simp add: fsub_def add)
qed

lemma f64_ok_lit [simp]: "f64_ok (flit x)" "f64_ok (f_of_u64 n)" "f64_ok (f_of_nat k)"
  by (simp_all add: flit_def f_of_u64_def f_of_nat_def)

lemma f64_ok_neg [simp]: "f64_ok (fneg a) = f64_ok a"
proof (cases a)
  case (Fin x)
  have "rval (- x) = - x \<longleftrightarrow> rval x = x" by (auto simp: rval_minus)
  with Fin show ?thesis by (auto simp: rnd_Fin_iff)
qed auto

lemma flt_fle: "flt a b \<Longrightarrow> fle a b"
  by (cases "(a, b)" rule: flt.cases) auto

lemma fle_trans: "fle a b \<Longrightarrow> fle b c \<Longrightarrow> fle a c"
  by (cases a; cases b; cases c) auto

lemma not_flt_iff: "a \<noteq> NaN \<Longrightarrow> b \<noteq> NaN \<Longrightarrow> \<not> flt a b \<longleftrightarrow> fle b a"
  by (cases a; cases b) auto

subsection \<open>Literals of the program\<close>

lemma flit_eval [simp]:
  "flit 0 = Fin 0" "flit 1 = Fin 1" "flit 2 = Fin 2" "flit (1 / 2) = Fin (1 / 2)"
  "flit 300 = Fin 300" "flit 1000 = Fin 1000" "flit 300000 = Fin 300000" "flit 10000 = Fin 10000"
  using rnd_of_int [of 2] rnd_of_int [of 300] rnd_of_int [of 1000] rnd_of_int [of 300000]
    rnd_of_int [of 10000]
  by (simp_all add: flit_def)

end
