(* ===== verification/RustText.thy ===== *)
theory RustText
  imports Float64 "HOL-Library.Char_ord"
begin

text \<open>
  The functions of the Rust standard library on strings that the program uses: \<open>trim\<close>,
  \<open>strip_prefix\<close>, \<open>split_once\<close>, \<open>lines\<close>, \<open>to_lowercase\<close>, and the parsers of \<open>u16\<close>,
  \<open>u64\<close>, \<open>i64\<close> and \<open>f64\<close>. A string is its list of bytes (UTF-8), as \<open>len\<close> and slicing
  count them. Case conversion and white space are those of ASCII; the program applies them
  to commands, keys and status words, which are ASCII.
\<close>

section \<open>Slices and searches\<close>

definition is_ws :: "char \<Rightarrow> bool" where
  "is_ws c = (c \<in> {CHR '' '', CHR 0x09, CHR 0x0A, CHR 0x0B, CHR 0x0C, CHR 0x0D})"

definition trim_start :: "string \<Rightarrow> string" where
  "trim_start s = dropWhile is_ws s"

definition trim_end :: "string \<Rightarrow> string" where
  "trim_end s = rev (dropWhile is_ws (rev s))"

definition trim :: "string \<Rightarrow> string" where
  "trim s = trim_end (trim_start s)"

definition lower_char :: "char \<Rightarrow> char" where
  "lower_char c = (if CHR ''A'' \<le> c \<and> c \<le> CHR ''Z'' then char_of (of_char c + 32 :: nat) else c)"

definition to_lowercase :: "string \<Rightarrow> string" where
  "to_lowercase s = map lower_char s"

definition upper_char :: "char \<Rightarrow> char" where
  "upper_char c = (if CHR ''a'' \<le> c \<and> c \<le> CHR ''z'' then char_of (of_char c - 32 :: nat) else c)"

definition to_uppercase :: "string \<Rightarrow> string" where
  "to_uppercase s = map upper_char s"

definition starts_with :: "string \<Rightarrow> string \<Rightarrow> bool" where
  "starts_with s p = (take (length p) s = p)"

definition ends_with :: "string \<Rightarrow> string \<Rightarrow> bool" where
  "ends_with s p = (length p \<le> length s \<and> drop (length s - length p) s = p)"

definition strip_prefix :: "string \<Rightarrow> string \<Rightarrow> string option" where
  "strip_prefix p s = (if starts_with s p then Some (drop (length p) s) else None)"

text \<open>\<open>split_once(c)\<close>: around the first occurrence of a character.\<close>

definition split_once :: "char \<Rightarrow> string \<Rightarrow> (string \<times> string) option" where
  "split_once c s = (if c \<in> set s then
     Some (takeWhile (\<lambda>x. x \<noteq> c) s, tl (dropWhile (\<lambda>x. x \<noteq> c) s)) else None)"

text \<open>\<open>rsplit_once(c)\<close>: around the last occurrence.\<close>

definition rsplit_once :: "char \<Rightarrow> string \<Rightarrow> (string \<times> string) option" where
  "rsplit_once c s = (case split_once c (rev s) of None \<Rightarrow> None
     | Some (b, a) \<Rightarrow> Some (rev a, rev b))"

fun find_char :: "char \<Rightarrow> string \<Rightarrow> nat option" where
  "find_char c [] = None"
| "find_char c (x # xs) = (if x = c then Some 0 else map_option Suc (find_char c xs))"

definition rfind :: "char \<Rightarrow> string \<Rightarrow> nat option" where
  "rfind c s = map_option (\<lambda>i. length s - Suc i) (find_char c (rev s))"

text \<open>\<open>split(c)\<close>: all fields, at least one.\<close>

fun split_char :: "char \<Rightarrow> string \<Rightarrow> string list" where
  "split_char c [] = [[]]"
| "split_char c (x # xs) = (if x = c then [] # split_char c xs
     else (case split_char c xs of [] \<Rightarrow> [[x]] | f # fs \<Rightarrow> (x # f) # fs))"

text \<open>\<open>lines()\<close>: split at newlines, no empty last line, one carriage return dropped.\<close>

definition strip_cr :: "string \<Rightarrow> string" where
  "strip_cr l = (if l \<noteq> [] \<and> last l = CHR 0x0D then butlast l else l)"

definition str_lines :: "string \<Rightarrow> string list" where
  "str_lines s = (let fs = split_char (CHR 0x0A) s;
     body = map strip_cr (butlast fs) in
     if last fs = [] then body else body @ [last fs])"

definition join :: "string \<Rightarrow> string list \<Rightarrow> string" where
  "join sep xs = (case xs of [] \<Rightarrow> [] | y # ys \<Rightarrow> y @ concat (map (\<lambda>l. sep @ l) ys))"

text \<open>Slicing a string panics out of range or inside a multi-byte character.\<close>

definition is_boundary :: "string \<Rightarrow> nat \<Rightarrow> bool" where
  "is_boundary s i \<longleftrightarrow> i = 0 \<or> i = length s \<or> (i < length s \<and> \<not> (0x80 \<le> (of_char (s ! i) :: nat) \<and> (of_char (s ! i) :: nat) \<le> 0xBF))"

definition str_slice :: "nat \<Rightarrow> nat \<Rightarrow> string \<Rightarrow> string outcome" where
  "str_slice a b s = (if a \<le> b \<and> b \<le> length s \<and> is_boundary s a \<and> is_boundary s b then Good (take (b - a) (drop a s)) else Panic)"

section \<open>Numbers\<close>

definition is_digit :: "char \<Rightarrow> bool" where
  "is_digit c = (CHR ''0'' \<le> c \<and> c \<le> CHR ''9'')"

definition digit_val :: "char \<Rightarrow> int" where
  "digit_val c = of_char c - 48"

definition digits_val :: "string \<Rightarrow> int" where
  "digits_val s = foldl (\<lambda>n c. 10 * n + digit_val c) 0 s"

text \<open>The printed form of a non-negative integer.\<close>

function int_digits :: "int \<Rightarrow> string" where
  "int_digits n = (if n < 10 then [char_of (48 + n)]
     else int_digits (n div 10) @ [char_of (48 + n mod 10)])"
  by pat_completeness auto
termination
  by (relation "measure nat") auto

declare int_digits.simps [simp del]

definition show_int :: "int \<Rightarrow> string" where
  "show_int n = (if n < 0 then ''-'' @ int_digits (- n) else int_digits n)"

text \<open>The unsigned parsers: an optional plus sign, at least one digit, no overflow.\<close>

definition parse_below :: "int \<Rightarrow> string \<Rightarrow> int option" where
  "parse_below bound s =
     (let t = (case s of [] \<Rightarrow> [] | c # cs \<Rightarrow> if c = CHR ''+'' then cs else s) in
      if t \<noteq> [] \<and> list_all is_digit t \<and> digits_val t < bound then Some (digits_val t) else None)"

definition parse_u64 :: "string \<Rightarrow> u64 option" where
  "parse_u64 s = map_option of_int (parse_below (2 ^ 64) s)"

definition parse_u16 :: "string \<Rightarrow> u16 option" where
  "parse_u16 s = map_option of_int (parse_below (2 ^ 16) s)"

definition parse_i64 :: "string \<Rightarrow> int option" where
  "parse_i64 s = (case s of
      [] \<Rightarrow> None
    | c # cs \<Rightarrow> if c = CHR ''-''
        then (if cs \<noteq> [] \<and> list_all is_digit cs \<and> digits_val cs \<le> 2 ^ 63
              then Some (- digits_val cs) else None)
        else parse_below (2 ^ 63) s)"

text \<open>
  \<open>f64::from_str\<close>: an optional sign, then \<open>inf\<close>, \<open>infinity\<close> or \<open>nan\<close> in any case, or a
  decimal number with an optional fraction and exponent, correctly rounded.
\<close>

definition parse_exp :: "string \<Rightarrow> int option" where
  "parse_exp s = (case s of
      [] \<Rightarrow> Some 0
    | c # cs \<Rightarrow> if c \<in> {CHR ''e'', CHR ''E''} then
        (case cs of [] \<Rightarrow> None
         | d # ds \<Rightarrow> if d = CHR ''-'' then
               (if ds \<noteq> [] \<and> list_all is_digit ds then Some (- digits_val ds) else None)
             else let t = (if d = CHR ''+'' then ds else cs) in
               (if t \<noteq> [] \<and> list_all is_digit t then Some (digits_val t) else None))
      else None)"

definition parse_number :: "string \<Rightarrow> rat option" where
  "parse_number s =
     (let ip = takeWhile is_digit s; r = dropWhile is_digit s;
          (fp, r') = (case r of c # cs \<Rightarrow> if c = CHR ''.'' then (takeWhile is_digit cs, dropWhile is_digit cs)
                                 else ([], r) | [] \<Rightarrow> ([], r))
      in if ip = [] \<and> fp = [] then None
         else map_option (\<lambda>e. of_int (digits_val (ip @ fp)) * 10 powi (e - int (length fp)))
           (parse_exp r'))"

definition parse_f64 :: "string \<Rightarrow> f64 option" where
  "parse_f64 s =
     (let neg = (case s of c # cs \<Rightarrow> c = CHR ''-'' | [] \<Rightarrow> False);
          t = (case s of c # cs \<Rightarrow> if c \<in> {CHR ''-'', CHR ''+''} then cs else s | [] \<Rightarrow> s);
          sgn = (\<lambda>v. if neg then fneg v else v)
      in if to_lowercase t \<in> {''inf'', ''infinity''} then Some (sgn PInf)
         else if to_lowercase t = ''nan'' then Some NaN
         else map_option (\<lambda>x. sgn (rnd x)) (parse_number t))"

section \<open>Facts\<close>

lemma starts_with_append [simp]: "starts_with (p @ s) p"
  by (simp add: starts_with_def)

lemma strip_prefix_append [simp]: "strip_prefix p (p @ s) = Some s"
  by (simp add: strip_prefix_def)

lemma strip_prefix_Some: "strip_prefix p s = Some r \<longleftrightarrow> s = p @ r"
  by (auto simp: strip_prefix_def starts_with_def) (metis append_take_drop_id)

lemma split_once_Some:
  assumes "split_once c s = Some (a, b)" shows "s = a @ c # b" and "c \<notin> set a"
proof -
  from assms have c: "c \<in> set s" and a: "a = takeWhile (\<lambda>x. x \<noteq> c) s"
    and b: "b = tl (dropWhile (\<lambda>x. x \<noteq> c) s)" by (auto simp: split_once_def split: if_splits)
  have ne: "dropWhile (\<lambda>x. x \<noteq> c) s \<noteq> []" using c by (simp add: dropWhile_eq_Nil_conv)
  then have "hd (dropWhile (\<lambda>x. x \<noteq> c) s) = c" using hd_dropWhile [OF ne] by simp
  with ne b have "dropWhile (\<lambda>x. x \<noteq> c) s = c # b" by (metis list.collapse)
  then show "s = a @ c # b" using a by (metis takeWhile_dropWhile_id)
  show "c \<notin> set a" using a by (auto dest: set_takeWhileD)
qed

lemma split_char_nonempty [simp]: "split_char c s \<noteq> []"
  by (induction s) (auto split: list.splits)

lemma split_char_free: "c \<notin> set s \<Longrightarrow> split_char c s = [s]"
  by (induction s) auto

lemma split_char_append: "split_char c (xs @ c # ys) = split_char c xs @ split_char c ys"
  by (induction xs) (auto split: list.splits)

lemma split_char_fields: "l \<in> set (split_char c s) \<Longrightarrow> c \<notin> set l"
  by (induction s arbitrary: l) (auto split: list.splits if_splits)

end
