(* ===== verification/Decimal.thy ===== *)
theory Decimal
  imports RustText
begin

text \<open>
  The decimal arithmetic of the program. A \<open>rust_decimal::Decimal\<close> is the rational number
  it stands for; sums, products and comparisons are exact, as they are for values of at most
  28 significant digits. The operations of the library that round or convert are not under
  \<open>src/\<close>: they are the record \<open>lib\<close> (which extends \<open>libm\<close>), an argument of the
  definitions that use them. The laws the properties rely on are named predicates over that
  record, and \<open>exact_lib\<close> is a concrete instance that satisfies all of them.
\<close>

type_synonym dec = rat

record lib = libm +
  d_div :: "dec \<Rightarrow> dec \<Rightarrow> dec"
  d_round :: "dec \<Rightarrow> dec"
  d_round_dp :: "nat \<Rightarrow> dec \<Rightarrow> dec"
  d_trunc_dp :: "nat \<Rightarrow> dec \<Rightarrow> dec"
  d_of_f64 :: "f64 \<Rightarrow> dec option"
  d_to_f64 :: "dec \<Rightarrow> f64 option"
  d_parse :: "string \<Rightarrow> dec option"
  d_show :: "dec \<Rightarrow> string"
  d_fmt :: "nat \<Rightarrow> dec \<Rightarrow> string"
  f_fmt :: "nat \<Rightarrow> f64 \<Rightarrow> string"
  f_show :: "f64 \<Rightarrow> string"

text \<open>\<open>Decimal::new(m, s)\<close> for a scale the program writes as a literal.\<close>

definition dnew :: "int \<Rightarrow> nat \<Rightarrow> dec" where
  "dnew m s = of_int m / 10 ^ s"

definition dec_floor :: "dec \<Rightarrow> dec" where
  "dec_floor x = of_int \<lfloor>x\<rfloor>"

definition dec_ceil :: "dec \<Rightarrow> dec" where
  "dec_ceil x = of_int \<lceil>x\<rceil>"

text \<open>\<open>unwrap_or\<close>.\<close>

definition unwrap_or :: "'a option \<Rightarrow> 'a \<Rightarrow> 'a" where
  "unwrap_or v d = (case v of Some x \<Rightarrow> x | None \<Rightarrow> d)"

lemma unwrap_or_simps [simp]: "unwrap_or (Some x) d = x" "unwrap_or None d = d"
  by (simp_all add: unwrap_or_def)

text \<open>The program turns a decimal into an \<open>f64\<close> through its text: \<open>to_string().parse()\<close>.\<close>

definition dec_text_f64 :: "'a lib_scheme \<Rightarrow> dec \<Rightarrow> f64" where
  "dec_text_f64 L d = unwrap_or (parse_f64 (d_show L d)) (flit 0)"

section \<open>Documented laws of the library\<close>

definition grid :: "nat \<Rightarrow> dec \<Rightarrow> bool" where
  "grid n x = (x * 10 ^ n \<in> \<int>)"

text \<open>The division rounds in the 28th significant digit.\<close>

definition dec_eps :: rat where
  "dec_eps = 1 / 10 ^ 27"

definition div_law :: "'a lib_scheme \<Rightarrow> bool" where
  "div_law L \<longleftrightarrow> (\<forall>a b. b \<noteq> 0 \<longrightarrow> \<bar>d_div L a b - a / b\<bar> \<le> dec_eps * max 1 \<bar>a / b\<bar>)"

definition div_nonneg_law :: "'a lib_scheme \<Rightarrow> bool" where
  "div_nonneg_law L \<longleftrightarrow> (\<forall>a b. 0 \<le> a \<longrightarrow> 0 < b \<longrightarrow> 0 \<le> d_div L a b)"

text \<open>A quotient that fits 28 digits is not rounded.\<close>

definition div_exact_law :: "'a lib_scheme \<Rightarrow> bool" where
  "div_exact_law L \<longleftrightarrow> (\<forall>a b. b \<noteq> 0 \<longrightarrow> grid 20 (a / b) \<longrightarrow> \<bar>a / b\<bar> < 10 ^ 8 \<longrightarrow> d_div L a b = a / b)"

definition round_law :: "'a lib_scheme \<Rightarrow> bool" where
  "round_law L \<longleftrightarrow> (\<forall>x. d_round L x \<in> \<int> \<and> \<bar>d_round L x - x\<bar> \<le> 1 / 2)"

definition round_dp_law :: "'a lib_scheme \<Rightarrow> bool" where
  "round_dp_law L \<longleftrightarrow> (\<forall>n x. grid n (d_round_dp L n x) \<and> (grid n x \<longrightarrow> d_round_dp L n x = x))"

definition trunc_dp_law :: "'a lib_scheme \<Rightarrow> bool" where
  "trunc_dp_law L \<longleftrightarrow> (\<forall>n x. grid n (d_trunc_dp L n x)
     \<and> (0 \<le> x \<longrightarrow> 0 \<le> d_trunc_dp L n x \<and> d_trunc_dp L n x \<le> x))"

definition of_f64_law :: "'a lib_scheme \<Rightarrow> bool" where
  "of_f64_law L \<longleftrightarrow> d_of_f64 L NaN = None \<and> d_of_f64 L PInf = None \<and> d_of_f64 L NInf = None"

lemma div_lawD:
  assumes "div_law L" and "0 \<le> a" and "0 < b"
  shows "\<bar>d_div L a b - a / b\<bar> \<le> dec_eps * max 1 (a / b)"
proof -
  have "\<bar>d_div L a b - a / b\<bar> \<le> dec_eps * max 1 \<bar>a / b\<bar>"
    using assms(1,3) unfolding div_law_def by (simp del: abs_divide)
  then show ?thesis using assms(2,3) by simp
qed

lemma dec_eps_pos [simp]: "0 < dec_eps"
  by (simp add: dec_eps_def)

section \<open>A concrete instance\<close>

text \<open>
  The instance of the witnesses: exact division, banker's rounding, conversions that keep
  the value, and the decimal notation of values with at most four decimal places.
\<close>

definition show_dec4 :: "dec \<Rightarrow> string" where
  "show_dec4 x = (if x < 0 then ''-'' else []) @ int_digits \<lfloor>\<bar>x\<bar>\<rfloor> @ ''.'' @
     tl (int_digits (10000 + \<lfloor>(\<bar>x\<bar> - of_int \<lfloor>\<bar>x\<bar>\<rfloor>) * 10000\<rfloor>))"

definition exact_lib :: lib where
  "exact_lib = \<lparr> m_ln = (\<lambda>x. Fin 0), m_exp = (\<lambda>x. Fin 1), m_pow2 = (\<lambda>x. Fin 1), m_sqrt = (\<lambda>x. x),
     d_div = (\<lambda>a b. a / b), d_round = (\<lambda>x. of_int (rhe x)),
     d_round_dp = (\<lambda>n x. of_int (rhe (x * 10 ^ n)) / 10 ^ n),
     d_trunc_dp = (\<lambda>n x. (if 0 \<le> x then of_int \<lfloor>x * 10 ^ n\<rfloor> else of_int \<lceil>x * 10 ^ n\<rceil>) / 10 ^ n),
     d_of_f64 = (\<lambda>x. case x of Fin v \<Rightarrow> Some v | _ \<Rightarrow> None),
     d_to_f64 = (\<lambda>x. Some (rnd x)),
     d_parse = (\<lambda>s. parse_number s),
     d_show = show_dec4, d_fmt = (\<lambda>n x. show_dec4 x),
     f_fmt = (\<lambda>n x. []), f_show = (\<lambda>x. []) \<rparr>"

lemma exact_lib_simps [simp]:
  "d_div exact_lib a b = a / b" "d_round exact_lib x = of_int (rhe x)"
  "d_round_dp exact_lib n x = of_int (rhe (x * 10 ^ n)) / 10 ^ n"
  "d_trunc_dp exact_lib n x = (if 0 \<le> x then of_int \<lfloor>x * 10 ^ n\<rfloor> else of_int \<lceil>x * 10 ^ n\<rceil>) / 10 ^ n"
  "d_of_f64 exact_lib f = (case f of Fin v \<Rightarrow> Some v | _ \<Rightarrow> None)"
  "d_to_f64 exact_lib x = Some (rnd x)"
  "m_ln exact_lib f = Fin 0" "m_exp exact_lib f = Fin 1" "m_pow2 exact_lib f = Fin 1"
  "m_sqrt exact_lib f = f" "d_parse exact_lib s = parse_number s"
  "d_show exact_lib x = show_dec4 x" "d_fmt exact_lib n x = show_dec4 x"
  "f_fmt exact_lib n f = []" "f_show exact_lib f = []"
  by (simp_all add: exact_lib_def)

lemma rhe_dist: "\<bar>of_int (rhe y) - y\<bar> \<le> 1 / 2"
proof -
  have "of_int \<lfloor>y\<rfloor> \<le> y" "y < of_int \<lfloor>y\<rfloor> + 1" by linarith+
  then show ?thesis by (auto simp: rhe_def Let_def abs_le_iff)
qed

lemma exact_lib_laws [simp]:
  "div_law exact_lib" "div_nonneg_law exact_lib" "div_exact_law exact_lib" "round_law exact_lib"
  "round_dp_law exact_lib" "trunc_dp_law exact_lib" "of_f64_law exact_lib"
proof -
  show "div_law exact_lib" by (simp add: div_law_def dec_eps_def le_max_iff_disj)
  show "div_nonneg_law exact_lib" "div_exact_law exact_lib" "of_f64_law exact_lib"
    by (simp_all add: div_nonneg_law_def div_exact_law_def of_f64_law_def)
  show "round_law exact_lib" using rhe_dist by (auto simp: round_law_def)
  show "round_dp_law exact_lib"
    by (auto simp: round_dp_law_def grid_def divide_eq_eq elim!: Ints_cases)
  show "trunc_dp_law exact_lib"
    by (auto simp: trunc_dp_law_def grid_def zero_le_divide_iff divide_le_eq)
qed

end
