(* ===== verification/MarketTypes.thy ===== *)
theory MarketTypes
  imports Decimal
begin

text \<open>
  The shared data types of \<open>src/src/types/market.rs\<close> and \<open>src/src/types/order.rs\<close>: books and
  ticks, the consolidated market state, the events the gateways send to the engine, and the
  commands and feedback exchanged between the engine and the executor. Field names carry a
  prefix per struct, since record fields are global functions here. \<open>MarketSide\<close> is declared
  in \<open>src/src/engine/position.rs\<close>.
\<close>

section \<open>Enumerations\<close>

datatype direction = Up | Down

datatype data_source = Binance | BinanceFutures | PolymarketMarket | PolymarketUser

datatype trade_status = Matched | Mined | Confirmed | Retrying | Failed | Canceled

datatype market_side = Yes | No

datatype side = Buy | Sell

datatype order_type = Gtc | Gtd | Fok

datatype order_status = Placed | Filled | Cancelled | Rejected

section \<open>Books, ticks and trades\<close>

record price_level =
  pl_price :: dec
  pl_size :: dec

record order_book =
  ob_asset_id :: string
  ob_bids :: "price_level list"
  ob_asks :: "price_level list"
  ob_timestamp_ms :: u64

definition first_of :: "'a list \<Rightarrow> 'a option" where
  "first_of xs = (case xs of [] \<Rightarrow> None | x # _ \<Rightarrow> Some x)"

definition ob_best_bid :: "order_book \<Rightarrow> price_level option" where
  "ob_best_bid b = first_of (ob_bids b)"

definition ob_best_ask :: "order_book \<Rightarrow> price_level option" where
  "ob_best_ask b = first_of (ob_asks b)"

record binance_tick =
  bt_symbol :: string
  bt_bid_price :: dec
  bt_bid_qty :: dec
  bt_ask_price :: dec
  bt_ask_qty :: dec
  bt_timestamp_ms :: u64

definition bt_mid_price :: "'a lib_scheme \<Rightarrow> binance_tick \<Rightarrow> dec" where
  "bt_mid_price L t = d_div L (bt_bid_price t + bt_ask_price t) 2"

record binance_depth =
  bd_symbol :: string
  bd_bids :: "price_level list"
  bd_asks :: "price_level list"
  bd_timestamp_ms :: u64

definition bd_best_bid :: "binance_depth \<Rightarrow> price_level option" where
  "bd_best_bid d = first_of (bd_bids d)"

definition bd_best_ask :: "binance_depth \<Rightarrow> price_level option" where
  "bd_best_ask d = first_of (bd_asks d)"

definition bd_mid_price :: "'a lib_scheme \<Rightarrow> binance_depth \<Rightarrow> dec option" where
  "bd_mid_price L d = (case (bd_best_bid d, bd_best_ask d) of
      (Some bid, Some ask) \<Rightarrow> Some (d_div L (pl_price bid + pl_price ask) 2)
    | _ \<Rightarrow> None)"

definition level_sum :: "price_level list \<Rightarrow> dec" where
  "level_sum ls = sum_list (map pl_size ls)"

definition bd_obi :: "'a lib_scheme \<Rightarrow> binance_depth \<Rightarrow> dec option" where
  "bd_obi L d = (let bid_depth = level_sum (bd_bids d); ask_depth = level_sum (bd_asks d);
     total = bid_depth + ask_depth in
     if total = 0 then None else Some (d_div L (bid_depth - ask_depth) total))"

record futures_agg_trade =
  fat_price :: dec
  fat_quantity :: dec
  fat_is_buyer_maker :: bool
  fat_timestamp_ms :: u64

record futures_book_ticker =
  fbt_bid_price :: dec
  fbt_bid_qty :: dec
  fbt_ask_price :: dec
  fbt_ask_qty :: dec
  fbt_timestamp_ms :: u64

record futures_force_order =
  ffo_side :: string
  ffo_price :: dec
  ffo_quantity :: dec
  ffo_timestamp_ms :: u64

record spot_trade =
  st_price :: dec
  st_quantity :: dec
  st_is_buyer_maker :: bool
  st_timestamp_ms :: u64

section \<open>Market state and events\<close>

record market_state =
  poly_book :: "order_book option"
  poly_yes_book :: "order_book option"
  poly_no_book :: "order_book option"
  binance_price :: "dec option"
  active_condition_id :: "string option"
  active_yes_token_id :: "string option"
  active_no_token_id :: "string option"
  tick_size :: dec
  market_end_timestamp_ms :: u64
  last_update_ms :: u64

definition market_state_new :: market_state where
  "market_state_new = \<lparr> poly_book = None, poly_yes_book = None, poly_no_book = None,
     binance_price = None, active_condition_id = None, active_yes_token_id = None,
     active_no_token_id = None, tick_size = dnew 1 2, market_end_timestamp_ms = 0,
     last_update_ms = 0 \<rparr>"

text \<open>The fields of a struct-like variant are its arguments, in the order of the source.\<close>

datatype ingestor_event =
    EvBook order_book
  | EvPriceChange string dec dec side dec dec
  | EvBestBidAsk string dec dec
  | EvTickSizeChange string dec dec
  | EvMarketResolved string string
  | EvTradeStatus string trade_status "dec option" "dec option"
  | EvBinanceTick binance_tick
  | EvBinanceDepth binance_depth
  | EvFuturesAggTrade futures_agg_trade
  | EvFuturesBookTicker futures_book_ticker
  | EvFuturesForceOrder futures_force_order
  | EvSpotTrade spot_trade
  | EvMarketRotation string string string u64 dec
  | EvHeartbeat bool u64
  | EvWsStatus data_source bool
  | EvShutdown
  | EvDrainAndRestart
  | EvPauseTrading
  | EvResumeTrading

section \<open>Orders, executor commands and feedback\<close>

record order_request =
  rq_token_id :: string
  rq_side :: side
  rq_price :: dec
  rq_size :: dec
  rq_order_type :: order_type
  rq_post_only :: bool
  rq_expiration :: "u64 option"

definition post_only_gtc :: "string \<Rightarrow> side \<Rightarrow> dec \<Rightarrow> dec \<Rightarrow> order_request" where
  "post_only_gtc tok sd price sz = \<lparr> rq_token_id = tok, rq_side = sd, rq_price = price,
     rq_size = sz, rq_order_type = Gtc, rq_post_only = True, rq_expiration = None \<rparr>"

definition emergency_fok :: "string \<Rightarrow> side \<Rightarrow> dec \<Rightarrow> dec \<Rightarrow> order_request" where
  "emergency_fok tok sd price sz = \<lparr> rq_token_id = tok, rq_side = sd, rq_price = price,
     rq_size = sz, rq_order_type = Fok, rq_post_only = False, rq_expiration = None \<rparr>"

record order_response =
  rs_order_id :: string
  rs_status :: order_status
  rs_timestamp_ms :: u64
  rs_size_matched :: dec

datatype executor_command =
    PostOrder market_side string dec dec
  | CancelOrder market_side string
  | RebalanceTaker market_side string dec dec
  | CmdMarketRotation string string string dec
  | TickSizeChanged string string dec

datatype executor_feedback =
    OrderPosted market_side string dec dec bool
  | OrderFailed market_side
  | CancelResult market_side string "dec option"
  | RebalanceResult market_side bool dec dec

lemma first_of_simps [simp]: "first_of [] = None" "first_of (x # xs) = Some x"
  by (simp_all add: first_of_def)

end
