(* ===== verification/Metrics.thy ===== *)
theory Metrics
  imports MarketTypes
begin

text \<open>
  The nine metric trackers of \<open>src/src/engine/buildup/metrics.rs\<close>. Eight of them keep
  exponential averages and share one contract, the interface \<open>tracker\<close>: a stale or cold
  tracker reads zero, any other reading is the normalised raw value. The ninth keeps the last
  log-returns in a ring buffer. \<open>usize\<close> indices and counts are natural numbers; sample
  counters are \<open>u32\<close> and wrap.
\<close>

section \<open>Common helpers\<close>

definition normalize :: "f64 \<Rightarrow> f64 \<Rightarrow> f64 \<Rightarrow> f64" where
  "normalize value min_threshold saturation =
     (if fle saturation min_threshold then flit 0
      else let a = fabs value in
        if flt a min_threshold then flit 0
        else fclamp (fdiv (fsub a min_threshold) (fsub saturation min_threshold)) (flit 0) (flit 1))"

definition time_alpha :: "'a libm_scheme \<Rightarrow> f64 \<Rightarrow> f64 \<Rightarrow> f64" where
  "time_alpha L dt_ms halflife_ms = fsub (flit 1) (m_pow2 L (fdiv (fneg dt_ms) halflife_ms))"

definition sign_to_direction :: "f64 \<Rightarrow> direction option" where
  "sign_to_direction value = (if flt (flit 0) value then Some Up
     else if flt value (flit 0) then Some Down else None)"

text \<open>The step all averages use: \<open>alpha * x + (1.0 - alpha) * old\<close>.\<close>

definition ema_step :: "f64 \<Rightarrow> f64 \<Rightarrow> f64 \<Rightarrow> f64" where
  "ema_step alpha x old = fadd (fmul alpha x) (fmul (fsub (flit 1) alpha) old)"

definition elapsed :: "u64 \<Rightarrow> u64 \<Rightarrow> f64" where
  "elapsed now_ms prev = f_of_u64 (saturating_sub now_ms prev)"

definition fresh_at :: "u64 \<Rightarrow> u64 \<Rightarrow> u64 \<Rightarrow> bool" where
  "fresh_at prev max_ms now_ms \<longleftrightarrow> 0 < prev \<and> saturating_sub now_ms prev \<le> max_ms"

section \<open>CVD acceleration\<close>

record cvd_accel_tracker =
  ca_fast_ema :: f64
  ca_slow_ema :: f64
  ca_accel :: f64
  ca_halflife_fast_ms :: f64
  ca_halflife_slow_ms :: f64
  ca_last_update_ms :: u64
  ca_freshness_max_ms :: u64
  ca_min_threshold :: f64
  ca_saturation :: f64
  ca_samples :: u32

definition ca_new :: "f64 \<Rightarrow> f64 \<Rightarrow> u64 \<Rightarrow> f64 \<Rightarrow> f64 \<Rightarrow> cvd_accel_tracker" where
  "ca_new halflife_fast halflife_slow freshness thr sat = \<lparr> ca_fast_ema = flit 0, ca_slow_ema = flit 0,
     ca_accel = flit 0, ca_halflife_fast_ms = halflife_fast, ca_halflife_slow_ms = halflife_slow,
     ca_last_update_ms = 0, ca_freshness_max_ms = freshness, ca_min_threshold = thr,
     ca_saturation = sat, ca_samples = 0 \<rparr>"

definition ca_update :: "'a libm_scheme \<Rightarrow> f64 \<Rightarrow> bool \<Rightarrow> u64 \<Rightarrow> cvd_accel_tracker \<Rightarrow> cvd_accel_tracker" where
  "ca_update L quantity is_buyer_maker now_ms t =
     (let signed_qty = (if is_buyer_maker then fneg quantity else quantity);
          t1 = (if ca_samples t = 0 then t\<lparr> ca_fast_ema := signed_qty, ca_slow_ema := signed_qty \<rparr>
                else let dt = elapsed now_ms (ca_last_update_ms t);
                         af = time_alpha L dt (ca_halflife_fast_ms t);
                         a_s = time_alpha L dt (ca_halflife_slow_ms t)
                     in t\<lparr> ca_fast_ema := ema_step af signed_qty (ca_fast_ema t),
                           ca_slow_ema := ema_step a_s signed_qty (ca_slow_ema t) \<rparr>)
      in t1\<lparr> ca_accel := fsub (ca_fast_ema t1) (ca_slow_ema t1), ca_last_update_ms := now_ms,
             ca_samples := ca_samples t1 + 1 \<rparr>)"

definition ca_is_fresh :: "cvd_accel_tracker \<Rightarrow> u64 \<Rightarrow> bool" where
  "ca_is_fresh t now_ms = fresh_at (ca_last_update_ms t) (ca_freshness_max_ms t) now_ms"

definition ca_normalized :: "cvd_accel_tracker \<Rightarrow> u64 \<Rightarrow> f64" where
  "ca_normalized t now_ms = (if \<not> ca_is_fresh t now_ms \<or> ca_samples t < 10 then flit 0
     else normalize (ca_accel t) (ca_min_threshold t) (ca_saturation t))"

definition ca_direction :: "cvd_accel_tracker \<Rightarrow> direction option" where
  "ca_direction t = (if ca_samples t < 10 then None else sign_to_direction (ca_accel t))"

section \<open>OBI velocity\<close>

record obi_velocity_tracker =
  ov_prev_obi :: f64
  ov_delta_ema :: f64
  ov_halflife_ms :: f64
  ov_last_update_ms :: u64
  ov_freshness_max_ms :: u64
  ov_min_threshold :: f64
  ov_saturation :: f64
  ov_initialized :: bool

definition ov_new :: "f64 \<Rightarrow> u64 \<Rightarrow> f64 \<Rightarrow> f64 \<Rightarrow> obi_velocity_tracker" where
  "ov_new halflife freshness thr sat = \<lparr> ov_prev_obi = flit 0, ov_delta_ema = flit 0,
     ov_halflife_ms = halflife, ov_last_update_ms = 0, ov_freshness_max_ms = freshness,
     ov_min_threshold = thr, ov_saturation = sat, ov_initialized = False \<rparr>"

definition ov_update :: "'a libm_scheme \<Rightarrow> f64 \<Rightarrow> u64 \<Rightarrow> obi_velocity_tracker \<Rightarrow> obi_velocity_tracker" where
  "ov_update L obi now_ms t =
     (let t1 = (if ov_initialized t then
            (let delta = fsub obi (ov_prev_obi t); dt = elapsed now_ms (ov_last_update_ms t);
                 alpha = time_alpha L dt (ov_halflife_ms t)
             in t\<lparr> ov_delta_ema := ema_step alpha delta (ov_delta_ema t) \<rparr>) else t)
      in t1\<lparr> ov_prev_obi := obi, ov_last_update_ms := now_ms, ov_initialized := True \<rparr>)"

definition ov_is_fresh :: "obi_velocity_tracker \<Rightarrow> u64 \<Rightarrow> bool" where
  "ov_is_fresh t now_ms = fresh_at (ov_last_update_ms t) (ov_freshness_max_ms t) now_ms"

definition ov_normalized :: "obi_velocity_tracker \<Rightarrow> u64 \<Rightarrow> f64" where
  "ov_normalized t now_ms = (if \<not> ov_is_fresh t now_ms \<or> \<not> ov_initialized t then flit 0
     else normalize (ov_delta_ema t) (ov_min_threshold t) (ov_saturation t))"

definition ov_direction :: "obi_velocity_tracker \<Rightarrow> direction option" where
  "ov_direction t = (if \<not> ov_initialized t then None else sign_to_direction (ov_delta_ema t))"

section \<open>Basis delta\<close>

record basis_delta_tracker =
  bx_futures_mid :: f64
  bx_spot_mid :: f64
  bx_prev_basis_bps :: f64
  bx_delta_ema :: f64
  bx_halflife_ms :: f64
  bx_last_update_ms :: u64
  bx_freshness_max_ms :: u64
  bx_min_threshold :: f64
  bx_saturation :: f64
  bx_initialized :: bool

definition bx_new :: "f64 \<Rightarrow> u64 \<Rightarrow> f64 \<Rightarrow> f64 \<Rightarrow> basis_delta_tracker" where
  "bx_new halflife freshness thr sat = \<lparr> bx_futures_mid = flit 0, bx_spot_mid = flit 0,
     bx_prev_basis_bps = flit 0, bx_delta_ema = flit 0, bx_halflife_ms = halflife,
     bx_last_update_ms = 0, bx_freshness_max_ms = freshness, bx_min_threshold = thr,
     bx_saturation = sat, bx_initialized = False \<rparr>"

definition basis_bps_of :: "f64 \<Rightarrow> f64 \<Rightarrow> f64" where
  "basis_bps_of futures spot = fmul (fdiv (fsub futures spot) spot) (flit 10000)"

definition bx_recompute :: "'a libm_scheme \<Rightarrow> u64 \<Rightarrow> basis_delta_tracker \<Rightarrow> basis_delta_tracker" where
  "bx_recompute L now_ms t =
     (if fle (bx_futures_mid t) (flit 0) \<or> fle (bx_spot_mid t) (flit 0) then t
      else let basis_bps = basis_bps_of (bx_futures_mid t) (bx_spot_mid t);
               t1 = (if bx_initialized t then
                  (let delta = fsub basis_bps (bx_prev_basis_bps t);
                       dt = elapsed now_ms (bx_last_update_ms t);
                       alpha = time_alpha L dt (bx_halflife_ms t)
                   in t\<lparr> bx_delta_ema := ema_step alpha delta (bx_delta_ema t) \<rparr>) else t)
           in t1\<lparr> bx_prev_basis_bps := basis_bps, bx_last_update_ms := now_ms, bx_initialized := True \<rparr>)"

definition bx_update_futures_mid :: "'a libm_scheme \<Rightarrow> f64 \<Rightarrow> f64 \<Rightarrow> u64 \<Rightarrow> basis_delta_tracker
    \<Rightarrow> basis_delta_tracker" where
  "bx_update_futures_mid L bid ask now_ms t =
     bx_recompute L now_ms (t\<lparr> bx_futures_mid := fdiv (fadd bid ask) (flit 2) \<rparr>)"

definition bx_update_spot_mid :: "'a libm_scheme \<Rightarrow> f64 \<Rightarrow> u64 \<Rightarrow> basis_delta_tracker
    \<Rightarrow> basis_delta_tracker" where
  "bx_update_spot_mid L mid now_ms t = bx_recompute L now_ms (t\<lparr> bx_spot_mid := mid \<rparr>)"

definition bx_is_fresh :: "basis_delta_tracker \<Rightarrow> u64 \<Rightarrow> bool" where
  "bx_is_fresh t now_ms = fresh_at (bx_last_update_ms t) (bx_freshness_max_ms t) now_ms"

definition bx_normalized :: "basis_delta_tracker \<Rightarrow> u64 \<Rightarrow> f64" where
  "bx_normalized t now_ms = (if \<not> bx_is_fresh t now_ms \<or> \<not> bx_initialized t then flit 0
     else normalize (bx_delta_ema t) (bx_min_threshold t) (bx_saturation t))"

definition bx_direction :: "basis_delta_tracker \<Rightarrow> direction option" where
  "bx_direction t = (if \<not> bx_initialized t then None else sign_to_direction (bx_delta_ema t))"

section \<open>Realized volatility\<close>

record realized_vol_tracker =
  rv_returns :: "f64 list"
  rv_head :: nat
  rv_count :: nat
  rv_sum_sq :: f64
  rv_prev_price :: f64
  rv_capacity :: nat
  rv_min_warmup :: nat
  rv_default_vol :: f64
  rv_ticks_per_sec :: f64
  rv_last_update_ms :: u64
  rv_freshness_max_ms :: u64

definition rv_new :: "nat \<Rightarrow> nat \<Rightarrow> f64 \<Rightarrow> f64 \<Rightarrow> u64 \<Rightarrow> realized_vol_tracker" where
  "rv_new capacity min_warmup default_vol ticks freshness = \<lparr> rv_returns = replicate capacity (flit 0),
     rv_head = 0, rv_count = 0, rv_sum_sq = flit 0, rv_prev_price = flit 0, rv_capacity = capacity,
     rv_min_warmup = min_warmup, rv_default_vol = default_vol, rv_ticks_per_sec = ticks,
     rv_last_update_ms = 0, rv_freshness_max_ms = freshness \<rparr>"

text \<open>An index outside the buffer and a capacity of zero panic.\<close>

definition rv_push :: "f64 \<Rightarrow> realized_vol_tracker \<Rightarrow> realized_vol_tracker outcome" where
  "rv_push log_return t =
     (if rv_head t < length (rv_returns t) \<and> rv_capacity t \<noteq> 0 then
        (let s1 = (if rv_capacity t \<le> rv_count t
                   then (let old = rv_returns t ! rv_head t in fsub (rv_sum_sq t) (fmul old old))
                   else rv_sum_sq t)
         in Good (t\<lparr> rv_returns := (rv_returns t)[rv_head t := log_return],
                     rv_sum_sq := fadd s1 (fmul log_return log_return),
                     rv_head := (rv_head t + 1) mod rv_capacity t,
                     rv_count := rv_count t + 1 \<rparr>))
      else Panic)"

definition rv_update :: "'a libm_scheme \<Rightarrow> f64 \<Rightarrow> u64 \<Rightarrow> realized_vol_tracker
    \<Rightarrow> realized_vol_tracker outcome" where
  "rv_update L price now_ms t =
     (if fle price (flit 0) then Good t
      else obind (if flt (flit 0) (rv_prev_price t)
                  then rv_push (m_ln L (fdiv price (rv_prev_price t))) t else Good t)
        (\<lambda>t1. Good (t1\<lparr> rv_prev_price := price, rv_last_update_ms := now_ms \<rparr>)))"

definition rv_realized_vol :: "'a libm_scheme \<Rightarrow> realized_vol_tracker \<Rightarrow> f64" where
  "rv_realized_vol L t =
     (let n = min (rv_count t) (rv_capacity t) in
      if n < rv_min_warmup t then rv_default_vol t
      else let variance = fmax (fdiv (rv_sum_sq t) (f_of_nat n)) (flit 0) in m_sqrt L variance)"

definition rv_scaled_vol :: "'a libm_scheme \<Rightarrow> f64 \<Rightarrow> f64 \<Rightarrow> realized_vol_tracker \<Rightarrow> f64" where
  "rv_scaled_vol L remaining_secs vol_floor t =
     (let ticks_remaining = fmul (rv_ticks_per_sec t) remaining_secs in
      fmul (fmax (rv_realized_vol L t) vol_floor) (m_sqrt L (fmax ticks_remaining (flit 1))))"

definition rv_is_fresh :: "realized_vol_tracker \<Rightarrow> u64 \<Rightarrow> bool" where
  "rv_is_fresh t now_ms = fresh_at (rv_last_update_ms t) (rv_freshness_max_ms t) now_ms"

definition rv_is_warm :: "realized_vol_tracker \<Rightarrow> bool" where
  "rv_is_warm t \<longleftrightarrow> rv_min_warmup t \<le> rv_count t"

section \<open>CVD level\<close>

record cvd_level_tracker =
  cl_ema :: f64
  cl_halflife_ms :: f64
  cl_last_update_ms :: u64
  cl_freshness_max_ms :: u64
  cl_saturation :: f64
  cl_samples :: u32

definition cl_new :: "f64 \<Rightarrow> u64 \<Rightarrow> f64 \<Rightarrow> cvd_level_tracker" where
  "cl_new halflife freshness sat = \<lparr> cl_ema = flit 0, cl_halflife_ms = halflife,
     cl_last_update_ms = 0, cl_freshness_max_ms = freshness, cl_saturation = sat, cl_samples = 0 \<rparr>"

definition cl_update :: "'a libm_scheme \<Rightarrow> f64 \<Rightarrow> bool \<Rightarrow> u64 \<Rightarrow> cvd_level_tracker \<Rightarrow> cvd_level_tracker" where
  "cl_update L quantity is_buyer_maker now_ms t =
     (let signed_qty = (if is_buyer_maker then fneg quantity else quantity);
          t1 = (if cl_samples t = 0 then t\<lparr> cl_ema := signed_qty \<rparr>
                else let alpha = time_alpha L (elapsed now_ms (cl_last_update_ms t)) (cl_halflife_ms t)
                     in t\<lparr> cl_ema := ema_step alpha signed_qty (cl_ema t) \<rparr>)
      in t1\<lparr> cl_last_update_ms := now_ms, cl_samples := cl_samples t1 + 1 \<rparr>)"

definition cl_is_fresh :: "cvd_level_tracker \<Rightarrow> u64 \<Rightarrow> bool" where
  "cl_is_fresh t now_ms = fresh_at (cl_last_update_ms t) (cl_freshness_max_ms t) now_ms"

definition cl_normalized :: "cvd_level_tracker \<Rightarrow> u64 \<Rightarrow> f64" where
  "cl_normalized t now_ms = (if \<not> cl_is_fresh t now_ms \<or> cl_samples t < 10 then flit 0
     else normalize (cl_ema t) (flit 0) (cl_saturation t))"

definition cl_direction :: "cvd_level_tracker \<Rightarrow> direction option" where
  "cl_direction t = (if cl_samples t < 10 then None else sign_to_direction (cl_ema t))"

section \<open>OBI level\<close>

record obi_level_tracker =
  ol_ema :: f64
  ol_halflife_ms :: f64
  ol_last_update_ms :: u64
  ol_freshness_max_ms :: u64
  ol_saturation :: f64
  ol_initialized :: bool

definition ol_new :: "f64 \<Rightarrow> u64 \<Rightarrow> f64 \<Rightarrow> obi_level_tracker" where
  "ol_new halflife freshness sat = \<lparr> ol_ema = flit 0, ol_halflife_ms = halflife,
     ol_last_update_ms = 0, ol_freshness_max_ms = freshness, ol_saturation = sat,
     ol_initialized = False \<rparr>"

definition ol_update :: "'a libm_scheme \<Rightarrow> f64 \<Rightarrow> u64 \<Rightarrow> obi_level_tracker \<Rightarrow> obi_level_tracker" where
  "ol_update L obi now_ms t =
     (let t1 = (if \<not> ol_initialized t then t\<lparr> ol_ema := obi \<rparr>
                else let alpha = time_alpha L (elapsed now_ms (ol_last_update_ms t)) (ol_halflife_ms t)
                     in t\<lparr> ol_ema := ema_step alpha obi (ol_ema t) \<rparr>)
      in t1\<lparr> ol_last_update_ms := now_ms, ol_initialized := True \<rparr>)"

definition ol_is_fresh :: "obi_level_tracker \<Rightarrow> u64 \<Rightarrow> bool" where
  "ol_is_fresh t now_ms = fresh_at (ol_last_update_ms t) (ol_freshness_max_ms t) now_ms"

definition ol_normalized :: "obi_level_tracker \<Rightarrow> u64 \<Rightarrow> f64" where
  "ol_normalized t now_ms = (if \<not> ol_is_fresh t now_ms \<or> \<not> ol_initialized t then flit 0
     else normalize (ol_ema t) (flit 0) (ol_saturation t))"

definition ol_direction :: "obi_level_tracker \<Rightarrow> direction option" where
  "ol_direction t = (if \<not> ol_initialized t then None else sign_to_direction (ol_ema t))"

section \<open>Basis level\<close>

record basis_level_tracker =
  bl_futures_mid :: f64
  bl_spot_mid :: f64
  bl_ema :: f64
  bl_halflife_ms :: f64
  bl_last_update_ms :: u64
  bl_freshness_max_ms :: u64
  bl_saturation :: f64
  bl_initialized :: bool

definition bl_new :: "f64 \<Rightarrow> u64 \<Rightarrow> f64 \<Rightarrow> basis_level_tracker" where
  "bl_new halflife freshness sat = \<lparr> bl_futures_mid = flit 0, bl_spot_mid = flit 0,
     bl_ema = flit 0, bl_halflife_ms = halflife, bl_last_update_ms = 0,
     bl_freshness_max_ms = freshness, bl_saturation = sat, bl_initialized = False \<rparr>"

definition bl_recompute :: "'a libm_scheme \<Rightarrow> u64 \<Rightarrow> basis_level_tracker \<Rightarrow> basis_level_tracker" where
  "bl_recompute L now_ms t =
     (if fle (bl_futures_mid t) (flit 0) \<or> fle (bl_spot_mid t) (flit 0) then t
      else let basis_bps = basis_bps_of (bl_futures_mid t) (bl_spot_mid t);
               t1 = (if \<not> bl_initialized t then t\<lparr> bl_ema := basis_bps \<rparr>
                  else let alpha = time_alpha L (elapsed now_ms (bl_last_update_ms t)) (bl_halflife_ms t)
                       in t\<lparr> bl_ema := ema_step alpha basis_bps (bl_ema t) \<rparr>)
           in t1\<lparr> bl_last_update_ms := now_ms, bl_initialized := True \<rparr>)"

definition bl_update_futures_mid :: "'a libm_scheme \<Rightarrow> f64 \<Rightarrow> f64 \<Rightarrow> u64 \<Rightarrow> basis_level_tracker
    \<Rightarrow> basis_level_tracker" where
  "bl_update_futures_mid L bid ask now_ms t =
     bl_recompute L now_ms (t\<lparr> bl_futures_mid := fdiv (fadd bid ask) (flit 2) \<rparr>)"

definition bl_update_spot_mid :: "'a libm_scheme \<Rightarrow> f64 \<Rightarrow> u64 \<Rightarrow> basis_level_tracker
    \<Rightarrow> basis_level_tracker" where
  "bl_update_spot_mid L mid now_ms t = bl_recompute L now_ms (t\<lparr> bl_spot_mid := mid \<rparr>)"

definition bl_is_fresh :: "basis_level_tracker \<Rightarrow> u64 \<Rightarrow> bool" where
  "bl_is_fresh t now_ms = fresh_at (bl_last_update_ms t) (bl_freshness_max_ms t) now_ms"

definition bl_normalized :: "basis_level_tracker \<Rightarrow> u64 \<Rightarrow> f64" where
  "bl_normalized t now_ms = (if \<not> bl_is_fresh t now_ms \<or> \<not> bl_initialized t then flit 0
     else normalize (bl_ema t) (flit 0) (bl_saturation t))"

definition bl_direction :: "basis_level_tracker \<Rightarrow> direction option" where
  "bl_direction t = (if \<not> bl_initialized t then None else sign_to_direction (bl_ema t))"

section \<open>Spot CVD\<close>

record spot_cvd_tracker =
  sc_fast_ema :: f64
  sc_slow_ema :: f64
  sc_accel :: f64
  sc_halflife_fast_ms :: f64
  sc_halflife_slow_ms :: f64
  sc_last_update_ms :: u64
  sc_freshness_max_ms :: u64
  sc_saturation :: f64
  sc_samples :: u32

definition sc_new :: "f64 \<Rightarrow> f64 \<Rightarrow> u64 \<Rightarrow> f64 \<Rightarrow> spot_cvd_tracker" where
  "sc_new halflife_fast halflife_slow freshness sat = \<lparr> sc_fast_ema = flit 0, sc_slow_ema = flit 0,
     sc_accel = flit 0, sc_halflife_fast_ms = halflife_fast, sc_halflife_slow_ms = halflife_slow,
     sc_last_update_ms = 0, sc_freshness_max_ms = freshness, sc_saturation = sat, sc_samples = 0 \<rparr>"

definition sc_update :: "'a libm_scheme \<Rightarrow> f64 \<Rightarrow> bool \<Rightarrow> u64 \<Rightarrow> spot_cvd_tracker \<Rightarrow> spot_cvd_tracker" where
  "sc_update L quantity is_buyer_maker now_ms t =
     (let signed_qty = (if is_buyer_maker then fneg quantity else quantity);
          t1 = (if sc_samples t = 0 then t\<lparr> sc_fast_ema := signed_qty, sc_slow_ema := signed_qty \<rparr>
                else let dt = elapsed now_ms (sc_last_update_ms t);
                         af = time_alpha L dt (sc_halflife_fast_ms t);
                         a_s = time_alpha L dt (sc_halflife_slow_ms t)
                     in t\<lparr> sc_fast_ema := ema_step af signed_qty (sc_fast_ema t),
                           sc_slow_ema := ema_step a_s signed_qty (sc_slow_ema t) \<rparr>)
      in t1\<lparr> sc_accel := fsub (sc_fast_ema t1) (sc_slow_ema t1), sc_last_update_ms := now_ms,
             sc_samples := sc_samples t1 + 1 \<rparr>)"

definition sc_is_fresh :: "spot_cvd_tracker \<Rightarrow> u64 \<Rightarrow> bool" where
  "sc_is_fresh t now_ms = fresh_at (sc_last_update_ms t) (sc_freshness_max_ms t) now_ms"

definition sc_normalized :: "spot_cvd_tracker \<Rightarrow> u64 \<Rightarrow> f64" where
  "sc_normalized t now_ms = (if \<not> sc_is_fresh t now_ms \<or> sc_samples t < 10 then flit 0
     else normalize (sc_accel t) (flit 0) (sc_saturation t))"

definition sc_direction :: "spot_cvd_tracker \<Rightarrow> direction option" where
  "sc_direction t = (if sc_samples t < 10 then None else sign_to_direction (sc_accel t))"

section \<open>Liquidations\<close>

record liquidation_tracker =
  lq_buy_ema :: f64
  lq_sell_ema :: f64
  lq_halflife_ms :: f64
  lq_last_update_ms :: u64
  lq_freshness_max_ms :: u64
  lq_saturation :: f64
  lq_samples :: u32

definition lq_new :: "f64 \<Rightarrow> u64 \<Rightarrow> f64 \<Rightarrow> liquidation_tracker" where
  "lq_new halflife freshness sat = \<lparr> lq_buy_ema = flit 0, lq_sell_ema = flit 0,
     lq_halflife_ms = halflife, lq_last_update_ms = 0, lq_freshness_max_ms = freshness,
     lq_saturation = sat, lq_samples = 0 \<rparr>"

definition lq_update :: "'a libm_scheme \<Rightarrow> string \<Rightarrow> f64 \<Rightarrow> u64 \<Rightarrow> liquidation_tracker
    \<Rightarrow> liquidation_tracker" where
  "lq_update L sd quantity now_ms t =
     (let t1 = (if 0 < lq_last_update_ms t then
            (let alpha = time_alpha L (elapsed now_ms (lq_last_update_ms t)) (lq_halflife_ms t)
             in t\<lparr> lq_buy_ema := fmul (lq_buy_ema t) (fsub (flit 1) alpha),
                   lq_sell_ema := fmul (lq_sell_ema t) (fsub (flit 1) alpha) \<rparr>) else t);
          t2 = (if sd = ''BUY'' then t1\<lparr> lq_buy_ema := fadd (lq_buy_ema t1) quantity \<rparr>
                else if sd = ''SELL'' then t1\<lparr> lq_sell_ema := fadd (lq_sell_ema t1) quantity \<rparr>
                else t1)
      in t2\<lparr> lq_last_update_ms := now_ms, lq_samples := lq_samples t2 + 1 \<rparr>)"

definition lq_net :: "liquidation_tracker \<Rightarrow> f64" where
  "lq_net t = fsub (lq_buy_ema t) (lq_sell_ema t)"

definition lq_is_fresh :: "liquidation_tracker \<Rightarrow> u64 \<Rightarrow> bool" where
  "lq_is_fresh t now_ms = fresh_at (lq_last_update_ms t) (lq_freshness_max_ms t) now_ms"

definition lq_normalized :: "liquidation_tracker \<Rightarrow> u64 \<Rightarrow> f64" where
  "lq_normalized t now_ms = (if \<not> lq_is_fresh t now_ms \<or> lq_samples t = 0 then flit 0
     else normalize (lq_net t) (flit 0) (lq_saturation t))"

definition lq_direction :: "liquidation_tracker \<Rightarrow> direction option" where
  "lq_direction t = (if lq_samples t = 0 then None else sign_to_direction (lq_net t))"

lemma f64_ok_grid:
  assumes "f64_ok (Fin x)" shows "\<exists>n. x = of_int n * 2 powi (- 1074)"
proof -
  have r: "rval x = x" using assms by (auto simp: rnd_Fin_iff)
  have *: "\<exists>n. rmag y = of_int n * 2 powi (- 1074)" for y
  proof -
    have u: "- 1074 \<le> uexp y" by (simp add: uexp_def)
    then have "2 powi (uexp y) = of_int (2 ^ nat (uexp y + 1074)) * (2::rat) powi (- 1074)"
      using powi2_shift [OF u] by simp
    then show ?thesis
      by (intro exI [of _ "rhe (y / pow2 (uexp y)) * 2 ^ nat (uexp y + 1074)"])
        (simp only: rmag_def pow2_def of_int_mult mult.assoc)
  qed
  consider "x = 0" | "0 < x" | "x < 0" by linarith
  then show ?thesis
  proof cases
    case 1 then show ?thesis by (intro exI [of _ 0]) simp
  next
    case 2 then show ?thesis using * [of x] r by (simp add: rval_def)
  next
    case 3
    then obtain n where "rmag (- x) = of_int n * 2 powi (- 1074)" using * by blast
    then show ?thesis using r 3 by (intro exI [of _ "- n"]) (simp add: rval_def)
  qed
qed

text \<open>Gradual underflow: the difference of two different numbers is never rounded to zero.\<close>

lemma fsub_pos:
  assumes "f64_ok (Fin x)" and "f64_ok (Fin y)" and "y < x"
  shows "flt (Fin 0) (fsub (Fin x) (Fin y))"
proof -
  let ?t = "(2::rat) powi (- 1074)"
  obtain m n where mn: "x = of_int m * ?t" "y = of_int n * ?t"
    using f64_ok_grid [OF assms(1)] f64_ok_grid [OF assms(2)] by blast
  have tp: "0 < ?t" by simp
  have "n < m" using assms(3) tp unfolding mn by (simp only: mult_less_cancel_right_pos of_int_less_iff)
  then have "(1::rat) \<le> of_int (m - n)" by linarith
  then have "1 * ?t \<le> of_int (m - n) * ?t" using tp by (intro mult_right_mono) simp_all
  then have "?t \<le> x - y" unfolding mn by (simp only: of_int_diff left_diff_distrib mult_1_left)
  then have "rval ?t \<le> rval (x - y)" by (rule rval_mono)
  moreover have "rval ?t = ?t" by (rule rval_exact [of _ 1 "- 1074"]) simp_all
  ultimately have "0 < rval (x - y)" using tp by linarith
  then show ?thesis using assms(3) by (simp add: fsub_def rnd_def Let_def)
qed

lemma fclamp_unit: "x = NaN \<or> fin_in 0 1 (fclamp x (Fin 0) (Fin 1))"
  using fin_in_clamp [of 0 1 x] by auto

lemma fsub_not_NaN: "is_fin a \<Longrightarrow> is_fin b \<Longrightarrow> fsub a b \<noteq> NaN"
  by (cases a; cases b) (auto simp: fsub_def)

section \<open>The shared contract\<close>

lemma normalize_unit_or_NaN: "normalize v thr sat = NaN \<or> fin_in 0 1 (normalize v thr sat)"
  using fclamp_unit [of "fdiv (fsub (fabs v) thr) (fsub sat thr)"] by (auto simp: normalize_def Let_def)

lemma normalize_unit:
  assumes "f64_ok v" "f64_ok thr" "f64_ok sat" "is_fin v" "is_fin thr" "is_fin sat" "fle (Fin 0) thr"
  shows "fin_in 0 1 (normalize v thr sat)"
proof -
  obtain x a b where v: "v = Fin x" "thr = Fin a" "sat = Fin b" using assms by (cases v; cases thr; cases sat) auto
  have ax: "f64_ok (Fin \<bar>x\<bar>)" using assms(1) f64_ok_neg [of v] by (cases "0 \<le> x") (auto simp: v simp del: f64_ok.simps)
  show ?thesis
  proof (cases "b \<le> a \<or> \<bar>x\<bar> < a")
    case True
    then show ?thesis by (auto simp: normalize_def v Let_def)
  next
    case False
    have d: "flt (Fin 0) (fsub (Fin b) (Fin a))"
      using assms False by (intro fsub_pos) (auto simp: v)
    have n: "fsub (Fin \<bar>x\<bar>) (Fin a) \<noteq> NaN" "fsub (Fin \<bar>x\<bar>) (Fin a) \<noteq> NInf"
      "fsub (Fin \<bar>x\<bar>) (Fin a) \<noteq> PInf"
    proof -
      have "fin_in 0 \<bar>x\<bar> (fsub (Fin \<bar>x\<bar>) (Fin a))"
        using False ax assms by (auto simp: fsub_def v intro!: fin_in_rnd)
      then show "fsub (Fin \<bar>x\<bar>) (Fin a) \<noteq> NaN" "fsub (Fin \<bar>x\<bar>) (Fin a) \<noteq> NInf"
        "fsub (Fin \<bar>x\<bar>) (Fin a) \<noteq> PInf" by (auto simp: fin_in_iff)
    qed
    obtain c where c: "fsub (Fin \<bar>x\<bar>) (Fin a) = Fin c" using n by (cases "fsub (Fin \<bar>x\<bar>) (Fin a)") auto
    have "fdiv (Fin c) (fsub (Fin b) (Fin a)) \<noteq> NaN"
      using d by (cases "fsub (Fin b) (Fin a)") auto
    from fin_in_clamp [OF _ this, of 0 1] show ?thesis using False by (simp add: normalize_def v c Let_def)
  qed
qed

lemma fdiv_0: "fdiv (Fin 0) b = NaN \<or> fdiv (Fin 0) b = Fin 0"
  by (cases b) (auto simp: inf_of_sign_def)

lemma normalize_pos_raw:
  assumes "flt (Fin 0) (normalize v thr sat)" and "fle (Fin 0) thr"
  shows "v \<noteq> Fin 0 \<and> v \<noteq> NaN"
proof -
  have "normalize (Fin 0) thr sat = Fin 0 \<or> normalize (Fin 0) thr sat = NaN"
    using assms(2) fdiv_0 [of "fsub sat (Fin 0)"]
    by (cases thr) (auto simp: normalize_def Let_def fclamp_def fsub_def)
  moreover have "normalize NaN thr sat = Fin 0 \<or> normalize NaN thr sat = NaN"
    by (auto simp: normalize_def Let_def fsub_def)
  ultimately show ?thesis using assms(1) by auto
qed

text \<open>
  What the score reads from a tracker: \<open>norm\<close> and \<open>dir\<close> of a raw value that is ready after
  enough samples, zero as soon as the last update is older than the tracker's window.
\<close>

locale tracker =
  fixes norm :: "'s \<Rightarrow> u64 \<Rightarrow> f64" and dir :: "'s \<Rightarrow> direction option"
    and fresh :: "'s \<Rightarrow> u64 \<Rightarrow> bool" and ready :: "'s \<Rightarrow> bool" and raw :: "'s \<Rightarrow> f64"
    and thr :: "'s \<Rightarrow> f64" and sat :: "'s \<Rightarrow> f64" and updated :: "'s \<Rightarrow> u64" and window :: "'s \<Rightarrow> u64"
  assumes norm_cold: "\<not> fresh t now \<or> \<not> ready t \<Longrightarrow> norm t now = Fin 0"
    and norm_warm: "fresh t now \<Longrightarrow> ready t \<Longrightarrow> norm t now = normalize (raw t) (thr t) (sat t)"
    and dir_ready: "dir t = (if ready t then sign_to_direction (raw t) else None)"
    and fresh_window: "fresh t now = fresh_at (updated t) (window t) now"
begin

lemma unit_or_NaN: "norm t now = NaN \<or> fin_in 0 1 (norm t now)"
  using normalize_unit_or_NaN norm_cold norm_warm by (cases "fresh t now \<and> ready t") auto

lemma unit:
  assumes "f64_ok (raw t)" "is_fin (raw t)" "f64_ok (thr t)" "is_fin (thr t)" "fle (Fin 0) (thr t)"
    "f64_ok (sat t)" "is_fin (sat t)"
  shows "fin_in 0 1 (norm t now)"
  using normalize_unit [of "raw t" "thr t" "sat t"] assms norm_cold norm_warm
  by (cases "fresh t now \<and> ready t") auto

lemma stale_stays_stale:
  assumes "\<not> fresh t now" and "updated t \<le> now" and "now \<le> later"
  shows "norm t later = Fin 0"
proof -
  have "\<not> fresh t later"
    using assms by (auto simp: fresh_window fresh_at_def word_le_nat_alt unat_saturating_sub)
  then show ?thesis by (simp add: norm_cold)
qed

lemma positive_has_direction:
  assumes "flt (Fin 0) (norm t now)" and "fle (Fin 0) (thr t)"
  shows "dir t \<noteq> None"
proof -
  have w: "fresh t now" "ready t" using assms(1) norm_cold [of t now] by (cases "fresh t now"; cases "ready t"; simp)+
  have "flt (Fin 0) (normalize (raw t) (thr t) (sat t))" using assms(1) norm_warm [OF w] by simp
  from normalize_pos_raw [OF this assms(2)] have "raw t \<noteq> Fin 0 \<and> raw t \<noteq> NaN" .
  then show ?thesis using w(2) by (cases "raw t") (auto simp: dir_ready sign_to_direction_def)
qed

end

interpretation cvd_accel: tracker ca_normalized ca_direction ca_is_fresh "\<lambda>t. 10 \<le> ca_samples t"
  ca_accel ca_min_threshold ca_saturation ca_last_update_ms ca_freshness_max_ms
  by unfold_locales (auto simp: ca_normalized_def ca_direction_def ca_is_fresh_def not_le)

interpretation obi_velocity: tracker ov_normalized ov_direction ov_is_fresh ov_initialized
  ov_delta_ema ov_min_threshold ov_saturation ov_last_update_ms ov_freshness_max_ms
  by unfold_locales (auto simp: ov_normalized_def ov_direction_def ov_is_fresh_def)

interpretation basis_delta: tracker bx_normalized bx_direction bx_is_fresh bx_initialized
  bx_delta_ema bx_min_threshold bx_saturation bx_last_update_ms bx_freshness_max_ms
  by unfold_locales (auto simp: bx_normalized_def bx_direction_def bx_is_fresh_def)

interpretation cvd_level: tracker cl_normalized cl_direction cl_is_fresh "\<lambda>t. 10 \<le> cl_samples t"
  cl_ema "\<lambda>t. Fin 0" cl_saturation cl_last_update_ms cl_freshness_max_ms
  by unfold_locales (auto simp: cl_normalized_def cl_direction_def cl_is_fresh_def not_le)

interpretation obi_level: tracker ol_normalized ol_direction ol_is_fresh ol_initialized
  ol_ema "\<lambda>t. Fin 0" ol_saturation ol_last_update_ms ol_freshness_max_ms
  by unfold_locales (auto simp: ol_normalized_def ol_direction_def ol_is_fresh_def)

interpretation basis_level: tracker bl_normalized bl_direction bl_is_fresh bl_initialized
  bl_ema "\<lambda>t. Fin 0" bl_saturation bl_last_update_ms bl_freshness_max_ms
  by unfold_locales (auto simp: bl_normalized_def bl_direction_def bl_is_fresh_def)

interpretation spot_cvd: tracker sc_normalized sc_direction sc_is_fresh "\<lambda>t. 10 \<le> sc_samples t"
  sc_accel "\<lambda>t. Fin 0" sc_saturation sc_last_update_ms sc_freshness_max_ms
  by unfold_locales (auto simp: sc_normalized_def sc_direction_def sc_is_fresh_def not_le)

interpretation liquidation: tracker lq_normalized lq_direction lq_is_fresh "\<lambda>t. lq_samples t \<noteq> 0"
  lq_net "\<lambda>t. Fin 0" lq_saturation lq_last_update_ms lq_freshness_max_ms
  by unfold_locales (auto simp: lq_normalized_def lq_direction_def lq_is_fresh_def)

section \<open>The window of the last log-returns\<close>

text \<open>
  The interface of a bounded window: pushing never fails on a well-formed state and the window
  is the last \<open>limit\<close> elements of everything pushed.
\<close>

locale bounded_window =
  fixes ok :: "'s \<Rightarrow> bool" and view :: "'s \<Rightarrow> 'a list" and limit :: "'s \<Rightarrow> nat"
    and push :: "'a \<Rightarrow> 's \<Rightarrow> 's outcome"
  assumes push_good: "ok t \<Longrightarrow> \<exists>t'. push x t = Good t' \<and> ok t' \<and> limit t' = limit t
      \<and> view t' = last_n (limit t) (view t @ [x])"
    and view_bounded: "ok t \<Longrightarrow> length (view t) \<le> limit t"
begin

lemma push_all: "ok t \<Longrightarrow> \<exists>t'. orun push xs t = Good t' \<and> ok t' \<and> limit t' = limit t
    \<and> view t' = last_n (limit t) (view t @ xs)"
proof (induction xs arbitrary: t)
  case Nil
  then show ?case by (simp add: view_bounded)
next
  case (Cons x xs)
  obtain t1 where t1: "push x t = Good t1" "ok t1" "limit t1 = limit t"
      "view t1 = last_n (limit t) (view t @ [x])" using push_good [OF Cons.prems] by blast
  from Cons.IH [OF t1(2)] t1 show ?case by (auto simp: last_n_append)
qed

end

definition rv_ok :: "realized_vol_tracker \<Rightarrow> bool" where
  "rv_ok t \<longleftrightarrow> 0 < rv_capacity t \<and> length (rv_returns t) = rv_capacity t
     \<and> rv_head t = rv_count t mod rv_capacity t"

definition rv_window :: "realized_vol_tracker \<Rightarrow> f64 list" where
  "rv_window t = (if rv_count t < rv_capacity t then take (rv_count t) (rv_returns t)
     else drop (rv_head t) (rv_returns t) @ take (rv_head t) (rv_returns t))"

lemma rv_push_good:
  assumes ok: "rv_ok t"
  shows "\<exists>t'. rv_push x t = Good t' \<and> rv_ok t' \<and> rv_capacity t' = rv_capacity t
    \<and> rv_prev_price t' = rv_prev_price t \<and> rv_count t' = Suc (rv_count t)
    \<and> rv_window t' = last_n (rv_capacity t) (rv_window t @ [x])"
proof -
  let ?c = "rv_capacity t" and ?h = "rv_head t" and ?n = "rv_count t" and ?r = "rv_returns t"
  have c: "0 < ?c" "length ?r = ?c" "?h = ?n mod ?c" "?h < ?c" using ok by (auto simp: rv_ok_def)
  define s where "s = fadd (if ?c \<le> ?n then fsub (rv_sum_sq t) (fmul (?r ! ?h) (?r ! ?h)) else rv_sum_sq t) (fmul x x)"
  define t' where "t' = t\<lparr> rv_returns := ?r[?h := x], rv_sum_sq := s, rv_head := (?h + 1) mod ?c, rv_count := ?n + 1 \<rparr>"
  have p: "rv_push x t = Good t'" using c by (simp add: rv_push_def t'_def s_def Let_def)
  have ok': "rv_ok t'" using c by (simp add: rv_ok_def t'_def mod_Suc_eq)
  have "rv_window t' = last_n ?c (rv_window t @ [x])"
  proof (cases "?n < ?c")
    case True
    then have h: "?h = ?n" using c by simp
    have upd: "take (Suc ?n) (?r[?n := x]) = take ?n ?r @ [x]"
      using True c by (simp add: take_Suc_conv_app_nth)
    show ?thesis
    proof (cases "Suc ?n = ?c")
      case False
      with True h upd c show ?thesis by (simp add: rv_window_def t'_def)
    next
      case True
      have "?r[?n := x] = take ?n ?r @ [x]" using upd True c by simp
      with True h c show ?thesis by (simp add: rv_window_def t'_def)
    qed
  next
    case False
    have l: "length (drop ?h ?r @ take ?h ?r) = ?c" using c by simp
    have d: "drop ?h ?r = ?r ! ?h # drop (Suc ?h) ?r" using c by (simp add: Cons_nth_drop_Suc)
    have u: "?r[?h := x] = take ?h ?r @ x # drop (Suc ?h) ?r" using c by (simp add: upd_conv_take_nth_drop)
    have rhs: "last_n ?c (rv_window t @ [x]) = drop (Suc ?h) ?r @ take ?h ?r @ [x]"
      using False l c by (simp add: rv_window_def last_n_def d)
    show ?thesis
    proof (cases "Suc ?h = ?c")
      case True
      then have "drop (Suc ?h) ?r = []" using c by simp
      with True False u rhs c show ?thesis by (simp add: rv_window_def t'_def)
    next
      case F: False
      then have "Suc ?h mod ?c = Suc ?h" using c by simp
      with F False u rhs c show ?thesis by (simp add: rv_window_def t'_def min_def)
    qed
  qed
  with p ok' show ?thesis by (intro exI [of _ t']) (simp add: t'_def)
qed

interpretation returns: bounded_window rv_ok rv_window rv_capacity rv_push
  by unfold_locales (use rv_push_good in blast, auto simp: rv_window_def rv_ok_def)

text \<open>The log-returns of a list of prices: prices that are not positive are skipped.\<close>

fun log_returns :: "'a libm_scheme \<Rightarrow> f64 \<Rightarrow> f64 list \<Rightarrow> f64 list" where
  "log_returns L prev [] = []"
| "log_returns L prev (p # ps) = (if fle p (flit 0) then log_returns L prev ps
     else (if flt (flit 0) prev then [m_ln L (fdiv p prev)] else []) @ log_returns L p ps)"

lemma rv_new_ok: "0 < cap \<Longrightarrow> rv_ok (rv_new cap w dv tps fr)"
  by (simp add: rv_ok_def rv_new_def)

lemma rv_update_window:
  assumes "rv_ok t"
  shows "\<exists>t'. rv_update L p now t = Good t' \<and> rv_ok t' \<and> rv_capacity t' = rv_capacity t
    \<and> rv_prev_price t' = (if fle p (flit 0) then rv_prev_price t else p)
    \<and> rv_window t' = last_n (rv_capacity t) (rv_window t @
        (if fle p (flit 0) \<or> \<not> flt (flit 0) (rv_prev_price t) then [] else [m_ln L (fdiv p (rv_prev_price t))]))"
proof (cases "fle p (flit 0)")
  case True
  then show ?thesis using assms returns.view_bounded [OF assms] by (simp add: rv_update_def)
next
  case False
  let ?fin = "\<lambda>t. t\<lparr> rv_prev_price := p, rv_last_update_ms := now \<rparr>"
  have keep: "rv_ok (?fin s) = rv_ok s" "rv_window (?fin s) = rv_window s" for s
    by (simp_all add: rv_ok_def rv_window_def)
  show ?thesis
  proof (cases "flt (flit 0) (rv_prev_price t)")
    case True
    obtain s where s: "rv_push (m_ln L (fdiv p (rv_prev_price t))) t = Good s" "rv_ok s"
        "rv_capacity s = rv_capacity t"
        "rv_window s = last_n (rv_capacity t) (rv_window t @ [m_ln L (fdiv p (rv_prev_price t))])"
      using rv_push_good [OF assms] by blast
    with True False keep show ?thesis by (intro exI [of _ "?fin s"]) (simp add: rv_update_def)
  next
    case F: False
    with False keep assms returns.view_bounded [OF assms] show ?thesis
      by (intro exI [of _ "?fin t"]) (simp add: rv_update_def)
  qed
qed

lemma rv_run_window:
  assumes "rv_ok t"
  shows "\<exists>t'. orun (\<lambda>(p, now). rv_update L p now) ps t = Good t' \<and> rv_ok t' \<and> rv_capacity t' = rv_capacity t
    \<and> rv_window t' = last_n (rv_capacity t) (rv_window t @ log_returns L (rv_prev_price t) (map fst ps))"
  using assms
proof (induction ps arbitrary: t)
  case Nil
  then show ?case using returns.view_bounded [OF Nil] by simp
next
  case (Cons e ps)
  obtain p now where e: "e = (p, now)" by (cases e)
  obtain s where s: "rv_update L p now t = Good s" "rv_ok s" "rv_capacity s = rv_capacity t"
      "rv_prev_price s = (if fle p (flit 0) then rv_prev_price t else p)"
      "rv_window s = last_n (rv_capacity t) (rv_window t @
        (if fle p (flit 0) \<or> \<not> flt (flit 0) (rv_prev_price t) then [] else [m_ln L (fdiv p (rv_prev_price t))]))"
    using rv_update_window [OF Cons.prems] by blast
  obtain t' where t': "orun (\<lambda>(p, now). rv_update L p now) ps s = Good t'" "rv_ok t'"
      "rv_capacity t' = rv_capacity s"
      "rv_window t' = last_n (rv_capacity s) (rv_window s @ log_returns L (rv_prev_price s) (map fst ps))"
    using Cons.IH [OF s(2)] by blast
  show ?case
    using s t' by (intro exI [of _ t']) (auto simp: e last_n_append)
qed

lemma rv_new_simps [simp]:
  "rv_capacity (rv_new c w dv tps fr) = c" "rv_prev_price (rv_new c w dv tps fr) = Fin 0"
  "rv_window (rv_new c w dv tps fr) = []"
  by (simp_all add: rv_new_def rv_window_def)

section \<open>Properties\<close>

text \<open>
  C36. The volatility tracker remembers exactly the last \<open>capacity\<close> log-returns. Started empty
  with a capacity above zero and fed any prices at any times, it never indexes outside its
  buffer, and its ring buffer, read from the oldest slot, is the tail of the list of log-returns
  between consecutive positive prices (a price that is not positive is skipped).
\<close>

theorem vol_window_last_returns:
  assumes "0 < capacity"
  shows "\<exists>t. orun (\<lambda>(p, now). rv_update L p now) ps (rv_new capacity warmup dv tps fresh) = Good t
    \<and> rv_ok t \<and> rv_window t = last_n capacity (log_returns L (flit 0) (map fst ps))"
  using rv_run_window [OF rv_new_ok [OF assms, of warmup dv tps fresh], of L ps]
  by auto

lemma vol_window_last_returns_witness:
  "\<exists>t. orun (\<lambda>(p, now). rv_update (exact_lib\<lparr> m_ln := \<lambda>x. x \<rparr>) p now)
      [(Fin 2, 1), (Fin 0, 2), (Fin 4, 3), (Fin 2, 4), (Fin 8, 5)] (rv_new 2 1 (Fin 1) (Fin 10) 100) = Good t
    \<and> rv_window t = [Fin (1 / 2), Fin 4]"
proof -
  let ?L = "exact_lib\<lparr> m_ln := \<lambda>x. x \<rparr>"
  have "last_n 2 (log_returns ?L (flit 0) (map fst [(Fin 2, 1 :: u64), (Fin 0, 2), (Fin 4, 3), (Fin 2, 4), (Fin 8, 5)]))
      = [Fin (1 / 2), Fin 4]"
    by code_simp
  then show ?thesis
    using vol_window_last_returns [where L = ?L and capacity = 2 and warmup = 1 and dv = "Fin 1"
        and tps = "Fin 10" and fresh = 100
        and ps = "[(Fin 2, 1), (Fin 0, 2), (Fin 4, 3), (Fin 2, 4), (Fin 8, 5)]"]
    by auto
qed

text \<open>
  Every reading of the eight trackers is a number between zero and one, or NaN; nothing
  outside the unit interval ever reaches the score.
\<close>

theorem readings_unit_interval:
  "list_all (\<lambda>r. r = NaN \<or> fin_in 0 1 r)
     [ca_normalized t1 now, ov_normalized t2 now, bx_normalized t3 now, cl_normalized t4 now,
      ol_normalized t5 now, bl_normalized t6 now, sc_normalized t7 now, lq_normalized t8 now]"
  using cvd_accel.unit_or_NaN [of t1 now] obi_velocity.unit_or_NaN [of t2 now]
    basis_delta.unit_or_NaN [of t3 now] cvd_level.unit_or_NaN [of t4 now]
    obi_level.unit_or_NaN [of t5 now] basis_level.unit_or_NaN [of t6 now]
    spot_cvd.unit_or_NaN [of t7 now] liquidation.unit_or_NaN [of t8 now]
  by simp

text \<open>
  A reading is a number whenever the raw value is: with a finite raw value and finite limits
  that are not negative, the acceleration, velocity and basis readings lie between zero and one
  and are never NaN, because two different \<open>f64\<close> numbers never subtract to zero.
\<close>

theorem finite_raw_finite_reading:
  assumes "list_all (\<lambda>x. f64_ok x \<and> is_fin x)
      [ca_accel a, ca_min_threshold a, ca_saturation a, ov_delta_ema v, ov_min_threshold v, ov_saturation v,
       bx_delta_ema b, bx_min_threshold b, bx_saturation b]"
    and "list_all (fle (Fin 0)) [ca_min_threshold a, ov_min_threshold v, bx_min_threshold b]"
  shows "fin_in 0 1 (ca_normalized a now) \<and> fin_in 0 1 (ov_normalized v now) \<and> fin_in 0 1 (bx_normalized b now)"
  using assms cvd_accel.unit [of a now] obi_velocity.unit [of v now] basis_delta.unit [of b now]
  by simp

lemma finite_raw_finite_reading_witness:
  "let a = (ca_new (Fin 300) (Fin 1000) 1000 (Fin 0) (Fin 2))\<lparr> ca_accel := Fin 1, ca_last_update_ms := 5, ca_samples := 12 \<rparr>
   in fin_in 0 1 (ca_normalized a 7) \<and> ca_normalized a 7 = Fin (1 / 2)"
proof -
  let ?a = "(ca_new (Fin 300) (Fin 1000) 1000 (Fin 0) (Fin 2))\<lparr> ca_accel := Fin 1, ca_last_update_ms := 5, ca_samples := 12 \<rparr>"
  let ?v = "ov_new (Fin 300) 1000 (Fin 0) (Fin 2)" and ?b = "bx_new (Fin 300) 1000 (Fin 0) (Fin 2)"
  have "rnd 2 = Fin 2" using rnd_of_int [of 2] by simp
  then have "fin_in 0 1 (ca_normalized ?a 7)"
    by (intro finite_raw_finite_reading [where v = ?v and b = ?b, THEN conjunct1])
      (simp_all add: ca_new_def ov_new_def bx_new_def)
  moreover have "ca_normalized ?a 7 = Fin (1 / 2)" by code_simp
  ultimately show ?thesis by (simp add: Let_def)
qed

text \<open>
  A silent feed goes dark and stays dark: once a tracker is stale, every later reading is
  zero until it is updated again; and a reading above zero always comes with a direction.
\<close>

theorem silent_tracker_reads_zero:
  assumes "now \<le> later"
  shows "(\<not> ca_is_fresh a now \<longrightarrow> ca_last_update_ms a \<le> now \<longrightarrow> ca_normalized a later = Fin 0)
    \<and> (\<not> lq_is_fresh l now \<longrightarrow> lq_last_update_ms l \<le> now \<longrightarrow> lq_normalized l later = Fin 0)
    \<and> (\<not> bl_is_fresh b now \<longrightarrow> bl_last_update_ms b \<le> now \<longrightarrow> bl_normalized b later = Fin 0)
    \<and> (flt (Fin 0) (lq_normalized l now) \<longrightarrow> lq_direction l \<noteq> None)
    \<and> (flt (Fin 0) (bl_normalized b now) \<longrightarrow> bl_direction b \<noteq> None)"
  using cvd_accel.stale_stays_stale [of a now later] liquidation.stale_stays_stale [of l now later]
    basis_level.stale_stays_stale [of b now later] liquidation.positive_has_direction [of l now]
    basis_level.positive_has_direction [of b now] assms
  by simp

lemma silent_tracker_reads_zero_witness:
  "let l = (lq_new (Fin 300) 1000 (Fin 2))\<lparr> lq_buy_ema := Fin 1, lq_last_update_ms := 5, lq_samples := 1 \<rparr>
   in lq_normalized l 1006 = Fin 0 \<and> lq_normalized l 1005 = Fin (1 / 2)"
proof -
  let ?l = "(lq_new (Fin 300) 1000 (Fin 2))\<lparr> lq_buy_ema := Fin 1, lq_last_update_ms := 5, lq_samples := 1 \<rparr>"
  have "\<not> lq_is_fresh ?l 1006" "lq_last_update_ms ?l \<le> 1006" by code_simp+
  with silent_tracker_reads_zero [of 1006 1006] have "lq_normalized ?l 1006 = Fin 0" by blast
  moreover have "lq_normalized ?l 1005 = Fin (1 / 2)" by code_simp
  ultimately show ?thesis by (simp add: Let_def)
qed

end
