(* ===== verification/FairValue.thy ===== *)
theory FairValue
  imports Metrics
begin

text \<open>
  The fair value estimator of \<open>src/src/engine/fair_value.rs\<close>: the probability that the price
  ends above the strike, from the log-displacement over the scaled volatility through a normal
  distribution approximation, corrected by the eight momentum signals, and the edge demanded
  around it. \<open>ln\<close>, \<open>exp\<close>, \<open>powf\<close> and \<open>sqrt\<close> are those of the argument \<open>L\<close>. Two operations
  can panic: \<open>clamp\<close> with a negative or NaN bound, and the sort of the strike buffer when it
  holds a NaN.
\<close>

section \<open>A total order on floating point values\<close>

text \<open>NaN is put last, so that the library's sorting applies; below it the order is \<open>fle\<close>.\<close>

fun f64_class :: "f64 \<Rightarrow> nat" where
  "f64_class NInf = 0"
| "f64_class (Fin x) = 1"
| "f64_class PInf = 2"
| "f64_class NaN = 3"

fun f64_value :: "f64 \<Rightarrow> rat" where
  "f64_value (Fin x) = x"
| "f64_value a = 0"

instantiation f64 :: linorder
begin

definition less_eq_f64 :: "f64 \<Rightarrow> f64 \<Rightarrow> bool" where
  "less_eq_f64 a b \<longleftrightarrow> f64_class a < f64_class b \<or> (f64_class a = f64_class b \<and> f64_value a \<le> f64_value b)"

definition less_f64 :: "f64 \<Rightarrow> f64 \<Rightarrow> bool" where
  "less_f64 a b \<longleftrightarrow> f64_class a < f64_class b \<or> (f64_class a = f64_class b \<and> f64_value a < f64_value b)"

instance
proof
  fix x y z :: f64
  show "(x < y) = (x \<le> y \<and> \<not> y \<le> x)" by (auto simp: less_eq_f64_def less_f64_def)
  show "x \<le> x" by (simp add: less_eq_f64_def)
  show "x \<le> y \<Longrightarrow> y \<le> z \<Longrightarrow> x \<le> z" by (auto simp: less_eq_f64_def)
  show "x \<le> y \<Longrightarrow> y \<le> x \<Longrightarrow> x = y" by (cases x; cases y) (auto simp: less_eq_f64_def)
  show "x \<le> y \<or> y \<le> x" by (auto simp: less_eq_f64_def)
qed

end

lemma le_f64_fle: "a \<noteq> NaN \<Longrightarrow> b \<noteq> NaN \<Longrightarrow> a \<le> b \<longleftrightarrow> fle a b"
  by (cases a; cases b) (auto simp: less_eq_f64_def)

section \<open>The normal distribution, sigmoid and logit\<close>

definition phi :: "'a libm_scheme \<Rightarrow> f64 \<Rightarrow> f64" where
  "phi L x =
     (let a1 = flit (254829592 / 10 ^ 9); a2 = flit (- 284496736 / 10 ^ 9);
          a3 = flit (1421413741 / 10 ^ 9); a4 = flit (- 1453152027 / 10 ^ 9);
          a5 = flit (1061405429 / 10 ^ 9); p = flit (3275911 / 10 ^ 7);
          sgn = (if flt x (flit 0) then flit (- 1) else flit 1);
          ax = fdiv (fabs x) (flit (141421356237309504880 / 10 ^ 20));
          t = fdiv (flit 1) (fadd (flit 1) (fmul p ax));
          poly = fadd (fmul (fadd (fmul (fadd (fmul (fadd (fmul a5 t) a4) t) a3) t) a2) t) a1;
          y = fsub (flit 1) (fmul (fmul poly t) (m_exp L (fmul (fneg ax) ax)))
      in fmul (flit (1 / 2)) (fadd (flit 1) (fmul sgn y)))"

definition sigmoid :: "'a libm_scheme \<Rightarrow> f64 \<Rightarrow> f64" where
  "sigmoid L x = fdiv (flit 1) (fadd (flit 1) (m_exp L (fneg x)))"

definition logit :: "'a libm_scheme \<Rightarrow> f64 \<Rightarrow> f64" where
  "logit L p = m_ln L (fdiv p (fsub (flit 1) p))"

section \<open>Configuration\<close>

record fair_value_config =
  fv_momentum_weight_basis :: f64
  fv_momentum_weight_cvd :: f64
  fv_momentum_weight_obi :: f64
  fv_max_momentum_adj :: f64
  fv_vol_edge_scale :: f64
  fv_time_edge_scale :: f64
  fv_baseline_vol :: f64
  fv_vol_ring_capacity :: nat
  fv_vol_session_capacity :: nat
  fv_vol_freshness_ms :: u64
  fv_vol_min_warmup :: nat
  fv_vol_default :: f64
  fv_vol_ticks_per_sec :: f64
  fv_vol_floor :: f64
  fv_tail_compression_factor :: f64
  fv_stale_data_edge_penalty :: f64
  fv_regime_spike_threshold :: f64
  fv_regime_spike_penalty :: f64
  fv_strike_warmup_count :: nat
  fv_basis_halflife_ms :: f64
  fv_basis_freshness_ms :: u64
  fv_basis_min :: f64
  fv_basis_saturation :: f64
  fv_cvd_fast_halflife_ms :: f64
  fv_cvd_slow_halflife_ms :: f64
  fv_cvd_freshness_ms :: u64
  fv_cvd_min :: f64
  fv_cvd_saturation :: f64
  fv_obi_halflife_ms :: f64
  fv_obi_freshness_ms :: u64
  fv_obi_min :: f64
  fv_obi_saturation :: f64
  fv_momentum_weight_cvd_level :: f64
  fv_momentum_weight_obi_level :: f64
  fv_momentum_weight_basis_level :: f64
  fv_momentum_weight_spot_cvd :: f64
  fv_momentum_weight_liquidation :: f64
  fv_cvd_level_halflife_ms :: f64
  fv_cvd_level_freshness_ms :: u64
  fv_cvd_level_saturation :: f64
  fv_obi_level_halflife_ms :: f64
  fv_obi_level_freshness_ms :: u64
  fv_obi_level_saturation :: f64
  fv_basis_level_halflife_ms :: f64
  fv_basis_level_freshness_ms :: u64
  fv_basis_level_saturation :: f64
  fv_spot_cvd_fast_halflife_ms :: f64
  fv_spot_cvd_slow_halflife_ms :: f64
  fv_spot_cvd_freshness_ms :: u64
  fv_spot_cvd_saturation :: f64
  fv_liquidation_halflife_ms :: f64
  fv_liquidation_freshness_ms :: u64
  fv_liquidation_saturation :: f64
  fv_use_logit_momentum :: bool
  fv_momentum_time_decay :: bool

definition fair_value_default :: fair_value_config where
  "fair_value_default = \<lparr> fv_momentum_weight_basis = flit (1 / 10), fv_momentum_weight_cvd = flit (5 / 100),
     fv_momentum_weight_obi = flit (5 / 100), fv_max_momentum_adj = flit (8 / 100),
     fv_vol_edge_scale = flit (5 / 10), fv_time_edge_scale = flit (2 / 100),
     fv_baseline_vol = flit (3 / 100000), fv_vol_ring_capacity = 600,
     fv_vol_session_capacity = 6000, fv_vol_freshness_ms = 500, fv_vol_min_warmup = 10,
     fv_vol_default = flit (3 / 100000), fv_vol_ticks_per_sec = flit 20,
     fv_vol_floor = flit (2 / 100000), fv_tail_compression_factor = flit (45 / 100),
     fv_stale_data_edge_penalty = flit (1 / 100), fv_regime_spike_threshold = flit 2,
     fv_regime_spike_penalty = flit (1 / 100), fv_strike_warmup_count = 5,
     fv_basis_halflife_ms = flit 250, fv_basis_freshness_ms = 150, fv_basis_min = flit 0,
     fv_basis_saturation = flit (5 / 100), fv_cvd_fast_halflife_ms = flit 200,
     fv_cvd_slow_halflife_ms = flit 500, fv_cvd_freshness_ms = 150, fv_cvd_min = flit 0,
     fv_cvd_saturation = flit (6 / 10), fv_obi_halflife_ms = flit 250,
     fv_obi_freshness_ms = 120, fv_obi_min = flit 0, fv_obi_saturation = flit (2 / 10),
     fv_momentum_weight_cvd_level = flit (4 / 100),
     fv_momentum_weight_obi_level = flit (3 / 100),
     fv_momentum_weight_basis_level = flit (5 / 100),
     fv_momentum_weight_spot_cvd = flit (4 / 100),
     fv_momentum_weight_liquidation = flit (3 / 100), fv_cvd_level_halflife_ms = flit 3000,
     fv_cvd_level_freshness_ms = 500, fv_cvd_level_saturation = flit 5,
     fv_obi_level_halflife_ms = flit 1500, fv_obi_level_freshness_ms = 300,
     fv_obi_level_saturation = flit (3 / 10), fv_basis_level_halflife_ms = flit 2000,
     fv_basis_level_freshness_ms = 500, fv_basis_level_saturation = flit 3,
     fv_spot_cvd_fast_halflife_ms = flit 300, fv_spot_cvd_slow_halflife_ms = flit 800,
     fv_spot_cvd_freshness_ms = 300, fv_spot_cvd_saturation = flit (6 / 10),
     fv_liquidation_halflife_ms = flit 1000, fv_liquidation_freshness_ms = 3000,
     fv_liquidation_saturation = flit 10, fv_use_logit_momentum = True,
     fv_momentum_time_decay = True \<rparr>"

section \<open>State\<close>

record fair_value_estimator =
  fe_config :: fair_value_config
  fe_strike_price :: f64
  fe_current_btc :: f64
  fe_yes_fair_value :: f64
  fe_no_fair_value :: f64
  fe_edge :: f64
  fe_last_update_ms :: u64
  fe_last_momentum :: f64
  fe_vol :: realized_vol_tracker
  fe_session_vol :: realized_vol_tracker
  fe_basis :: basis_delta_tracker
  fe_cvd :: cvd_accel_tracker
  fe_obi :: obi_velocity_tracker
  fe_cvd_level :: cvd_level_tracker
  fe_obi_level :: obi_level_tracker
  fe_basis_level :: basis_level_tracker
  fe_spot_cvd :: spot_cvd_tracker
  fe_liquidation :: liquidation_tracker
  fe_strike_warmup_buffer :: "f64 list"

definition fe_new :: "fair_value_config \<Rightarrow> fair_value_estimator" where
  "fe_new c = \<lparr> fe_config = c, fe_strike_price = flit 0, fe_current_btc = flit 0,
     fe_yes_fair_value = flit (1 / 2), fe_no_fair_value = flit (1 / 2), fe_edge = flit (5 / 100),
     fe_last_update_ms = 0, fe_last_momentum = flit 0,
     fe_vol = rv_new (fv_vol_ring_capacity c) (fv_vol_min_warmup c) (fv_vol_default c)
        (fv_vol_ticks_per_sec c) (fv_vol_freshness_ms c),
     fe_session_vol = rv_new (fv_vol_session_capacity c) (fv_vol_min_warmup c) (fv_vol_default c)
        (fv_vol_ticks_per_sec c) (fv_vol_freshness_ms c),
     fe_basis = bx_new (fv_basis_halflife_ms c) (fv_basis_freshness_ms c) (fv_basis_min c)
        (fv_basis_saturation c),
     fe_cvd = ca_new (fv_cvd_fast_halflife_ms c) (fv_cvd_slow_halflife_ms c)
        (fv_cvd_freshness_ms c) (fv_cvd_min c) (fv_cvd_saturation c),
     fe_obi = ov_new (fv_obi_halflife_ms c) (fv_obi_freshness_ms c) (fv_obi_min c) (fv_obi_saturation c),
     fe_cvd_level = cl_new (fv_cvd_level_halflife_ms c) (fv_cvd_level_freshness_ms c)
        (fv_cvd_level_saturation c),
     fe_obi_level = ol_new (fv_obi_level_halflife_ms c) (fv_obi_level_freshness_ms c)
        (fv_obi_level_saturation c),
     fe_basis_level = bl_new (fv_basis_level_halflife_ms c) (fv_basis_level_freshness_ms c)
        (fv_basis_level_saturation c),
     fe_spot_cvd = sc_new (fv_spot_cvd_fast_halflife_ms c) (fv_spot_cvd_slow_halflife_ms c)
        (fv_spot_cvd_freshness_ms c) (fv_spot_cvd_saturation c),
     fe_liquidation = lq_new (fv_liquidation_halflife_ms c) (fv_liquidation_freshness_ms c)
        (fv_liquidation_saturation c),
     fe_strike_warmup_buffer = [] \<rparr>"

section \<open>Updates\<close>

text \<open>
  The sort panics when a comparison meets a NaN; a buffer of one element is not compared.
\<close>

definition try_set_strike :: "f64 \<Rightarrow> fair_value_estimator \<Rightarrow> (bool \<times> fair_value_estimator) outcome" where
  "try_set_strike price e =
     (if flt (flit 0) (fe_strike_price e) then Good (True, e)
      else let buf = fe_strike_warmup_buffer e @ [price] in
        if fv_strike_warmup_count (fe_config e) \<le> length buf then
          (if 2 \<le> length buf \<and> NaN \<in> set buf then Panic
           else let sorted = sort buf; mid = length sorted div 2
             in Good (True, e\<lparr> fe_strike_warmup_buffer := sorted, fe_strike_price := sorted ! mid \<rparr>))
        else Good (False, e\<lparr> fe_strike_warmup_buffer := buf \<rparr>))"

definition fe_update_btc_price :: "f64 \<Rightarrow> u64 \<Rightarrow> fair_value_estimator \<Rightarrow> fair_value_estimator" where
  "fe_update_btc_price price now_ms e = e\<lparr> fe_current_btc := price, fe_last_update_ms := now_ms \<rparr>"

definition fe_update_vol :: "'a libm_scheme \<Rightarrow> f64 \<Rightarrow> u64 \<Rightarrow> fair_value_estimator
    \<Rightarrow> fair_value_estimator outcome" where
  "fe_update_vol L price now_ms e =
     obind (rv_update L price now_ms (fe_vol e)) (\<lambda>v.
     obind (rv_update L price now_ms (fe_session_vol e)) (\<lambda>s.
     Good (e\<lparr> fe_vol := v, fe_session_vol := s \<rparr>)))"

definition fe_update_spot_mid :: "'a libm_scheme \<Rightarrow> f64 \<Rightarrow> u64 \<Rightarrow> fair_value_estimator
    \<Rightarrow> fair_value_estimator" where
  "fe_update_spot_mid L mid now_ms e =
     e\<lparr> fe_basis := bx_update_spot_mid L mid now_ms (fe_basis e),
        fe_basis_level := bl_update_spot_mid L mid now_ms (fe_basis_level e) \<rparr>"

definition fe_update_futures_mid :: "'a libm_scheme \<Rightarrow> f64 \<Rightarrow> f64 \<Rightarrow> u64 \<Rightarrow> fair_value_estimator
    \<Rightarrow> fair_value_estimator" where
  "fe_update_futures_mid L bid ask now_ms e =
     e\<lparr> fe_basis := bx_update_futures_mid L bid ask now_ms (fe_basis e),
        fe_basis_level := bl_update_futures_mid L bid ask now_ms (fe_basis_level e) \<rparr>"

definition fe_update_spot_cvd :: "'a libm_scheme \<Rightarrow> f64 \<Rightarrow> bool \<Rightarrow> u64 \<Rightarrow> fair_value_estimator
    \<Rightarrow> fair_value_estimator" where
  "fe_update_spot_cvd L quantity is_buyer_maker now_ms e =
     e\<lparr> fe_spot_cvd := sc_update L quantity is_buyer_maker now_ms (fe_spot_cvd e) \<rparr>"

definition fe_update_liquidation :: "'a libm_scheme \<Rightarrow> string \<Rightarrow> f64 \<Rightarrow> u64 \<Rightarrow> fair_value_estimator
    \<Rightarrow> fair_value_estimator" where
  "fe_update_liquidation L sd quantity now_ms e =
     e\<lparr> fe_liquidation := lq_update L sd quantity now_ms (fe_liquidation e) \<rparr>"

definition fe_update_cvd :: "'a libm_scheme \<Rightarrow> f64 \<Rightarrow> bool \<Rightarrow> u64 \<Rightarrow> fair_value_estimator
    \<Rightarrow> fair_value_estimator" where
  "fe_update_cvd L quantity is_buyer_maker now_ms e =
     e\<lparr> fe_cvd := ca_update L quantity is_buyer_maker now_ms (fe_cvd e),
        fe_cvd_level := cl_update L quantity is_buyer_maker now_ms (fe_cvd_level e) \<rparr>"

definition fe_update_obi :: "'a libm_scheme \<Rightarrow> f64 \<Rightarrow> u64 \<Rightarrow> fair_value_estimator
    \<Rightarrow> fair_value_estimator" where
  "fe_update_obi L obi now_ms e =
     e\<lparr> fe_obi := ov_update L obi now_ms (fe_obi e),
        fe_obi_level := ol_update L obi now_ms (fe_obi_level e) \<rparr>"

definition fe_is_stale :: "u64 \<Rightarrow> fair_value_estimator \<Rightarrow> bool" where
  "fe_is_stale now_ms e \<longleftrightarrow> \<not> rv_is_fresh (fe_vol e) now_ms"

section \<open>Recomputation\<close>

definition dir_sign :: "direction option \<Rightarrow> f64" where
  "dir_sign d = (case d of Some Up \<Rightarrow> flit 1 | Some Down \<Rightarrow> flit (- 1) | None \<Rightarrow> flit 0)"

definition time_remaining_s :: "u64 \<Rightarrow> u64 \<Rightarrow> f64" where
  "time_remaining_s market_end_ms now_ms =
     fdiv (f_of_u64 (saturating_sub market_end_ms now_ms)) (flit 1000)"

definition time_fraction :: "u64 \<Rightarrow> u64 \<Rightarrow> f64" where
  "time_fraction market_end_ms now_ms =
     fclamp (fdiv (time_remaining_s market_end_ms now_ms) (flit 300)) (flit 0) (flit 1)"

definition base_fair_value :: "'a libm_scheme \<Rightarrow> u64 \<Rightarrow> u64 \<Rightarrow> fair_value_estimator \<Rightarrow> f64" where
  "base_fair_value L market_end_ms now_ms e =
     (let displacement = m_ln L (fdiv (fe_current_btc e) (fe_strike_price e));
          sigma_remaining = fmax (rv_scaled_vol L (time_remaining_s market_end_ms now_ms)
             (fv_vol_floor (fe_config e)) (fe_vol e)) (flit (1 / 10000));
          d = fdiv displacement sigma_remaining;
          d_adjusted = fmul d (fv_tail_compression_factor (fe_config e))
      in phi L d_adjusted)"

definition raw_momentum :: "u64 \<Rightarrow> fair_value_estimator \<Rightarrow> f64" where
  "raw_momentum now_ms e =
     (let c = fe_config e;
          basis_signed = fmul (bx_normalized (fe_basis e) now_ms) (dir_sign (bx_direction (fe_basis e)));
          cvd_signed = fmul (ca_normalized (fe_cvd e) now_ms) (dir_sign (ca_direction (fe_cvd e)));
          obi_signed = fmul (ov_normalized (fe_obi e) now_ms) (dir_sign (ov_direction (fe_obi e)));
          cvd_level_signed = fmul (cl_normalized (fe_cvd_level e) now_ms) (dir_sign (cl_direction (fe_cvd_level e)));
          obi_level_signed = fmul (ol_normalized (fe_obi_level e) now_ms) (dir_sign (ol_direction (fe_obi_level e)));
          basis_level_signed = fmul (bl_normalized (fe_basis_level e) now_ms) (dir_sign (bl_direction (fe_basis_level e)));
          spot_cvd_signed = fmul (sc_normalized (fe_spot_cvd e) now_ms) (dir_sign (sc_direction (fe_spot_cvd e)));
          liq_signed = fmul (lq_normalized (fe_liquidation e) now_ms) (dir_sign (lq_direction (fe_liquidation e)))
      in foldl fadd (fmul (fv_momentum_weight_basis c) basis_signed)
           [fmul (fv_momentum_weight_cvd c) cvd_signed,
            fmul (fv_momentum_weight_obi c) obi_signed,
            fmul (fv_momentum_weight_cvd_level c) cvd_level_signed,
            fmul (fv_momentum_weight_obi_level c) obi_level_signed,
            fmul (fv_momentum_weight_basis_level c) basis_level_signed,
            fmul (fv_momentum_weight_spot_cvd c) spot_cvd_signed,
            fmul (fv_momentum_weight_liquidation c) liq_signed])"

definition count_true :: "bool list \<Rightarrow> nat" where
  "count_true bs = length (filter id bs)"

definition stale_count :: "u64 \<Rightarrow> fair_value_estimator \<Rightarrow> nat" where
  "stale_count now_ms e = count_true
     [\<not> bx_is_fresh (fe_basis e) now_ms, \<not> ca_is_fresh (fe_cvd e) now_ms,
      \<not> ov_is_fresh (fe_obi e) now_ms, \<not> cl_is_fresh (fe_cvd_level e) now_ms,
      \<not> ol_is_fresh (fe_obi_level e) now_ms, \<not> bl_is_fresh (fe_basis_level e) now_ms,
      \<not> sc_is_fresh (fe_spot_cvd e) now_ms]"

definition edge_of :: "'a libm_scheme \<Rightarrow> u64 \<Rightarrow> f64 \<Rightarrow> u64 \<Rightarrow> fair_value_estimator \<Rightarrow> f64" where
  "edge_of L market_end_ms min_edge now_ms e =
     (let c = fe_config e;
          realized = rv_realized_vol L (fe_vol e);
          vol_normalized = fmin (fdiv realized (fv_baseline_vol c)) (flit 2);
          time_factor = m_sqrt L (time_fraction market_end_ms now_ms);
          edge1 = fadd (fadd min_edge (fmul (fv_vol_edge_scale c) vol_normalized))
                    (fmul (fv_time_edge_scale c) time_factor);
          short_vol = rv_realized_vol L (fe_vol e);
          session_vol = rv_realized_vol L (fe_session_vol e);
          edge2 = (if flt (flit 0) session_vol
                      \<and> flt (fv_regime_spike_threshold c) (fdiv short_vol session_vol)
                   then fadd edge1 (fv_regime_spike_penalty c) else edge1)
      in fadd edge2 (fmul (f_of_nat (stale_count now_ms e)) (fv_stale_data_edge_penalty c)))"

definition fe_recompute :: "'a libm_scheme \<Rightarrow> u64 \<Rightarrow> f64 \<Rightarrow> u64 \<Rightarrow> fair_value_estimator
    \<Rightarrow> fair_value_estimator outcome" where
  "fe_recompute L market_end_ms min_edge now_ms e =
     (if fle (fe_strike_price e) (flit 0) \<or> fle (fe_current_btc e) (flit 0) then Good e
      else let c = fe_config e;
               base_fv = base_fair_value L market_end_ms now_ms e;
               momentum_time_factor = (if fv_momentum_time_decay c then time_fraction market_end_ms now_ms
                                       else flit 1);
               momentum = fmul (raw_momentum now_ms e) momentum_time_factor
        in if \<not> clamp_ok (fneg (fv_max_momentum_adj c)) (fv_max_momentum_adj c) then Panic
        else let momentum_clamped = fclamp momentum (fneg (fv_max_momentum_adj c)) (fv_max_momentum_adj c);
               yes = (if fv_use_logit_momentum c then
                  (let base_clamped = fclamp base_fv (flit (2 / 100)) (flit (98 / 100));
                       logit_adj = fadd (logit L base_clamped) momentum_clamped
                   in fclamp (sigmoid L logit_adj) (flit (2 / 100)) (flit (98 / 100)))
                  else fclamp (fadd base_fv momentum_clamped) (flit (2 / 100)) (flit (98 / 100)))
        in Good (e\<lparr> fe_last_momentum := momentum_clamped, fe_yes_fair_value := yes,
                    fe_no_fair_value := fsub (flit 1) yes,
                    fe_edge := edge_of L market_end_ms min_edge now_ms e,
                    fe_last_update_ms := now_ms \<rparr>))"

section \<open>Accessors\<close>

definition yes_fair_value :: "'a lib_scheme \<Rightarrow> fair_value_estimator \<Rightarrow> dec" where
  "yes_fair_value L e = unwrap_or (d_of_f64 L (fe_yes_fair_value e)) (dnew 50 2)"

definition no_fair_value :: "'a lib_scheme \<Rightarrow> fair_value_estimator \<Rightarrow> dec" where
  "no_fair_value L e = unwrap_or (d_of_f64 L (fe_no_fair_value e)) (dnew 50 2)"

definition yes_target_price :: "'a lib_scheme \<Rightarrow> dec \<Rightarrow> fair_value_estimator \<Rightarrow> dec" where
  "yes_target_price L edge e = max (yes_fair_value L e - edge) (dnew 1 2)"

definition no_target_price :: "'a lib_scheme \<Rightarrow> dec \<Rightarrow> fair_value_estimator \<Rightarrow> dec" where
  "no_target_price L edge e = max (no_fair_value L e - edge) (dnew 1 2)"

definition fv_edge :: "'a lib_scheme \<Rightarrow> fair_value_estimator \<Rightarrow> dec" where
  "fv_edge L e = unwrap_or (d_of_f64 L (fe_edge e)) (dnew 5 2)"

definition strike_price :: "'a lib_scheme \<Rightarrow> fair_value_estimator \<Rightarrow> dec" where
  "strike_price L e = unwrap_or (d_of_f64 L (fe_strike_price e)) 0"

definition fe_is_warm :: "fair_value_estimator \<Rightarrow> bool" where
  "fe_is_warm e \<longleftrightarrow> flt (flit 0) (fe_strike_price e) \<and> flt (flit 0) (fe_current_btc e)"

definition fe_is_vol_warm :: "fair_value_estimator \<Rightarrow> bool" where
  "fe_is_vol_warm e \<longleftrightarrow> rv_is_warm (fe_vol e)"

definition fe_reset :: "fair_value_config \<Rightarrow> fair_value_estimator \<Rightarrow> fair_value_estimator" where
  "fe_reset c e = fe_new c"

definition cvd_signal :: "u64 \<Rightarrow> fair_value_estimator \<Rightarrow> f64 \<times> direction option" where
  "cvd_signal now_ms e = (ca_normalized (fe_cvd e) now_ms, ca_direction (fe_cvd e))"

definition obi_signal :: "u64 \<Rightarrow> fair_value_estimator \<Rightarrow> f64 \<times> direction option" where
  "obi_signal now_ms e = (ov_normalized (fe_obi e) now_ms, ov_direction (fe_obi e))"

definition basis_signal :: "u64 \<Rightarrow> fair_value_estimator \<Rightarrow> f64 \<times> direction option" where
  "basis_signal now_ms e = (bx_normalized (fe_basis e) now_ms, bx_direction (fe_basis e))"

section \<open>Rounding below one\<close>

lemma rhe_close: "\<bar>of_int (rhe y) - y\<bar> \<le> (1 / 2 :: rat)"
  by (rule rhe_dist)

lemma rmag_error:
  assumes "0 < x" shows "\<bar>rmag x - x\<bar> \<le> pow2 (uexp x) / 2"
proof -
  let ?u = "pow2 (uexp x)"
  have nz: "?u \<noteq> 0" by (simp add: pow2_def)
  have "\<bar>of_int (rhe (x / ?u)) - x / ?u\<bar> * ?u \<le> 1 / 2 * ?u"
    by (rule mult_right_mono [OF rhe_close]) (simp add: less_imp_le)
  moreover have "\<bar>of_int (rhe (x / ?u)) - x / ?u\<bar> * ?u = \<bar>rmag x - x\<bar>"
    using nz by (simp add: rmag_def abs_mult_pos left_diff_distrib less_imp_le)
  ultimately show ?thesis by simp
qed

lemma rval_error_unit:
  assumes "0 \<le> x" "x \<le> 1" shows "\<bar>rval x - x\<bar> \<le> 1 / 2 ^ 52"
proof (cases "x = 0")
  case False
  with assms have pos: "0 < x" by simp
  have "bexp x < 1" by (rule bexp_le [OF pos]) (use assms in simp)
  then have u: "uexp x \<le> - 52" by (simp add: uexp_def)
  have "pow2 (uexp x) \<le> pow2 (- 52)" unfolding pow2_def powi2_le_iff by (rule u)
  also have "pow2 (- 52) = 1 / 2 ^ 52" by (subst pow2_code) simp
  finally have "pow2 (uexp x) \<le> 1 / 2 ^ 52" .
  moreover have "0 \<le> (1 :: rat) / 2 ^ 52" by simp
  moreover have "\<bar>rval x - x\<bar> \<le> pow2 (uexp x) / 2"
    using rmag_error [OF pos] pos by (simp only: rval_def) simp
  ultimately show ?thesis by linarith
qed simp

lemma fsub_one:
  assumes "0 \<le> v" "v \<le> 1"
  shows "\<exists>w. fsub (Fin 1) (Fin v) = Fin w \<and> 0 \<le> w \<and> w \<le> 1 \<and> \<bar>w + v - 1\<bar> \<le> 1 / 2 ^ 52"
proof -
  obtain w where w: "rnd (1 - v) = Fin w" "0 \<le> w" "w \<le> 1"
    using rnd_between [of 0 1 "1 - v"] assms by auto
  then have "w = rval (1 - v)" by (simp add: rnd_Fin_iff)
  then have "\<bar>w - (1 - v)\<bar> \<le> 1 / 2 ^ 52" using rval_error_unit [of "1 - v"] assms by simp
  moreover have "w - (1 - v) = w + v - 1" by simp
  ultimately have "\<bar>w + v - 1\<bar> \<le> 1 / 2 ^ 52" by metis
  with w show ?thesis by (simp add: fsub_def)
qed

lemma flit_fin_in:
  assumes "0 \<le> x" "x \<le> 1"
  shows "\<exists>v. flit x = Fin v \<and> \<bar>v - x\<bar> \<le> 1 / 2 ^ 52 \<and> 0 \<le> v \<and> v \<le> 1"
proof -
  obtain v where v: "rnd x = Fin v" "0 \<le> v" "v \<le> 1" using rnd_between [of 0 1 x] assms by auto
  then have "v = rval x" by (simp add: rnd_Fin_iff)
  with v rval_error_unit [OF assms] show ?thesis by (simp add: flit_def)
qed

section \<open>Recomputation\<close>

lemma yes_value_range:
  "\<exists>lo hi. flit (2 / 100) = Fin lo \<and> flit (98 / 100) = Fin hi
     \<and> \<bar>lo - 2 / 100\<bar> \<le> 1 / 2 ^ 52 \<and> \<bar>hi - 98 / 100\<bar> \<le> 1 / 2 ^ 52 \<and> 0 \<le> lo \<and> lo \<le> hi \<and> hi \<le> 1"
proof -
  obtain lo where lo: "flit (2 / 100) = Fin lo" "\<bar>lo - 2 / 100\<bar> \<le> 1 / 2 ^ 52" "0 \<le> lo"
    using flit_fin_in [of "2 / 100"] by auto
  obtain hi where hi: "flit (98 / 100) = Fin hi" "\<bar>hi - 98 / 100\<bar> \<le> 1 / 2 ^ 52" "hi \<le> 1"
    using flit_fin_in [of "98 / 100"] by auto
  have "(1::rat) / 2 ^ 52 \<le> 1 / 100" by (simp add: divide_le_eq)
  then have "lo \<le> hi" using lo(2) hi(2) by linarith
  with lo hi show ?thesis by blast
qed

lemma fe_recompute_yes:
  assumes "fe_recompute L market_end min_edge now e = Good e'" and "fe_is_warm e"
  shows "fe_no_fair_value e' = fsub (Fin 1) (fe_yes_fair_value e')
    \<and> (\<exists>x. fe_yes_fair_value e' = fclamp x (flit (2 / 100)) (flit (98 / 100)))"
proof -
  have w: "\<not> fle (fe_strike_price e) (Fin 0)" "\<not> fle (fe_current_btc e) (Fin 0)"
    using assms(2) by (cases "fe_strike_price e"; cases "fe_current_btc e"; simp add: fe_is_warm_def)+
  from assms(1) w show ?thesis
    by (auto simp: fe_recompute_def Let_def split: if_splits)
qed

text \<open>The conversion to decimal of a number of at most one keeps about 15 digits.\<close>

definition of_f64_near_law :: "'a lib_scheme \<Rightarrow> bool" where
  "of_f64_near_law L \<longleftrightarrow> (\<forall>v. 0 \<le> v \<longrightarrow> v \<le> 1 \<longrightarrow>
     (\<exists>d. d_of_f64 L (Fin v) = Some d \<and> \<bar>d - v\<bar> \<le> 1 / 10 ^ 15))"

lemma exact_lib_near [simp]: "of_f64_near_law exact_lib"
  by (simp add: of_f64_near_law_def)

section \<open>Properties\<close>

text \<open>
  C27. The fair values the engine quotes from are a coherent pair of probabilities. After every
  recomputation on a warm estimator, whatever the elementary functions return (NaN included),
  the decimal fair value of YES lies in [0.02, 0.98], that of NO too, and the two add up to one,
  all up to 1e-14; a NaN in the model yields 0.50 for both.
\<close>

theorem fair_values_coherent:
  assumes "of_f64_law L" and "of_f64_near_law L"
    and "fe_recompute L market_end min_edge now e = Good e'" and "fe_is_warm e"
  shows "2 / 100 - 1 / 10 ^ 14 \<le> yes_fair_value L e' \<and> yes_fair_value L e' \<le> 98 / 100 + 1 / 10 ^ 14
    \<and> 2 / 100 - 1 / 10 ^ 14 \<le> no_fair_value L e' \<and> no_fair_value L e' \<le> 98 / 100 + 1 / 10 ^ 14
    \<and> \<bar>yes_fair_value L e' + no_fair_value L e' - 1\<bar> \<le> 1 / 10 ^ 14
    \<and> (fe_yes_fair_value e' = NaN \<longrightarrow> yes_fair_value L e' = 1 / 2 \<and> no_fair_value L e' = 1 / 2)"
proof -
  obtain x where no: "fe_no_fair_value e' = fsub (Fin 1) (fe_yes_fair_value e')"
    and yes: "fe_yes_fair_value e' = fclamp x (flit (2 / 100)) (flit (98 / 100))"
    using fe_recompute_yes [OF assms(3,4)] by blast
  obtain lo hi where lh: "flit (2 / 100) = Fin lo" "flit (98 / 100) = Fin hi" "0 \<le> lo" "lo \<le> hi" "hi \<le> 1"
      "\<bar>lo - 2 / 100\<bar> \<le> 1 / 2 ^ 52" "\<bar>hi - 98 / 100\<bar> \<le> 1 / 2 ^ 52"
    using yes_value_range by blast
  show ?thesis
  proof (cases "x = NaN")
    case True
    with yes have "fe_yes_fair_value e' = NaN" by simp
    moreover from this have "fe_no_fair_value e' = NaN" using no by (simp add: fsub_def)
    ultimately show ?thesis using assms(1)
      by (simp add: yes_fair_value_def no_fair_value_def of_f64_law_def dnew_def)
  next
    case False
    obtain v where v: "fe_yes_fair_value e' = Fin v" "lo \<le> v" "v \<le> hi"
      using fin_in_clamp [OF lh(4) False] yes lh by (auto simp: fin_in_iff)
    obtain w where w: "fsub (Fin 1) (Fin v) = Fin w" "0 \<le> w" "w \<le> 1" "\<bar>w + v - 1\<bar> \<le> 1 / 2 ^ 52"
      using fsub_one [of v] v lh by auto
    obtain dv where dv: "d_of_f64 L (Fin v) = Some dv" "\<bar>dv - v\<bar> \<le> 1 / 10 ^ 15"
      using assms(2) v lh unfolding of_f64_near_law_def by (meson order_trans)
    obtain dw where dw: "d_of_f64 L (Fin w) = Some dw" "\<bar>dw - w\<bar> \<le> 1 / 10 ^ 15"
      using assms(2) w unfolding of_f64_near_law_def by blast
    have y: "yes_fair_value L e' = dv" "no_fair_value L e' = dw"
      using v no w dv dw by (simp_all add: yes_fair_value_def no_fair_value_def)
    define r where "r = (1 :: rat) / 10 ^ 16"
    have r: "0 \<le> r" "1 / 10 ^ 14 = 100 * r" "1 / 10 ^ 15 = 10 * r" "1 / 2 ^ 52 \<le> 3 * r"
      by (simp_all add: r_def divide_le_eq)
    have near: "\<bar>dv - v\<bar> \<le> 10 * r" "\<bar>dw - w\<bar> \<le> 10 * r" "\<bar>w + v - 1\<bar> \<le> 3 * r"
      "\<bar>lo - 2 / 100\<bar> \<le> 3 * r" "\<bar>hi - 98 / 100\<bar> \<le> 3 * r"
      using dv(2) dw(2) r(3) order_trans [OF w(4) r(4)] order_trans [OF lh(6) r(4)]
        order_trans [OF lh(7) r(4)] by simp_all
    have "2 / 100 - 100 * r \<le> dv" "dv \<le> 98 / 100 + 100 * r"
      "2 / 100 - 100 * r \<le> dw" "dw \<le> 98 / 100 + 100 * r"
      "\<bar>dv + dw - 1\<bar> \<le> 100 * r"
      using r(1) v(2,3) near [THEN abs_le_D1] near [THEN abs_le_D2]
      by (intro abs_leI; linarith | linarith)+
    then show ?thesis unfolding y v(1) r(2) by simp
  qed
qed

lemma fair_values_coherent_witness:
  "let e = fe_update_btc_price (Fin 100) 5 ((fe_new fair_value_default)\<lparr> fe_strike_price := Fin 90 \<rparr>) in
    \<exists>e'. fe_recompute exact_lib 300000 (Fin 0) 5 e = Good e'
      \<and> \<bar>yes_fair_value exact_lib e' + no_fair_value exact_lib e' - 1\<bar> \<le> 1 / 10 ^ 14"
proof -
  let ?e = "fe_update_btc_price (Fin 100) 5 ((fe_new fair_value_default)\<lparr> fe_strike_price := Fin 90 \<rparr>)"
  have c: "fe_config ?e = fair_value_default" "fe_strike_price ?e = Fin 90" "fe_current_btc ?e = Fin 100"
    by (simp_all add: fe_update_btc_price_def fe_new_def)
  have "clamp_ok (fneg (flit (8 / 100))) (flit (8 / 100))" by code_simp
  moreover have "fv_max_momentum_adj fair_value_default = flit (8 / 100)" by (simp add: fair_value_default_def)
  ultimately have "clamp_ok (fneg (fv_max_momentum_adj fair_value_default)) (fv_max_momentum_adj fair_value_default)"
    by metis
  then obtain e' where e': "fe_recompute exact_lib 300000 (Fin 0) 5 ?e = Good e'"
    using c by (simp add: fe_recompute_def Let_def)
  have "fe_is_warm ?e" using c by (simp add: fe_is_warm_def)
  from fair_values_coherent [OF _ _ e' this] e' show ?thesis by (auto simp: Let_def)
qed

text \<open>
  When recomputation can fail. It panics exactly when the estimator is warm and the
  configured momentum bound is negative or NaN (the assertion of \<open>clamp\<close>); on a cold estimator
  it changes nothing; and it never touches the strike, the price, the trackers or the
  configuration.
\<close>

theorem recompute_panic_iff:
  "(fe_recompute L market_end min_edge now e = Panic \<longleftrightarrow>
      \<not> fle (fe_strike_price e) (Fin 0) \<and> \<not> fle (fe_current_btc e) (Fin 0)
      \<and> \<not> fle (Fin 0) (fv_max_momentum_adj (fe_config e)))
   \<and> (case fe_recompute L market_end min_edge now e of
        Good e' \<Rightarrow> fe_strike_price e' = fe_strike_price e \<and> fe_current_btc e' = fe_current_btc e
          \<and> fe_vol e' = fe_vol e \<and> fe_session_vol e' = fe_session_vol e \<and> fe_basis e' = fe_basis e
          \<and> fe_cvd e' = fe_cvd e \<and> fe_obi e' = fe_obi e \<and> fe_config e' = fe_config e
          \<and> (e' = e \<or> fe_last_update_ms e' = now)
      | Err msg \<Rightarrow> False
      | Panic \<Rightarrow> True)"
proof -
  have "fle (fneg m) m \<longleftrightarrow> fle (Fin 0) m" for m by (cases m) auto
  then show ?thesis by (auto simp: fe_recompute_def clamp_ok_def Let_def)
qed

section \<open>The strike\<close>

lemma sorted_median:
  fixes xs :: "'a::linorder list"
  assumes "sorted xs" and "m < length xs"
  shows "length (filter (\<lambda>x. x < xs ! m) xs) \<le> m" and "length (filter (\<lambda>x. xs ! m < x) xs) \<le> length xs - Suc m"
proof -
  have "{i. i < length xs \<and> xs ! i < xs ! m} \<subseteq> {..<m}"
    using assms by (auto simp: not_less [symmetric] dest: sorted_nth_mono)
  from card_mono [OF _ this] show "length (filter (\<lambda>x. x < xs ! m) xs) \<le> m"
    by (simp add: length_filter_conv_card)
  have "xs ! i \<le> xs ! m" if "i \<le> m" for i using assms that by (simp add: sorted_nth_mono)
  then have "{i. i < length xs \<and> xs ! m < xs ! i} \<subseteq> {Suc m..<length xs}"
    by (auto simp: Suc_le_eq not_less [symmetric])
  from card_mono [OF _ this] show "length (filter (\<lambda>x. xs ! m < x) xs) \<le> length xs - Suc m"
    by (simp add: length_filter_conv_card)
qed

text \<open>
  The strike is a median. When a price completes the warm-up, the strike becomes one of the
  prices collected, with at most half of them below it and fewer than half above, so a single
  anomalous tick cannot become the strike; and once the strike is above zero no later price
  changes it.
\<close>

theorem strike_is_median:
  assumes "try_set_strike price e = Good (True, e')" and "\<not> flt (Fin 0) (fe_strike_price e)"
  shows "let buf = fe_strike_warmup_buffer e @ [price]; s = fe_strike_price e' in
     s \<in> set buf \<and> fv_strike_warmup_count (fe_config e) \<le> length buf
     \<and> length (filter (\<lambda>x. x < s) buf) \<le> length buf div 2
     \<and> 2 * length (filter (\<lambda>x. s < x) buf) < length buf
     \<and> (flt (Fin 0) s \<longrightarrow> try_set_strike p2 e' = Good (True, e'))"
proof -
  define buf where "buf = fe_strike_warmup_buffer e @ [price]"
  define m where "m = length buf div 2"
  have "buf \<noteq> []" by (simp add: buf_def)
  then have m: "m < length (sort buf)" by (simp add: m_def)
  have e': "e' = e\<lparr> fe_strike_warmup_buffer := sort buf, fe_strike_price := sort buf ! m \<rparr>"
    and c: "fv_strike_warmup_count (fe_config e) \<le> length buf"
    using assms by (auto simp: try_set_strike_def Let_def buf_def m_def split: if_splits)
  have mem: "sort buf ! m \<in> set buf" using nth_mem [OF m] by simp
  have cnt: "length (filter P (sort buf)) = length (filter P buf)" for P
    by (metis filter_sort length_sort)
  have med: "length (filter (\<lambda>x. x < sort buf ! m) buf) \<le> m"
    "length (filter (\<lambda>x. sort buf ! m < x) buf) \<le> length buf - Suc m"
    using sorted_median [OF sorted_sort m] by (simp_all add: cnt)
  then have "2 * length (filter (\<lambda>x. sort buf ! m < x) buf) < length buf"
    using m by (simp add: m_def)
  then show ?thesis
    using mem c med(1) by (simp add: e' buf_def [symmetric] m_def [symmetric] Let_def try_set_strike_def)
qed

lemma strike_is_median_witness:
  "let e = (fe_new (fair_value_default\<lparr> fv_strike_warmup_count := 3 \<rparr>))\<lparr> fe_strike_warmup_buffer := [Fin 5, Fin 900] \<rparr>
   in \<exists>e'. try_set_strike (Fin 4) e = Good (True, e') \<and> fe_strike_price e' = Fin 5
     \<and> fe_strike_price e' \<in> set (fe_strike_warmup_buffer e @ [Fin 4])"
proof -
  let ?e = "(fe_new (fair_value_default\<lparr> fv_strike_warmup_count := 3 \<rparr>))\<lparr> fe_strike_warmup_buffer := [Fin 5, Fin 900] \<rparr>"
  have srt: "sort [Fin 5, Fin 900, Fin 4] = [Fin 4, Fin 5, Fin 900]"
    by (simp add: less_eq_f64_def)
  have e: "fe_strike_price ?e = Fin 0" "fe_strike_warmup_buffer ?e = [Fin 5, Fin 900]"
      "fv_strike_warmup_count (fe_config ?e) = 3"
    by (simp_all add: fe_new_def)
  define e' where "e' = ?e\<lparr> fe_strike_warmup_buffer := [Fin 4, Fin 5, Fin 900], fe_strike_price := Fin 5 \<rparr>"
  have t: "try_set_strike (Fin 4) ?e = Good (True, e')"
    unfolding try_set_strike_def e e'_def by (simp add: srt del: sort_key_simps)
  from strike_is_median [OF t] e(1) have "fe_strike_price e' \<in> set (fe_strike_warmup_buffer ?e @ [Fin 4])"
    by (simp only: Let_def) simp
  with t show ?thesis unfolding Let_def by (intro exI [of _ e']) (simp add: e'_def)
qed

end
