(* ===== verification/Position.thy ===== *)
theory Position
  imports MarketTypes "HOL-Library.Multiset"
begin

text \<open>
  The bilateral position of \<open>src/src/engine/position.rs\<close>: shares, cost, rebates and fees per
  side of the binary market, and the figures derived from them (average price, paired and
  unpaired shares, locked profit, exposure). The interface \<open>fill_ledger\<close> states what the
  totals promise to the rest of the program: each total is the sum of the contributions of the
  fills recorded since the last reset, whatever their order.
\<close>

section \<open>One side\<close>

definition side_label :: "market_side \<Rightarrow> string" where
  "side_label sd = (case sd of Yes \<Rightarrow> ''YES'' | No \<Rightarrow> ''NO'')"

record side_position =
  total_shares :: dec
  total_cost :: dec
  total_rebate :: dec
  total_taker_fee :: dec
  fill_count :: u32

definition side_new :: side_position where
  "side_new = \<lparr> total_shares = 0, total_cost = 0, total_rebate = 0, total_taker_fee = 0,
     fill_count = 0 \<rparr>"

definition avg_price :: "'a lib_scheme \<Rightarrow> side_position \<Rightarrow> dec" where
  "avg_price L s = (if total_shares s = 0 then 0 else d_div L (total_cost s) (total_shares s))"

definition side_record_fill :: "dec \<Rightarrow> dec \<Rightarrow> bool \<Rightarrow> dec \<Rightarrow> side_position \<Rightarrow> side_position" where
  "side_record_fill price sz was_taker fee s =
     (let s1 = s\<lparr> total_shares := total_shares s + sz,
                  total_cost := total_cost s + price * sz \<rparr>;
          s2 = (if was_taker then s1\<lparr> total_taker_fee := total_taker_fee s1 + fee \<rparr>
                else s1\<lparr> total_rebate := total_rebate s1 + \<bar>fee\<bar> \<rparr>)
      in s2\<lparr> fill_count := fill_count s2 + 1 \<rparr>)"

definition side_reset :: "side_position \<Rightarrow> side_position" where
  "side_reset s = s\<lparr> total_shares := 0, total_cost := 0, total_rebate := 0,
     total_taker_fee := 0, fill_count := 0 \<rparr>"

section \<open>Both sides\<close>

record bilateral_position =
  yes_pos :: side_position
  no_pos :: side_position

definition position_new :: bilateral_position where
  "position_new = \<lparr> yes_pos = side_new, no_pos = side_new \<rparr>"

text \<open>\<open>side_mut\<close> gives mutable access to one side: the update is the function argument.\<close>

definition side_mut :: "market_side \<Rightarrow> (side_position \<Rightarrow> side_position) \<Rightarrow> bilateral_position
    \<Rightarrow> bilateral_position" where
  "side_mut sd f p = (case sd of Yes \<Rightarrow> p\<lparr> yes_pos := f (yes_pos p) \<rparr>
     | No \<Rightarrow> p\<lparr> no_pos := f (no_pos p) \<rparr>)"

definition record_fill :: "market_side \<Rightarrow> dec \<Rightarrow> dec \<Rightarrow> bool \<Rightarrow> dec \<Rightarrow> bilateral_position
    \<Rightarrow> bilateral_position" where
  "record_fill sd price sz was_taker fee p =
     side_mut sd (side_record_fill price sz was_taker fee) p"

definition paired_shares :: "bilateral_position \<Rightarrow> dec" where
  "paired_shares p = min (total_shares (yes_pos p)) (total_shares (no_pos p))"

definition avg_pair_cost :: "'a lib_scheme \<Rightarrow> bilateral_position \<Rightarrow> dec" where
  "avg_pair_cost L p = avg_price L (yes_pos p) + avg_price L (no_pos p)"

definition locked_profit :: "'a lib_scheme \<Rightarrow> bilateral_position \<Rightarrow> dec" where
  "locked_profit L p = (let paired = paired_shares p in
     if paired = 0 then 0 else (1 - avg_pair_cost L p) * paired)"

definition unpaired_yes :: "bilateral_position \<Rightarrow> dec" where
  "unpaired_yes p = total_shares (yes_pos p) - paired_shares p"

definition unpaired_no :: "bilateral_position \<Rightarrow> dec" where
  "unpaired_no p = total_shares (no_pos p) - paired_shares p"

definition unpaired :: "market_side \<Rightarrow> bilateral_position \<Rightarrow> dec" where
  "unpaired sd p = (case sd of Yes \<Rightarrow> unpaired_yes p | No \<Rightarrow> unpaired_no p)"

definition unpaired_usdc :: "'a lib_scheme \<Rightarrow> bilateral_position \<Rightarrow> dec" where
  "unpaired_usdc L p = (let up_yes = unpaired_yes p; up_no = unpaired_no p in
     if up_no < up_yes then up_yes * avg_price L (yes_pos p)
     else up_no * avg_price L (no_pos p))"

definition total_capital_deployed :: "bilateral_position \<Rightarrow> dec" where
  "total_capital_deployed p = total_cost (yes_pos p) + total_cost (no_pos p)"

definition total_taker_fees :: "bilateral_position \<Rightarrow> dec" where
  "total_taker_fees p = total_taker_fee (yes_pos p) + total_taker_fee (no_pos p)"

definition total_fills :: "bilateral_position \<Rightarrow> u32" where
  "total_fills p = fill_count (yes_pos p) + fill_count (no_pos p)"

definition position_reset :: "bilateral_position \<Rightarrow> bilateral_position" where
  "position_reset p = p\<lparr> yes_pos := side_reset (yes_pos p), no_pos := side_reset (no_pos p) \<rparr>"

definition opposite :: "market_side \<Rightarrow> market_side" where
  "opposite sd = (case sd of Yes \<Rightarrow> No | No \<Rightarrow> Yes)"

lemma opposite_simps [simp]: "opposite Yes = No" "opposite No = Yes" "opposite (opposite sd) = sd"
  by (auto simp: opposite_def split: market_side.splits)

section \<open>Sequences of fills\<close>

text \<open>The arguments of one call of \<open>record_fill\<close>, and a run of calls from a fresh position.\<close>

record fill =
  fl_side :: market_side
  fl_price :: dec
  fl_size :: dec
  fl_taker :: bool
  fl_fee :: dec

definition apply_fill :: "fill \<Rightarrow> bilateral_position \<Rightarrow> bilateral_position" where
  "apply_fill f p = record_fill (fl_side f) (fl_price f) (fl_size f) (fl_taker f) (fl_fee f) p"

definition position_of :: "fill list \<Rightarrow> bilateral_position" where
  "position_of fs = foldl (\<lambda>p f. apply_fill f p) position_new fs"

definition pos_side :: "market_side \<Rightarrow> bilateral_position \<Rightarrow> side_position" where
  "pos_side sd p = (case sd of Yes \<Rightarrow> yes_pos p | No \<Rightarrow> no_pos p)"

text \<open>A fill as the exchange reports it: a positive price and a size that is not negative.\<close>

definition fill_ok :: "fill \<Rightarrow> bool" where
  "fill_ok f \<longleftrightarrow> 0 \<le> fl_price f \<and> 0 \<le> fl_size f"

lemmas position_defs = apply_fill_def record_fill_def side_mut_def side_record_fill_def pos_side_def

lemma pos_side_simps [simp]: "pos_side Yes p = yes_pos p" "pos_side No p = no_pos p"
  by (simp_all add: pos_side_def)

lemma pos_side_new [simp]: "pos_side sd position_new = side_new"
  by (simp add: pos_side_def position_new_def split: market_side.splits)

lemma sides_new [simp]: "yes_pos position_new = side_new" "no_pos position_new = side_new"
  by (simp_all add: position_new_def)

lemma side_new_simps [simp]:
  "total_shares side_new = 0" "total_cost side_new = 0" "total_rebate side_new = 0"
  "total_taker_fee side_new = 0" "fill_count side_new = 0"
  by (simp_all add: side_new_def)

lemma pos_side_apply_fill [simp]:
  "total_shares (pos_side sd (apply_fill f p)) =
     total_shares (pos_side sd p) + (if fl_side f = sd then fl_size f else 0)"
  "total_cost (pos_side sd (apply_fill f p)) =
     total_cost (pos_side sd p) + (if fl_side f = sd then fl_price f * fl_size f else 0)"
  "total_taker_fee (pos_side sd (apply_fill f p)) =
     total_taker_fee (pos_side sd p) + (if fl_side f = sd \<and> fl_taker f then fl_fee f else 0)"
  "total_rebate (pos_side sd (apply_fill f p)) =
     total_rebate (pos_side sd p) + (if fl_side f = sd \<and> \<not> fl_taker f then \<bar>fl_fee f\<bar> else 0)"
  "fill_count (pos_side sd (apply_fill f p)) =
     fill_count (pos_side sd p) + (if fl_side f = sd then 1 else 0)"
  by (cases sd; cases "fl_side f"; simp add: position_defs Let_def)+

lemmas sides_apply_fill [simp] =
  pos_side_apply_fill [where sd = Yes, simplified] pos_side_apply_fill [where sd = No, simplified]

section \<open>The ledger interface\<close>

text \<open>
  What a client may assume of a running total: it starts at zero and every recorded event adds
  its contribution. Then the total after a run is the sum, in any order of the events, and it
  never falls when no event contributes less than zero.
\<close>

locale fill_ledger =
  fixes init :: 's and app :: "'e \<Rightarrow> 's \<Rightarrow> 's" and total :: "'s \<Rightarrow> rat" and amount :: "'e \<Rightarrow> rat"
  assumes total_init: "total init = 0"
    and total_app: "total (app e s) = total s + amount e"
begin

lemma total_run: "total (foldl (\<lambda>s e. app e s) s es) = total s + sum_list (map amount es)"
  by (induction es arbitrary: s) (auto simp: total_app)

lemma total_fresh: "total (foldl (\<lambda>s e. app e s) init es) = sum_list (map amount es)"
  by (simp add: total_run total_init)

lemma order_irrelevant:
  assumes "mset es = mset es'"
  shows "total (foldl (\<lambda>s e. app e s) init es) = total (foldl (\<lambda>s e. app e s) init es')"
proof -
  have "sum_mset (image_mset amount (mset es)) = sum_mset (image_mset amount (mset es'))"
    using assms by simp
  then show ?thesis by (simp add: total_fresh sum_mset_sum_list [symmetric])
qed

lemma monotone:
  assumes "\<And>e. e \<in> set es \<Longrightarrow> 0 \<le> amount e"
  shows "total s \<le> total (foldl (\<lambda>s e. app e s) s es)"
  using sum_list_nonneg_rat [of es amount] assms by (simp add: total_run)

end

interpretation shares: fill_ledger position_new apply_fill "\<lambda>p. total_shares (pos_side sd p)"
  "\<lambda>f. if fl_side f = sd then fl_size f else 0"
  for sd
  by unfold_locales simp_all

interpretation cost: fill_ledger position_new apply_fill "\<lambda>p. total_cost (pos_side sd p)"
  "\<lambda>f. if fl_side f = sd then fl_price f * fl_size f else 0"
  for sd
  by unfold_locales simp_all

interpretation fees: fill_ledger position_new apply_fill "\<lambda>p. total_taker_fee (pos_side sd p)"
  "\<lambda>f. if fl_side f = sd \<and> fl_taker f then fl_fee f else 0"
  for sd
  by unfold_locales simp_all

interpretation rebates: fill_ledger position_new apply_fill "\<lambda>p. total_rebate (pos_side sd p)"
  "\<lambda>f. if fl_side f = sd \<and> \<not> fl_taker f then \<bar>fl_fee f\<bar> else 0"
  for sd
  by unfold_locales simp_all

section \<open>Invariant and derived figures\<close>

definition side_ok :: "side_position \<Rightarrow> bool" where
  "side_ok s \<longleftrightarrow> 0 \<le> total_shares s \<and> 0 \<le> total_cost s \<and> (total_shares s = 0 \<longrightarrow> total_cost s = 0)"

definition position_ok :: "bilateral_position \<Rightarrow> bool" where
  "position_ok p \<longleftrightarrow> side_ok (yes_pos p) \<and> side_ok (no_pos p)"

lemma side_ok_new [simp]: "side_ok side_new"
  by (simp add: side_ok_def)

lemma position_ok_new [simp]: "position_ok position_new"
  by (simp add: position_ok_def position_new_def)

lemma side_record_fill_ok:
  "side_ok s \<Longrightarrow> 0 \<le> price \<Longrightarrow> 0 \<le> sz \<Longrightarrow> side_ok (side_record_fill price sz tk fee s)"
  by (auto simp: side_ok_def side_record_fill_def Let_def add_nonneg_eq_0_iff)

lemma record_fill_ok:
  "position_ok p \<Longrightarrow> 0 \<le> price \<Longrightarrow> 0 \<le> sz \<Longrightarrow> position_ok (record_fill sd price sz tk fee p)"
  by (auto simp: position_ok_def record_fill_def side_mut_def side_record_fill_ok split: market_side.splits)

lemma position_reset_ok [simp]: "position_ok (position_reset p)"
  by (simp add: position_ok_def position_reset_def side_reset_def side_ok_def)

lemma position_of_ok: "list_all fill_ok fs \<Longrightarrow> position_ok (position_of fs)"
  unfolding position_of_def
  by (rule foldl_invariant) (auto simp: apply_fill_def fill_ok_def list_all_iff intro: record_fill_ok)

lemma avg_price_times_shares:
  assumes "div_law L" and "side_ok s"
  shows "\<bar>total_shares s * avg_price L s - total_cost s\<bar> \<le> dec_eps * max (total_shares s) (total_cost s)"
proof (cases "total_shares s = 0")
  case True
  with assms(2) show ?thesis by (simp add: side_ok_def avg_price_def)
next
  case False
  let ?n = "total_shares s" and ?c = "total_cost s"
  have n: "0 < ?n" and c: "0 \<le> ?c" using False assms(2) by (auto simp: side_ok_def)
  have "\<bar>avg_price L s - ?c / ?n\<bar> \<le> dec_eps * max 1 (?c / ?n)"
    using div_lawD [OF assms(1) c n] n by (simp add: avg_price_def)
  then have "?n * \<bar>avg_price L s - ?c / ?n\<bar> \<le> ?n * (dec_eps * max 1 (?c / ?n))"
    using n by (intro mult_left_mono) auto
  moreover have "?n * \<bar>avg_price L s - ?c / ?n\<bar> = \<bar>?n * avg_price L s - ?c\<bar>"
    using n by (simp add: abs_mult_pos' right_diff_distrib)
  moreover have "?n * (dec_eps * max 1 (?c / ?n)) = dec_eps * max ?n ?c"
    using n c dec_eps_pos
    by (auto simp: max_def field_simps)
  ultimately show ?thesis by simp
qed

lemma paired_cases:
  obtains "paired_shares p = total_shares (yes_pos p)" "total_shares (yes_pos p) \<le> total_shares (no_pos p)"
  | "paired_shares p = total_shares (no_pos p)" "total_shares (no_pos p) < total_shares (yes_pos p)"
  by (cases "total_shares (yes_pos p) \<le> total_shares (no_pos p)") (auto simp: paired_shares_def)

text \<open>The figure behind both reports: shares valued at the averages of the two sides.\<close>

lemma locked_minus_unpaired:
  assumes "position_ok p"
  shows "locked_profit L p - unpaired_usdc L p = paired_shares p
    - total_shares (yes_pos p) * avg_price L (yes_pos p)
    - total_shares (no_pos p) * avg_price L (no_pos p)"
proof -
  have z: "total_shares s = 0 \<Longrightarrow> avg_price L s = 0" for s by (simp add: avg_price_def)
  show ?thesis
    by (rule paired_cases [of p])
      (auto simp: locked_profit_def unpaired_usdc_def unpaired_yes_def unpaired_no_def Let_def
        avg_pair_cost_def algebra_simps z)
qed

section \<open>Properties\<close>

text \<open>
  C16. After any run of fills with prices and sizes that are not negative, the two figures the
  program reports add up to the guaranteed result of the market: the locked profit less the
  exposure of the unpaired shares is what the position pays at settlement in the worse of the
  two outcomes (one dollar per share of the winning side) less the capital deployed, up to the
  rounding of the two average prices in the 28th digit.
\<close>

theorem worst_case_settlement:
  assumes "div_law L" and "list_all fill_ok fs"
  shows "let p = position_of fs; y = yes_pos p; n = no_pos p in
    \<bar>(locked_profit L p - unpaired_usdc L p)
       - (min (total_shares y) (total_shares n) - total_capital_deployed p)\<bar>
     \<le> dec_eps * (max (total_shares y) (total_cost y) + max (total_shares n) (total_cost n))"
proof -
  let ?p = "position_of fs"
  have ok: "position_ok ?p" by (rule position_of_ok [OF assms(2)])
  then have "side_ok (yes_pos ?p)" "side_ok (no_pos ?p)" by (simp_all add: position_ok_def)
  from this [THEN avg_price_times_shares [OF assms(1)]] show ?thesis
    unfolding Let_def locked_minus_unpaired [OF ok]
    unfolding paired_shares_def total_capital_deployed_def distrib_left by linarith
qed

lemma worst_case_settlement_witness:
  "let p = position_of [\<lparr> fl_side = Yes, fl_price = 45 / 100, fl_size = 20, fl_taker = False, fl_fee = 0 \<rparr>,
       \<lparr> fl_side = No, fl_price = 50 / 100, fl_size = 15, fl_taker = True, fl_fee = 1 / 10 \<rparr>];
     y = yes_pos p; n = no_pos p in
    \<bar>(locked_profit exact_lib p - unpaired_usdc exact_lib p)
       - (min (total_shares y) (total_shares n) - total_capital_deployed p)\<bar>
     \<le> dec_eps * (max (total_shares y) (total_cost y) + max (total_shares n) (total_cost n))"
  by (rule worst_case_settlement [OF exact_lib_laws(1)]) (simp add: fill_ok_def)

text \<open>
  The average price of a side stays between the lowest and the highest price it was filled
  at, up to the rounding of one division.
\<close>

theorem avg_price_between:
  assumes "div_law L" and "\<And>f. f \<in> set fs \<Longrightarrow> fl_side f = sd \<Longrightarrow> 0 \<le> lo \<and> lo \<le> fl_price f \<and> fl_price f \<le> hi \<and> hi \<le> 1 \<and> 0 \<le> fl_size f"
    and "0 < total_shares (pos_side sd (position_of fs))"
  shows "lo - dec_eps \<le> avg_price L (pos_side sd (position_of fs))
    \<and> avg_price L (pos_side sd (position_of fs)) \<le> hi + dec_eps"
proof -
  let ?s = "pos_side sd (position_of fs)"
  let ?amt = "\<lambda>f. if fl_side f = sd then fl_size f else 0"
  let ?cst = "\<lambda>f. if fl_side f = sd then fl_price f * fl_size f else 0"
  have n: "total_shares ?s = sum_list (map ?amt fs)" and c: "total_cost ?s = sum_list (map ?cst fs)"
    unfolding position_of_def by (rule shares.total_fresh, rule cost.total_fresh)
  have "sum_list (map (\<lambda>f. lo * ?amt f) fs) \<le> sum_list (map ?cst fs)"
    "sum_list (map ?cst fs) \<le> sum_list (map (\<lambda>f. hi * ?amt f) fs)"
    using assms(2) by (auto intro!: sum_list_mono mult_right_mono)
  then have b: "lo * total_shares ?s \<le> total_cost ?s" "total_cost ?s \<le> hi * total_shares ?s"
    by (simp_all add: n c sum_list_const_mult)
  have "\<exists>f \<in> set fs. fl_side f = sd"
  proof (rule ccontr)
    assume "\<not> ?thesis"
    then have "map ?amt fs = map (\<lambda>_. 0) fs" by auto
    then have "sum_list (map ?amt fs) = 0" by (simp add: sum_list_0 del: map_eq_conv)
    with assms(3) n show False by simp
  qed
  then have lo: "0 \<le> lo" and hi: "hi \<le> 1" using assms(2) by auto
  from b assms(3) have q: "lo \<le> total_cost ?s / total_shares ?s" "total_cost ?s / total_shares ?s \<le> hi"
    by (simp_all add: pos_le_divide_eq pos_divide_le_eq)
  have "0 \<le> total_cost ?s" using b(1) mult_nonneg_nonneg [OF lo less_imp_le [OF assms(3)]] by linarith
  moreover have "max 1 (total_cost ?s / total_shares ?s) = 1" using q(2) hi by linarith
  ultimately have "\<bar>avg_price L ?s - total_cost ?s / total_shares ?s\<bar> \<le> dec_eps"
    using div_lawD [OF assms(1) _ assms(3)] assms(3) by (force simp: avg_price_def)
  with q show ?thesis by linarith
qed

lemma avg_price_between_witness:
  "let p = position_of [\<lparr> fl_side = Yes, fl_price = 45 / 100, fl_size = 20, fl_taker = False, fl_fee = 0 \<rparr>,
       \<lparr> fl_side = Yes, fl_price = 50 / 100, fl_size = 15, fl_taker = True, fl_fee = 1 / 10 \<rparr>]
   in 45 / 100 - dec_eps \<le> avg_price exact_lib (pos_side Yes p)
     \<and> avg_price exact_lib (pos_side Yes p) \<le> 1 / 2 + dec_eps"
  unfolding Let_def
  by (rule avg_price_between) (auto simp: position_of_def)

text \<open>
  The order in which fills arrive does not matter: two runs of the same fills leave the same
  shares, cost, fees and rebates on each side.
\<close>

theorem fill_order_irrelevant:
  assumes "mset fs = mset gs"
  shows "total_shares (pos_side sd (position_of fs)) = total_shares (pos_side sd (position_of gs))
    \<and> total_cost (pos_side sd (position_of fs)) = total_cost (pos_side sd (position_of gs))
    \<and> total_taker_fee (pos_side sd (position_of fs)) = total_taker_fee (pos_side sd (position_of gs))
    \<and> total_rebate (pos_side sd (position_of fs)) = total_rebate (pos_side sd (position_of gs))"
  unfolding position_of_def
  by (intro conjI shares.order_irrelevant [OF assms] cost.order_irrelevant [OF assms]
      fees.order_irrelevant [OF assms] rebates.order_irrelevant [OF assms])

lemma fill_order_irrelevant_witness:
  "let a = \<lparr> fl_side = Yes, fl_price = 45 / 100, fl_size = 20, fl_taker = False, fl_fee = 0 \<rparr>;
       b = \<lparr> fl_side = Yes, fl_price = 50 / 100, fl_size = 15, fl_taker = True, fl_fee = 1 / 10 \<rparr>
   in total_cost (pos_side Yes (position_of [a, b])) = total_cost (pos_side Yes (position_of [b, a]))"
  unfolding Let_def
  by (rule fill_order_irrelevant [THEN conjunct2, THEN conjunct1]) simp

end
