(* ===== verification/Quoter.thy ===== *)
theory Quoter
  imports Position
begin

text \<open>
  The quoter of \<open>src/src/engine/quoter.rs\<close>: at most one resting maker order per side, the
  decision to post, cancel or hold, the halving order sizes, and the bookkeeping that keeps a
  fill reported twice (by the user channel and by a cancel result) from being counted twice.
\<close>

section \<open>Configuration and orders\<close>

record managed_order =
  mo_order_id :: string
  mo_price :: dec
  mo_size :: dec
  mo_posted_ms :: u64
  mo_fair_value_at_post :: dec
  mo_ask_at_post :: dec
  mo_size_filled :: dec

datatype quote_action =
    QPost market_side string dec dec
  | QCancel market_side string

record quoting_config =
  qc_min_edge :: f64
  qc_requote_threshold :: f64
  qc_max_order_size :: dec
  qc_min_order_size :: dec
  qc_max_fair_value_extremity :: f64
  qc_max_batches :: u32

definition quoting_default :: quoting_config where
  "quoting_default = \<lparr> qc_min_edge = flit (4 / 100), qc_requote_threshold = flit (1 / 100),
     qc_max_order_size = dnew 100 0, qc_min_order_size = dnew 5 0,
     qc_max_fair_value_extremity = flit (85 / 100), qc_max_batches = 3 \<rparr>"

record risk_config =
  rk_max_unpaired_shares :: dec
  rk_rotation_quiet_ms :: u64
  rk_rebalance_threshold :: dec
  rk_rebalance_size :: dec
  rk_rebalance_max_pair_cost :: f64
  rk_stale_book_ms :: u64
  rk_heartbeat_dead_threshold :: u32
  rk_buildup_go_dark_threshold :: f64
  rk_buildup_go_live_threshold :: f64

definition risk_default :: risk_config where
  "risk_default = \<lparr> rk_max_unpaired_shares = dnew 10 0, rk_rotation_quiet_ms = 5000,
     rk_rebalance_threshold = dnew 20 0, rk_rebalance_size = dnew 10 0,
     rk_rebalance_max_pair_cost = flit (96 / 100), rk_stale_book_ms = 850,
     rk_heartbeat_dead_threshold = 5, rk_buildup_go_dark_threshold = flit (40 / 100),
     rk_buildup_go_live_threshold = flit (25 / 100) \<rparr>"

section \<open>Dynamic order sizing\<close>

text \<open>The two loops run over \<open>0..batches\<close> with the same accumulators \<open>size\<close> and total.\<close>

fun max_total_loop :: "'a lib_scheme \<Rightarrow> dec \<Rightarrow> nat \<Rightarrow> dec \<Rightarrow> dec \<Rightarrow> dec" where
  "max_total_loop L min_size 0 sz tot = tot"
| "max_total_loop L min_size (Suc k) sz tot =
     max_total_loop L min_size k (max (d_div L sz 2) min_size) (tot + sz)"

definition max_total_shares :: "'a lib_scheme \<Rightarrow> dec \<Rightarrow> dec \<Rightarrow> u32 \<Rightarrow> dec" where
  "max_total_shares L max_size min_size batches = max_total_loop L min_size (unat batches) max_size 0"

fun order_size_loop :: "'a lib_scheme \<Rightarrow> dec \<Rightarrow> dec \<Rightarrow> nat \<Rightarrow> dec \<Rightarrow> dec \<Rightarrow> dec" where
  "order_size_loop L min_size side_shares 0 sz threshold = min_size"
| "order_size_loop L min_size side_shares (Suc k) sz threshold =
     (let threshold' = threshold + sz in
      if side_shares < threshold' then sz
      else order_size_loop L min_size side_shares k (max (d_div L sz 2) min_size) threshold')"

definition dynamic_order_size :: "'a lib_scheme \<Rightarrow> dec \<Rightarrow> dec \<Rightarrow> dec \<Rightarrow> u32 \<Rightarrow> dec" where
  "dynamic_order_size L max_size min_size side_shares batches =
     order_size_loop L min_size side_shares (unat batches) max_size 0"

section \<open>State\<close>

record cleared_order =
  co_order_id :: string
  co_price :: dec
  co_size_filled :: dec

record quoter =
  yes_order :: "managed_order option"
  no_order :: "managed_order option"
  yes_pending_cancel :: bool
  no_pending_cancel :: bool
  yes_pending_post :: bool
  no_pending_post :: bool
  yes_last_cleared :: "cleared_order option"
  no_last_cleared :: "cleared_order option"

definition quoter_new :: quoter where
  "quoter_new = \<lparr> yes_order = None, no_order = None, yes_pending_cancel = False,
     no_pending_cancel = False, yes_pending_post = False, no_pending_post = False,
     yes_last_cleared = None, no_last_cleared = None \<rparr>"

definition q_order :: "market_side \<Rightarrow> quoter \<Rightarrow> managed_order option" where
  "q_order sd q = (case sd of Yes \<Rightarrow> yes_order q | No \<Rightarrow> no_order q)"

definition has_resting_orders :: "quoter \<Rightarrow> bool" where
  "has_resting_orders q \<longleftrightarrow> yes_order q \<noteq> None \<or> no_order q \<noteq> None"

definition is_pending :: "market_side \<Rightarrow> quoter \<Rightarrow> bool" where
  "is_pending sd q = (case sd of Yes \<Rightarrow> yes_pending_cancel q \<or> yes_pending_post q
     | No \<Rightarrow> no_pending_cancel q \<or> no_pending_post q)"

section \<open>The decision\<close>

definition quote_resting :: "'a lib_scheme \<Rightarrow> market_side \<Rightarrow> dec \<Rightarrow> dec \<Rightarrow> managed_order
    \<Rightarrow> quoting_config \<Rightarrow> quote_action option" where
  "quote_resting L sd fair_value ask_price existing quoting =
     (let fv_drift = \<bar>fair_value - mo_fair_value_at_post existing\<bar>;
          fv_drift_f64 = dec_text_f64 L fv_drift;
          ask_drop = max (mo_ask_at_post existing - ask_price) 0;
          ask_drop_f64 = dec_text_f64 L ask_drop
      in if fle (qc_requote_threshold quoting) fv_drift_f64
            \<or> fle (qc_requote_threshold quoting) ask_drop_f64
         then Some (QCancel sd (mo_order_id existing)) else None)"

definition quote_fresh :: "'a lib_scheme \<Rightarrow> market_side \<Rightarrow> dec \<Rightarrow> dec \<Rightarrow> bool \<Rightarrow> string \<Rightarrow> dec
    \<Rightarrow> quoting_config \<Rightarrow> quote_action option" where
  "quote_fresh L sd target_price ask_price is_lagging token_id sz quoting =
     (let min_edge_dec = unwrap_or (d_of_f64 L (qc_min_edge quoting)) 0 in
      if \<not> is_lagging \<and> 0 < ask_price \<and> ask_price - target_price < min_edge_dec then None
      else Some (QPost sd token_id target_price sz))"

definition evaluate_side :: "'a lib_scheme \<Rightarrow> quoter \<Rightarrow> market_side \<Rightarrow> dec \<Rightarrow> dec \<Rightarrow> dec \<Rightarrow> bool
    \<Rightarrow> string \<Rightarrow> bilateral_position \<Rightarrow> quoting_config \<Rightarrow> risk_config \<Rightarrow> quote_action option" where
  "evaluate_side L q sd target_price fair_value ask_price is_lagging token_id position quoting risk =
     (if is_pending sd q then None
      else if rk_max_unpaired_shares risk \<le> unpaired sd position then None
      else let total_cap = max_total_shares L (qc_max_order_size quoting) (qc_min_order_size quoting)
                             (qc_max_batches quoting);
               side_shares = (case sd of Yes \<Rightarrow> total_shares (yes_pos position)
                                | No \<Rightarrow> total_shares (no_pos position))
      in if total_cap \<le> side_shares then None
      else let other_avg = (case sd of Yes \<Rightarrow> avg_price L (no_pos position)
                              | No \<Rightarrow> avg_price L (yes_pos position))
      in if 0 < other_avg \<and> 1 \<le> other_avg + target_price then None
      else let dynamic_max = dynamic_order_size L (qc_max_order_size quoting)
                 (qc_min_order_size quoting) side_shares (qc_max_batches quoting)
      in if target_price \<le> 0 then None
      else let remaining = total_cap - side_shares; sz = max (min dynamic_max remaining) 0
      in if sz < qc_min_order_size quoting then None
      else if target_price * sz < dnew 1 0 then None
      else case q_order sd q of
          None \<Rightarrow> quote_fresh L sd target_price ask_price is_lagging token_id sz quoting
        | Some existing \<Rightarrow> quote_resting L sd fair_value ask_price existing quoting)"

section \<open>State updates\<close>

definition on_order_posted :: "market_side \<Rightarrow> managed_order \<Rightarrow> quoter \<Rightarrow> quoter" where
  "on_order_posted sd o1 q = (case sd of
      Yes \<Rightarrow> q\<lparr> yes_order := Some o1, yes_pending_post := False \<rparr>
    | No \<Rightarrow> q\<lparr> no_order := Some o1, no_pending_post := False \<rparr>)"

definition on_order_failed :: "market_side \<Rightarrow> quoter \<Rightarrow> quoter" where
  "on_order_failed sd q = (case sd of Yes \<Rightarrow> q\<lparr> yes_pending_post := False \<rparr>
    | No \<Rightarrow> q\<lparr> no_pending_post := False \<rparr>)"

definition on_cancel_sent :: "market_side \<Rightarrow> quoter \<Rightarrow> quoter" where
  "on_cancel_sent sd q = (case sd of Yes \<Rightarrow> q\<lparr> yes_pending_cancel := True \<rparr>
    | No \<Rightarrow> q\<lparr> no_pending_cancel := True \<rparr>)"

definition cleared_of :: "managed_order \<Rightarrow> cleared_order" where
  "cleared_of o1 = \<lparr> co_order_id = mo_order_id o1, co_price = mo_price o1,
     co_size_filled = mo_size_filled o1 \<rparr>"

definition on_cancel_result :: "market_side \<Rightarrow> quoter \<Rightarrow> quoter" where
  "on_cancel_result sd q = (case sd of
      Yes \<Rightarrow> (let q1 = (case yes_order q of Some o1 \<Rightarrow> q\<lparr> yes_last_cleared := Some (cleared_of o1) \<rparr>
                         | None \<Rightarrow> q)
        in q1\<lparr> yes_order := None, yes_pending_cancel := False \<rparr>)
    | No \<Rightarrow> (let q1 = (case no_order q of Some o1 \<Rightarrow> q\<lparr> no_last_cleared := Some (cleared_of o1) \<rparr>
                        | None \<Rightarrow> q)
        in q1\<lparr> no_order := None, no_pending_cancel := False \<rparr>))"

definition on_fill :: "market_side \<Rightarrow> bool \<Rightarrow> quoter \<Rightarrow> quoter" where
  "on_fill sd was_full q = (if was_full then (case sd of
      Yes \<Rightarrow> (let q1 = (case yes_order q of Some o1 \<Rightarrow> q\<lparr> yes_last_cleared := Some (cleared_of o1) \<rparr>
                         | None \<Rightarrow> q) in q1\<lparr> yes_order := None \<rparr>)
    | No \<Rightarrow> (let q1 = (case no_order q of Some o1 \<Rightarrow> q\<lparr> no_last_cleared := Some (cleared_of o1) \<rparr>
                        | None \<Rightarrow> q) in q1\<lparr> no_order := None \<rparr>))
    else q)"

definition record_ws_fill :: "market_side \<Rightarrow> dec \<Rightarrow> quoter \<Rightarrow> dec \<times> quoter" where
  "record_ws_fill sd cumulative_matched q =
     (case (case sd of Yes \<Rightarrow> yes_order q | No \<Rightarrow> no_order q) of
        Some o1 \<Rightarrow>
          (let delta = max (cumulative_matched - mo_size_filled o1) 0;
               o2 = o1\<lparr> mo_size_filled := max (mo_size_filled o1) cumulative_matched \<rparr>
           in (delta, (case sd of Yes \<Rightarrow> q\<lparr> yes_order := Some o2 \<rparr> | No \<Rightarrow> q\<lparr> no_order := Some o2 \<rparr>)))
      | None \<Rightarrow> (0, q))"

definition mark_post_pending :: "market_side \<Rightarrow> quoter \<Rightarrow> quoter" where
  "mark_post_pending sd q = (case sd of Yes \<Rightarrow> q\<lparr> yes_pending_post := True \<rparr>
    | No \<Rightarrow> q\<lparr> no_pending_post := True \<rparr>)"

definition cancel_all_actions :: "quoter \<Rightarrow> quote_action list" where
  "cancel_all_actions q =
     (case yes_order q of Some o1 \<Rightarrow> if \<not> yes_pending_cancel q then [QCancel Yes (mo_order_id o1)] else []
        | None \<Rightarrow> []) @
     (case no_order q of Some o1 \<Rightarrow> if \<not> no_pending_cancel q then [QCancel No (mo_order_id o1)] else []
        | None \<Rightarrow> [])"

definition cancel_side_action :: "market_side \<Rightarrow> quoter \<Rightarrow> quote_action option" where
  "cancel_side_action sd q =
     (let (ord, pending) = (case sd of Yes \<Rightarrow> (yes_order q, yes_pending_cancel q)
                              | No \<Rightarrow> (no_order q, no_pending_cancel q))
      in if pending then None else map_option (\<lambda>o1. QCancel sd (mo_order_id o1)) ord)"

definition lookup_cleared :: "market_side \<Rightarrow> string \<Rightarrow> quoter \<Rightarrow> (dec \<times> dec) option" where
  "lookup_cleared sd order_id q =
     (case (case sd of Yes \<Rightarrow> yes_last_cleared q | No \<Rightarrow> no_last_cleared q) of
        Some c \<Rightarrow> if co_order_id c = order_id then Some (co_price c, co_size_filled c) else None
      | None \<Rightarrow> None)"

definition lookup_order_for_cancel :: "market_side \<Rightarrow> string \<Rightarrow> quoter \<Rightarrow> (dec \<times> dec) option" where
  "lookup_order_for_cancel sd order_id q =
     (case q_order sd q of
        Some o1 \<Rightarrow> if mo_order_id o1 = order_id then Some (mo_price o1, mo_size_filled o1)
                  else lookup_cleared sd order_id q
      | None \<Rightarrow> lookup_cleared sd order_id q)"

definition quoter_reset :: "quoter \<Rightarrow> quoter" where
  "quoter_reset q = q\<lparr> yes_order := None, no_order := None, yes_pending_cancel := False,
     no_pending_cancel := False, yes_pending_post := False, no_pending_post := False,
     yes_last_cleared := None, no_last_cleared := None \<rparr>"

section \<open>Sizes\<close>

text \<open>The sizes both loops walk through.\<close>

fun batch_sizes :: "'a lib_scheme \<Rightarrow> dec \<Rightarrow> nat \<Rightarrow> dec \<Rightarrow> dec list" where
  "batch_sizes L min_size 0 sz = []"
| "batch_sizes L min_size (Suc k) sz = sz # batch_sizes L min_size k (max (d_div L sz 2) min_size)"

lemma length_batch_sizes [simp]: "length (batch_sizes L m k sz) = k"
  by (induction k arbitrary: sz) auto

lemma batch_sizes_ge: "x \<in> set (batch_sizes L m k sz) \<Longrightarrow> min sz m \<le> x"
proof (induction k arbitrary: sz)
  case (Suc k)
  then show ?case by (cases "x = sz") (auto dest!: Suc.IH)
qed simp

lemma max_total_loop_sum: "max_total_loop L m k sz t = t + sum_list (batch_sizes L m k sz)"
  by (induction k arbitrary: sz t) auto

lemma max_total_shares_sum: "max_total_shares L mx m b = sum_list (batch_sizes L m (unat b) mx)"
  by (simp add: max_total_shares_def max_total_loop_sum)

lemma order_size_loop_batch:
  assumes "0 < sz" and "0 < m" and "j < k"
    and "t + sum_list (take j (batch_sizes L m k sz)) \<le> s"
    and "s < t + sum_list (take (Suc j) (batch_sizes L m k sz))"
  shows "order_size_loop L m s k sz t = batch_sizes L m k sz ! j"
  using assms
proof (induction k arbitrary: sz t j)
  case (Suc k)
  let ?sz = "max (d_div L sz 2) m"
  show ?case
  proof (cases j)
    case 0
    with Suc.prems show ?thesis by simp
  next
    case (Suc i)
    have "0 \<le> x" if "x \<in> set (batch_sizes L m k ?sz)" for x
      using batch_sizes_ge [OF that] Suc.prems(2) by simp
    then have "0 \<le> sum_list (take i (batch_sizes L m k ?sz))"
      by (intro sum_list_nonneg) (auto dest: in_set_takeD)
    with Suc Suc.prems(4) have "\<not> s < t + sz" by simp
    moreover have "order_size_loop L m s k ?sz (t + sz) = batch_sizes L m k ?sz ! i"
      using Suc Suc.prems by (intro Suc.IH) auto
    ultimately show ?thesis using Suc by simp
  qed
qed simp

lemma dynamic_order_size_batch:
  assumes "0 < mx" "0 < m" "j < unat b"
    and "sum_list (take j (batch_sizes L m (unat b) mx)) \<le> s"
    and "s < sum_list (take (Suc j) (batch_sizes L m (unat b) mx))"
  shows "dynamic_order_size L mx m s b = batch_sizes L m (unat b) mx ! j"
  using order_size_loop_batch [of mx m j "unat b" 0 L s] assms by (simp add: dynamic_order_size_def)

text \<open>Filling the proposed size each time walks through the batches.\<close>

lemma fill_batches:
  assumes "0 < mx" "0 < m" "j \<le> unat b"
  shows "((\<lambda>s. s + dynamic_order_size L mx m s b) ^^ j) 0 = sum_list (take j (batch_sizes L m (unat b) mx))"
  using assms(3)
proof (induction j)
  case (Suc j)
  let ?bs = "batch_sizes L m (unat b) mx"
  have j: "j < length ?bs" using Suc.prems by simp
  have split: "sum_list (take (Suc j) ?bs) = sum_list (take j ?bs) + ?bs ! j"
    using j by (simp add: take_Suc_conv_app_nth)
  have "0 < ?bs ! j" using batch_sizes_ge [OF nth_mem [OF j]] assms(1,2) by (auto simp: min_def split: if_splits)
  then have "dynamic_order_size L mx m (sum_list (take j ?bs)) b = ?bs ! j"
    using assms(1,2) Suc.prems split by (intro dynamic_order_size_batch) auto
  with Suc split show ?case by simp
qed simp

text \<open>
  C37. The order sizes fit the cap: starting from no shares, filling the proposed size
  \<open>max_batches\<close> times in a row reaches the precalculated cap of the side exactly, and as long
  as the cap is not reached, at every share count in between, the proposed size is one of the
  batch sizes and at least the smaller of the two configured sizes, so sizing never stalls the
  side below its cap.
\<close>

theorem batches_reach_cap:
  assumes "0 < mx" and "0 < m"
  shows "((\<lambda>s. s + dynamic_order_size L mx m s b) ^^ unat b) 0 = max_total_shares L mx m b
    \<and> (\<forall>s. 0 \<le> s \<longrightarrow> s < max_total_shares L mx m b \<longrightarrow> min mx m \<le> dynamic_order_size L mx m s b)"
proof (intro conjI allI impI)
  show "((\<lambda>s. s + dynamic_order_size L mx m s b) ^^ unat b) 0 = max_total_shares L mx m b"
    using fill_batches [OF assms, of "unat b" b L] by (simp add: max_total_shares_sum)
  fix s assume s: "0 \<le> s" "s < max_total_shares L mx m b"
  let ?bs = "batch_sizes L m (unat b) mx"
  let ?P = "\<lambda>i. s < sum_list (take i ?bs)"
  define i where "i = (LEAST i. ?P i)"
  have ex: "?P (unat b)" using s by (simp add: max_total_shares_sum)
  then have i: "?P i" "i \<le> unat b" unfolding i_def by (rule LeastI, rule Least_le)
  then have "i \<noteq> 0" using s(1) by (cases i) auto
  then obtain j where j: "i = Suc j" by (cases i) auto
  have "\<not> ?P j" using not_less_Least [of j ?P] j unfolding i_def by simp
  then have "dynamic_order_size L mx m s b = ?bs ! j"
    using i j assms by (intro dynamic_order_size_batch) auto
  moreover have "?bs ! j \<in> set ?bs" using i j by (intro nth_mem) simp
  ultimately show "min mx m \<le> dynamic_order_size L mx m s b" using batch_sizes_ge by metis
qed

lemma batches_reach_cap_witness:
  "((\<lambda>s. s + dynamic_order_size exact_lib 20 5 s 3) ^^ 3) 0 = max_total_shares exact_lib 20 5 3
    \<and> max_total_shares exact_lib 20 5 3 = 35"
proof -
  have u: "unat (3 :: u32) = 3" by simp
  have "max_total_loop exact_lib 5 (Suc (Suc (Suc 0))) 20 0 = 35" by simp
  then have "max_total_shares exact_lib 20 5 3 = 35"
    unfolding max_total_shares_def u numeral_3_eq_3 .
  with batches_reach_cap [where L = exact_lib and mx = 20 and m = 5 and b = 3] show ?thesis by (simp add: u)
qed

section \<open>Posting\<close>

text \<open>
  What a posted order promises. When \<open>evaluate_side\<close> decides to post, no order rests and
  no command is in flight on that side; the price is the target price; the notional is at least
  one dollar; and if the whole order fills at its price, the side stays within its share cap,
  its unpaired shares stay below the limit plus this one order, and the price added to the
  average price of the other side stays below one dollar, so the pair cannot lock in a loss.
\<close>

theorem post_guarantee:
  assumes "evaluate_side L q sd target fv ask lagging tok p qc rk = Some (QPost sd' tok' price sz)"
  shows "sd' = sd \<and> tok' = tok \<and> price = target \<and> 0 < price \<and> qc_min_order_size qc \<le> sz
    \<and> 1 \<le> price * sz \<and> q_order sd q = None \<and> \<not> is_pending sd q
    \<and> total_shares (pos_side sd (record_fill sd price sz tk fee p))
        \<le> max_total_shares L (qc_max_order_size qc) (qc_min_order_size qc) (qc_max_batches qc)
    \<and> unpaired sd (record_fill sd price sz tk fee p) < rk_max_unpaired_shares rk + sz
    \<and> (0 < avg_price L (pos_side (opposite sd) p) \<longrightarrow> avg_price L (pos_side (opposite sd) p) + price < 1)
    \<and> (\<not> lagging \<longrightarrow> 0 < ask \<longrightarrow> unwrap_or (d_of_f64 L (qc_min_edge qc)) 0 \<le> ask - price)"
proof -
  have "0 \<le> sz"
    using assms by (auto simp: evaluate_side_def quote_fresh_def quote_resting_def Let_def
        split: if_splits option.splits)
  with assms show ?thesis
    by (cases sd) (auto simp: evaluate_side_def quote_fresh_def quote_resting_def Let_def dnew_def
        unpaired_def unpaired_yes_def unpaired_no_def paired_shares_def position_defs
        split: if_splits option.splits)
qed

lemma post_guarantee_witness:
  "let qc = quoting_default\<lparr> qc_min_edge := flit (1 / 2) \<rparr> in
    unpaired Yes (record_fill Yes (45 / 100) 100 False 0 position_new) < rk_max_unpaired_shares risk_default + 100
    \<and> total_shares (pos_side Yes (record_fill Yes (45 / 100) 100 False 0 position_new))
      \<le> max_total_shares exact_lib (qc_max_order_size qc) (qc_min_order_size qc) (qc_max_batches qc)"
proof -
  let ?qc = "quoting_default\<lparr> qc_min_edge := flit (1 / 2) \<rparr>"
  have "evaluate_side exact_lib quoter_new Yes (45 / 100) (1 / 2) (99 / 100) False ''t'' position_new
      ?qc risk_default = Some (QPost Yes ''t'' (45 / 100) 100)"
    by code_simp
  from post_guarantee [OF this, of False 0] show ?thesis by (simp add: Let_def)
qed

section \<open>Counting fills once\<close>

interpretation yes_fills: cumulative_counter "\<lambda>q. yes_order q \<noteq> None"
  "\<lambda>q. mo_size_filled (the (yes_order q))" "record_ws_fill Yes"
  by unfold_locales (auto simp: record_ws_fill_def)

interpretation no_fills: cumulative_counter "\<lambda>q. no_order q \<noteq> None"
  "\<lambda>q. mo_size_filled (the (no_order q))" "record_ws_fill No"
  by unfold_locales (auto simp: record_ws_fill_def)

lemma feed_ws_fill:
  assumes "q_order sd q = Some o1" and "feed (record_ws_fill sd) cs q = (d, q')"
  shows "d = foldl max (mo_size_filled o1) cs - mo_size_filled o1"
    and "q_order sd q' \<noteq> None \<and> mo_size_filled (the (q_order sd q')) = foldl max (mo_size_filled o1) cs"
  using assms yes_fills.feed_total [of q cs] yes_fills.feed_seen [of q cs] yes_fills.feed_live [of q cs]
    no_fills.feed_total [of q cs] no_fills.feed_seen [of q cs] no_fills.feed_live [of q cs]
  by (cases sd; force simp: q_order_def)+

lemma record_ws_fill_id:
  "q_order sd q = Some o1 \<Longrightarrow> \<exists>o2. q_order sd (snd (record_ws_fill sd c q)) = Some o2
     \<and> mo_order_id o2 = mo_order_id o1 \<and> mo_price o2 = mo_price o1"
  by (cases sd) (auto simp: record_ws_fill_def q_order_def)

lemma feed_ws_fill_id:
  "q_order sd q = Some o1 \<Longrightarrow> \<exists>o2. q_order sd (snd (feed (record_ws_fill sd) cs q)) = Some o2
     \<and> mo_order_id o2 = mo_order_id o1 \<and> mo_price o2 = mo_price o1"
proof (induction cs arbitrary: q o1)
  case (Cons c cs)
  obtain o2 where o2: "q_order sd (snd (record_ws_fill sd c q)) = Some o2"
      "mo_order_id o2 = mo_order_id o1" "mo_price o2 = mo_price o1"
    using record_ws_fill_id [OF Cons.prems] by blast
  from Cons.IH [OF o2(1)] o2(2,3) show ?case by (simp add: split_beta Let_def)
qed simp

text \<open>
  A fill is counted once. While an order with nothing filled rests, feed the user channel's
  cumulative matched sizes in any order and with any repetitions, then clear the order (full
  fill or cancel result): the increments add up to the largest size reported, and a later cancel
  result for that order id finds exactly that size, so the increment it computes against its own
  matched size is what is missing and no more.
\<close>

theorem fills_counted_once:
  assumes "q_order sd q = Some o1" and "mo_size_filled o1 = 0"
    and "feed (record_ws_fill sd) cs q = (d, q')"
  shows "d = foldl max 0 cs
    \<and> lookup_order_for_cancel sd (mo_order_id o1) q' = Some (mo_price o1, d)
    \<and> lookup_order_for_cancel sd (mo_order_id o1) (on_fill sd True q') = Some (mo_price o1, d)
    \<and> lookup_order_for_cancel sd (mo_order_id o1) (on_cancel_result sd q') = Some (mo_price o1, d)"
proof -
  obtain o2 where o2: "q_order sd q' = Some o2" "mo_order_id o2 = mo_order_id o1" "mo_price o2 = mo_price o1"
    using feed_ws_fill_id [OF assms(1), of cs] assms(3) by auto
  then have "mo_size_filled o2 = d" "d = foldl max 0 cs"
    using feed_ws_fill [OF assms(1,3)] assms(2) by simp_all
  with o2 show ?thesis
    by (cases sd) (auto simp: lookup_order_for_cancel_def lookup_cleared_def q_order_def on_fill_def
        on_cancel_result_def cleared_of_def)
qed

lemma fills_counted_once_witness:
  "let o1 = \<lparr> mo_order_id = ''a'', mo_price = 45 / 100, mo_size = 20, mo_posted_ms = 0,
        mo_fair_value_at_post = 1 / 2, mo_ask_at_post = 1 / 2, mo_size_filled = 0 \<rparr>;
      q = on_order_posted Yes o1 quoter_new
   in fst (feed (record_ws_fill Yes) [5, 5, 12, 7] q) = 12
     \<and> lookup_order_for_cancel Yes ''a'' (on_fill Yes True (snd (feed (record_ws_fill Yes) [5, 5, 12, 7] q)))
       = Some (45 / 100, 12)"
proof -
  let ?o = "\<lparr> mo_order_id = ''a'', mo_price = 45 / 100, mo_size = 20, mo_posted_ms = 0,
        mo_fair_value_at_post = 1 / 2, mo_ask_at_post = 1 / 2, mo_size_filled = 0 \<rparr>"
  let ?q = "on_order_posted Yes ?o quoter_new"
  obtain d q' where f: "feed (record_ws_fill Yes) [5, 5, 12, 7] ?q = (d, q')" by fastforce
  have "q_order Yes ?q = Some ?o" by (simp add: on_order_posted_def q_order_def)
  from fills_counted_once [OF this _ f] f show ?thesis by (simp add: Let_def)
qed

end
