(* ===== verification/Config.thy ===== *)
theory Config
  imports FairValue Quoter
begin

text \<open>
  The configuration of \<open>src/src/config.rs\<close>: the sections of \<open>config.toml\<close> with their defaults,
  the credentials and addresses read from the environment, and the conversion of the sections to
  the settings of the engine in \<open>V2StrategyEngine::new\<close> (\<open>src/src/engine/strategy.rs\<close>). The
  environment, the file and the TOML parser are arguments.
\<close>

section \<open>Sections of the file\<close>

record rotation_config =
  ro_prewarm_lead_secs :: u64

definition rotation_default :: rotation_config where
  "rotation_default = \<lparr> ro_prewarm_lead_secs = 30 \<rparr>"

record fair_value_toml =
  ft_momentum_weight_basis :: f64
  ft_momentum_weight_cvd :: f64
  ft_momentum_weight_obi :: f64
  ft_max_momentum_adj :: f64
  ft_vol_edge_scale :: f64
  ft_time_edge_scale :: f64
  ft_baseline_vol :: f64
  ft_vol_ring_capacity :: nat
  ft_vol_session_capacity :: nat
  ft_vol_freshness_ms :: u64
  ft_vol_min_warmup :: nat
  ft_vol_default :: f64
  ft_vol_ticks_per_sec :: f64
  ft_vol_floor :: f64
  ft_tail_compression_factor :: f64
  ft_stale_data_edge_penalty :: f64
  ft_regime_spike_threshold :: f64
  ft_regime_spike_penalty :: f64
  ft_strike_warmup_count :: nat
  ft_basis_halflife_ms :: f64
  ft_basis_freshness_ms :: u64
  ft_basis_min :: f64
  ft_basis_saturation :: f64
  ft_cvd_fast_halflife_ms :: f64
  ft_cvd_slow_halflife_ms :: f64
  ft_cvd_freshness_ms :: u64
  ft_cvd_min :: f64
  ft_cvd_saturation :: f64
  ft_obi_halflife_ms :: f64
  ft_obi_freshness_ms :: u64
  ft_obi_min :: f64
  ft_obi_saturation :: f64
  ft_momentum_weight_cvd_level :: f64
  ft_momentum_weight_obi_level :: f64
  ft_momentum_weight_basis_level :: f64
  ft_momentum_weight_spot_cvd :: f64
  ft_momentum_weight_liquidation :: f64
  ft_cvd_level_halflife_ms :: f64
  ft_cvd_level_freshness_ms :: u64
  ft_cvd_level_saturation :: f64
  ft_obi_level_halflife_ms :: f64
  ft_obi_level_freshness_ms :: u64
  ft_obi_level_saturation :: f64
  ft_basis_level_halflife_ms :: f64
  ft_basis_level_freshness_ms :: u64
  ft_basis_level_saturation :: f64
  ft_spot_cvd_fast_halflife_ms :: f64
  ft_spot_cvd_slow_halflife_ms :: f64
  ft_spot_cvd_freshness_ms :: u64
  ft_spot_cvd_saturation :: f64
  ft_liquidation_halflife_ms :: f64
  ft_liquidation_freshness_ms :: u64
  ft_liquidation_saturation :: f64
  ft_use_logit_momentum :: bool
  ft_momentum_time_decay :: bool

definition fair_value_toml_default :: fair_value_toml where
  "fair_value_toml_default = \<lparr> ft_momentum_weight_basis = flit (1 / 10), ft_momentum_weight_cvd = flit (5 / 100),
     ft_momentum_weight_obi = flit (5 / 100), ft_max_momentum_adj = flit (8 / 100),
     ft_vol_edge_scale = flit (5 / 10), ft_time_edge_scale = flit (2 / 100),
     ft_baseline_vol = flit (3 / 100000), ft_vol_ring_capacity = 600,
     ft_vol_session_capacity = 6000, ft_vol_freshness_ms = 500, ft_vol_min_warmup = 10,
     ft_vol_default = flit (3 / 100000), ft_vol_ticks_per_sec = flit 20,
     ft_vol_floor = flit (2 / 100000), ft_tail_compression_factor = flit (45 / 100),
     ft_stale_data_edge_penalty = flit (1 / 100), ft_regime_spike_threshold = flit 2,
     ft_regime_spike_penalty = flit (1 / 100), ft_strike_warmup_count = 5,
     ft_basis_halflife_ms = flit 250, ft_basis_freshness_ms = 150, ft_basis_min = flit 0,
     ft_basis_saturation = flit (5 / 100), ft_cvd_fast_halflife_ms = flit 200,
     ft_cvd_slow_halflife_ms = flit 500, ft_cvd_freshness_ms = 150, ft_cvd_min = flit 0,
     ft_cvd_saturation = flit (6 / 10), ft_obi_halflife_ms = flit 250,
     ft_obi_freshness_ms = 120, ft_obi_min = flit 0, ft_obi_saturation = flit (2 / 10),
     ft_momentum_weight_cvd_level = flit (4 / 100),
     ft_momentum_weight_obi_level = flit (3 / 100),
     ft_momentum_weight_basis_level = flit (5 / 100),
     ft_momentum_weight_spot_cvd = flit (4 / 100),
     ft_momentum_weight_liquidation = flit (3 / 100), ft_cvd_level_halflife_ms = flit 3000,
     ft_cvd_level_freshness_ms = 500, ft_cvd_level_saturation = flit 5,
     ft_obi_level_halflife_ms = flit 1500, ft_obi_level_freshness_ms = 300,
     ft_obi_level_saturation = flit (3 / 10), ft_basis_level_halflife_ms = flit 2000,
     ft_basis_level_freshness_ms = 500, ft_basis_level_saturation = flit 3,
     ft_spot_cvd_fast_halflife_ms = flit 300, ft_spot_cvd_slow_halflife_ms = flit 800,
     ft_spot_cvd_freshness_ms = 300, ft_spot_cvd_saturation = flit (6 / 10),
     ft_liquidation_halflife_ms = flit 1000, ft_liquidation_freshness_ms = 3000,
     ft_liquidation_saturation = flit 10, ft_use_logit_momentum = True,
     ft_momentum_time_decay = True \<rparr>"

record quoting_toml =
  qt_min_edge :: f64
  qt_requote_threshold :: f64
  qt_max_order_size :: f64
  qt_min_order_size :: f64
  qt_max_fair_value_extremity :: f64
  qt_max_batches :: u32

definition quoting_toml_default :: quoting_toml where
  "quoting_toml_default = \<lparr> qt_min_edge = flit (4 / 100), qt_requote_threshold = flit (1 / 100),
     qt_max_order_size = flit 100, qt_min_order_size = flit 5,
     qt_max_fair_value_extremity = flit (85 / 100), qt_max_batches = 3 \<rparr>"

record risk_toml =
  rt_max_unpaired_shares :: f64
  rt_rotation_quiet_ms :: u64
  rt_rebalance_threshold :: f64
  rt_rebalance_size :: f64
  rt_rebalance_max_pair_cost :: f64
  rt_stale_book_ms :: u64
  rt_heartbeat_dead_threshold :: u32
  rt_binance_stale_event_ms :: u64
  rt_buildup_go_dark_threshold :: f64
  rt_buildup_go_live_threshold :: f64

definition risk_toml_default :: risk_toml where
  "risk_toml_default = \<lparr> rt_max_unpaired_shares = flit 10, rt_rotation_quiet_ms = 5000,
     rt_rebalance_threshold = flit 20, rt_rebalance_size = flit 10,
     rt_rebalance_max_pair_cost = flit (96 / 100), rt_stale_book_ms = 850,
     rt_heartbeat_dead_threshold = 5, rt_binance_stale_event_ms = 150,
     rt_buildup_go_dark_threshold = flit (4 / 10),
     rt_buildup_go_live_threshold = flit (25 / 100) \<rparr>"

record bot_config =
  bc_rotation :: rotation_config
  bc_fair_value :: fair_value_toml
  bc_quoting :: quoting_toml
  bc_risk_v2 :: risk_toml

definition bot_default :: bot_config where
  "bot_default = \<lparr> bc_rotation = rotation_default, bc_fair_value = fair_value_toml_default,
     bc_quoting = quoting_toml_default, bc_risk_v2 = risk_toml_default \<rparr>"

section \<open>Loading\<close>

record config =
  cf_polymarket_api_key :: string
  cf_polymarket_secret :: string
  cf_polymarket_passphrase :: string
  cf_private_key :: string
  cf_questdb_url :: string
  cf_questdb_http_url :: string
  cf_binance_sbe_ws_url :: string
  cf_binance_ed25519_api_key :: string
  cf_binance_futures_ws_url :: string
  cf_telegram_bot_token :: string
  cf_telegram_chat_id :: string
  cf_telegram_allowed_user_id :: "int option"
  cf_bot :: bot_config
  cf_stale_event_threshold_ms :: u64

text \<open>
  \<open>env\<close> is the environment; \<open>file p\<close> is None when no file exists at path \<open>p\<close>, \<open>Some None\<close> when
  it cannot be read, and \<open>toml\<close> is the parser of the \<open>toml\<close> crate for \<open>BotConfig\<close>.
\<close>

definition load_bot :: "(string \<Rightarrow> string option) \<Rightarrow> (string \<Rightarrow> string option option)
    \<Rightarrow> (string \<Rightarrow> bot_config option) \<Rightarrow> bot_config outcome" where
  "load_bot env file toml =
     (let config_path = unwrap_or (env ''CONFIG_FILE'') ''config.toml'' in
      case file config_path of
        None \<Rightarrow> Good bot_default
      | Some contents \<Rightarrow>
          obind (oget contents (''failed to read config file: '' @ config_path)) (\<lambda>c.
          oget (toml c) (''failed to parse config file: '' @ config_path)))"

definition config_load :: "(string \<Rightarrow> string option) \<Rightarrow> (string \<Rightarrow> string option option)
    \<Rightarrow> (string \<Rightarrow> bot_config option) \<Rightarrow> config outcome" where
  "config_load env file toml =
     obind (load_bot env file toml) (\<lambda>bot.
     obind (oget (env ''POLYMARKET_API_KEY'') ''POLYMARKET_API_KEY not set (required)'') (\<lambda>api_key.
     obind (oget (env ''POLYMARKET_SECRET'') ''POLYMARKET_SECRET not set (required)'') (\<lambda>secret.
     obind (oget (env ''POLYMARKET_PASSPHRASE'') ''POLYMARKET_PASSPHRASE not set (required)'') (\<lambda>passphrase.
     obind (oget (env ''PRIVATE_KEY'') ''PRIVATE_KEY not set (required)'') (\<lambda>private_key.
     obind (oget (env ''TELEGRAM_BOT_TOKEN'') ''TELEGRAM_BOT_TOKEN not set (required)'') (\<lambda>bot_token.
     obind (oget (env ''TELEGRAM_CHAT_ID'') ''TELEGRAM_CHAT_ID not set (required)'') (\<lambda>chat_id.
     let allowed = Option.bind (env ''TELEGRAM_ALLOWED_USER_ID'') parse_i64;
         stale = rt_binance_stale_event_ms (bc_risk_v2 bot) in
     obind (oget (env ''BINANCE_ED25519_API_KEY'')
        ''BINANCE_ED25519_API_KEY not set (required for SBE market data)'') (\<lambda>ed_key.
     Good \<lparr> cf_polymarket_api_key = api_key, cf_polymarket_secret = secret,
       cf_polymarket_passphrase = passphrase, cf_private_key = private_key,
       cf_questdb_url = unwrap_or (env ''QUESTDB_URL'') ''127.0.0.1:9009'',
       cf_questdb_http_url = unwrap_or (env ''QUESTDB_HTTP_URL'') ''http://127.0.0.1:9000'',
       cf_binance_sbe_ws_url = unwrap_or (env ''BINANCE_SBE_WS_URL'') ''wss://stream-sbe.binance.com:9443'',
       cf_binance_ed25519_api_key = ed_key,
       cf_binance_futures_ws_url = unwrap_or (env ''BINANCE_FUTURES_WS_URL'') ''wss://fstream.binance.com'',
       cf_telegram_bot_token = bot_token, cf_telegram_chat_id = chat_id,
       cf_telegram_allowed_user_id = allowed, cf_bot = bot,
       cf_stale_event_threshold_ms = stale \<rparr>))))))))"

section \<open>Settings of the engine\<close>

definition fair_value_of_toml :: "fair_value_toml \<Rightarrow> fair_value_config" where
  "fair_value_of_toml t = \<lparr> fv_momentum_weight_basis = ft_momentum_weight_basis t,
     fv_momentum_weight_cvd = ft_momentum_weight_cvd t,
     fv_momentum_weight_obi = ft_momentum_weight_obi t,
     fv_max_momentum_adj = ft_max_momentum_adj t, fv_vol_edge_scale = ft_vol_edge_scale t,
     fv_time_edge_scale = ft_time_edge_scale t, fv_baseline_vol = ft_baseline_vol t,
     fv_vol_ring_capacity = ft_vol_ring_capacity t,
     fv_vol_session_capacity = ft_vol_session_capacity t,
     fv_vol_freshness_ms = ft_vol_freshness_ms t, fv_vol_min_warmup = ft_vol_min_warmup t,
     fv_vol_default = ft_vol_default t, fv_vol_ticks_per_sec = ft_vol_ticks_per_sec t,
     fv_vol_floor = ft_vol_floor t, fv_tail_compression_factor = ft_tail_compression_factor t,
     fv_stale_data_edge_penalty = ft_stale_data_edge_penalty t,
     fv_regime_spike_threshold = ft_regime_spike_threshold t,
     fv_regime_spike_penalty = ft_regime_spike_penalty t,
     fv_strike_warmup_count = ft_strike_warmup_count t,
     fv_basis_halflife_ms = ft_basis_halflife_ms t,
     fv_basis_freshness_ms = ft_basis_freshness_ms t, fv_basis_min = ft_basis_min t,
     fv_basis_saturation = ft_basis_saturation t,
     fv_cvd_fast_halflife_ms = ft_cvd_fast_halflife_ms t,
     fv_cvd_slow_halflife_ms = ft_cvd_slow_halflife_ms t,
     fv_cvd_freshness_ms = ft_cvd_freshness_ms t, fv_cvd_min = ft_cvd_min t,
     fv_cvd_saturation = ft_cvd_saturation t, fv_obi_halflife_ms = ft_obi_halflife_ms t,
     fv_obi_freshness_ms = ft_obi_freshness_ms t, fv_obi_min = ft_obi_min t,
     fv_obi_saturation = ft_obi_saturation t,
     fv_momentum_weight_cvd_level = ft_momentum_weight_cvd_level t,
     fv_momentum_weight_obi_level = ft_momentum_weight_obi_level t,
     fv_momentum_weight_basis_level = ft_momentum_weight_basis_level t,
     fv_momentum_weight_spot_cvd = ft_momentum_weight_spot_cvd t,
     fv_momentum_weight_liquidation = ft_momentum_weight_liquidation t,
     fv_cvd_level_halflife_ms = ft_cvd_level_halflife_ms t,
     fv_cvd_level_freshness_ms = ft_cvd_level_freshness_ms t,
     fv_cvd_level_saturation = ft_cvd_level_saturation t,
     fv_obi_level_halflife_ms = ft_obi_level_halflife_ms t,
     fv_obi_level_freshness_ms = ft_obi_level_freshness_ms t,
     fv_obi_level_saturation = ft_obi_level_saturation t,
     fv_basis_level_halflife_ms = ft_basis_level_halflife_ms t,
     fv_basis_level_freshness_ms = ft_basis_level_freshness_ms t,
     fv_basis_level_saturation = ft_basis_level_saturation t,
     fv_spot_cvd_fast_halflife_ms = ft_spot_cvd_fast_halflife_ms t,
     fv_spot_cvd_slow_halflife_ms = ft_spot_cvd_slow_halflife_ms t,
     fv_spot_cvd_freshness_ms = ft_spot_cvd_freshness_ms t,
     fv_spot_cvd_saturation = ft_spot_cvd_saturation t,
     fv_liquidation_halflife_ms = ft_liquidation_halflife_ms t,
     fv_liquidation_freshness_ms = ft_liquidation_freshness_ms t,
     fv_liquidation_saturation = ft_liquidation_saturation t,
     fv_use_logit_momentum = ft_use_logit_momentum t,
     fv_momentum_time_decay = ft_momentum_time_decay t \<rparr>"

definition quoting_of_toml :: "'a lib_scheme \<Rightarrow> quoting_toml \<Rightarrow> quoting_config" where
  "quoting_of_toml L t = \<lparr> qc_min_edge = qt_min_edge t, qc_requote_threshold = qt_requote_threshold t,
     qc_max_order_size = unwrap_or (d_of_f64 L (qt_max_order_size t)) (dnew 100 0),
     qc_min_order_size = unwrap_or (d_of_f64 L (qt_min_order_size t)) (dnew 5 0),
     qc_max_fair_value_extremity = qt_max_fair_value_extremity t, qc_max_batches = qt_max_batches t \<rparr>"

definition risk_of_toml :: "'a lib_scheme \<Rightarrow> risk_toml \<Rightarrow> risk_config" where
  "risk_of_toml L t = \<lparr>
     rk_max_unpaired_shares = unwrap_or (d_of_f64 L (rt_max_unpaired_shares t)) (dnew 10 0),
     rk_rotation_quiet_ms = rt_rotation_quiet_ms t,
     rk_rebalance_threshold = unwrap_or (d_of_f64 L (rt_rebalance_threshold t)) (dnew 20 0),
     rk_rebalance_size = unwrap_or (d_of_f64 L (rt_rebalance_size t)) (dnew 10 0),
     rk_rebalance_max_pair_cost = rt_rebalance_max_pair_cost t,
     rk_stale_book_ms = rt_stale_book_ms t,
     rk_heartbeat_dead_threshold = rt_heartbeat_dead_threshold t,
     rk_buildup_go_dark_threshold = rt_buildup_go_dark_threshold t,
     rk_buildup_go_live_threshold = rt_buildup_go_live_threshold t \<rparr>"

lemma load_bot_not_panic: "load_bot env file toml \<noteq> Panic"
  by (simp add: load_bot_def Let_def obind_neq_Panic del: oget.simps split: option.splits)

lemma config_load_not_panic: "config_load env file toml \<noteq> Panic"
  unfolding config_load_def Let_def
  by (intro obind_neq_Panic oget_neq_Panic load_bot_not_panic outcome.distinct)

section \<open>Properties\<close>

text \<open>
  The two sets of defaults agree: the defaults of the file's sections, converted for the
  engine, are the engine's own defaults, for any decimal library that converts the small whole
  numbers exactly.
\<close>

theorem defaults_agree:
  assumes "list_all (\<lambda>n. d_of_f64 L (flit n) = Some n) [5, 10, 20, 100]"
  shows "fair_value_of_toml fair_value_toml_default = fair_value_default
    \<and> quoting_of_toml L quoting_toml_default = quoting_default
    \<and> risk_of_toml L risk_toml_default = risk_default"
  using assms
  by (simp add: fair_value_of_toml_def fair_value_toml_default_def fair_value_default_def
      quoting_of_toml_def quoting_toml_default_def quoting_default_def
      risk_of_toml_def risk_toml_default_def risk_default_def dnew_def)

lemma defaults_agree_witness:
  "fair_value_of_toml fair_value_toml_default = fair_value_default
    \<and> quoting_of_toml exact_lib quoting_toml_default = quoting_default
    \<and> risk_of_toml exact_lib risk_toml_default = risk_default"
  by (rule defaults_agree) code_simp

text \<open>
  Configuration loading fails closed. It never panics; when it succeeds, every credential is
  the value of its environment variable, so a missing one is always an error; a file that cannot
  be read or parsed is an error and is never replaced by the defaults.
\<close>

theorem config_fails_closed:
  "(case config_load env file toml of
      Good c \<Rightarrow> env ''POLYMARKET_API_KEY'' = Some (cf_polymarket_api_key c)
        \<and> env ''POLYMARKET_SECRET'' = Some (cf_polymarket_secret c)
        \<and> env ''POLYMARKET_PASSPHRASE'' = Some (cf_polymarket_passphrase c)
        \<and> env ''PRIVATE_KEY'' = Some (cf_private_key c)
        \<and> env ''TELEGRAM_BOT_TOKEN'' = Some (cf_telegram_bot_token c)
        \<and> env ''TELEGRAM_CHAT_ID'' = Some (cf_telegram_chat_id c)
        \<and> env ''BINANCE_ED25519_API_KEY'' = Some (cf_binance_ed25519_api_key c)
        \<and> (case file (unwrap_or (env ''CONFIG_FILE'') ''config.toml'') of
              None \<Rightarrow> cf_bot c = bot_default
            | Some None \<Rightarrow> False
            | Some (Some text) \<Rightarrow> toml text = Some (cf_bot c))
    | Err msg \<Rightarrow> True
    | Panic \<Rightarrow> False)"
proof (cases "config_load env file toml")
  case (Good c)
  then show ?thesis
    by (auto simp: config_load_def load_bot_def obind_eq_Good Let_def split: option.splits)
next
  case Panic
  with config_load_not_panic show ?thesis by metis
qed simp

end
