(* ===== verification/Rest.thy ===== *)
theory Rest
  imports Config
begin

text \<open>
  The REST gateway of \<open>src/src/gateway/polymarket/rest.rs\<close>. The SDK and the exchange behind it
  are not under \<open>src/\<close>: what they answer during one command is the record \<open>sdk\<close>, an argument of
  every operation, in which a failed call is None. Errors are values; every operation also
  returns the calls it makes, in order.
\<close>

section \<open>The SDK\<close>

datatype sdk_side = SdkBuy | SdkSell

datatype sdk_order_type = GTC | GTD | FOK

text \<open>The statuses the source names; every other one is \<open>SdkUnknown\<close>.\<close>

datatype sdk_status = SdkLive | SdkMatched | SdkCanceled | SdkDelayed | SdkUnmatched | SdkUnknown string

record limit_order =
  lo_token :: nat
  lo_side :: sdk_side
  lo_price :: dec
  lo_size :: dec
  lo_type :: sdk_order_type
  lo_post_only :: bool
  lo_expiration :: "int option"

record post_answer =
  pa_order_id :: string
  pa_status :: sdk_status
  pa_success :: bool
  pa_taking_amount :: dec

record order_answer =
  oa_status :: sdk_status
  oa_size_matched :: dec
  oa_original_size :: dec

record sdk =
  sdk_u256 :: "string \<Rightarrow> nat option"
  sdk_timestamp :: "int \<Rightarrow> int option"
  sdk_build :: "limit_order \<Rightarrow> bool"
  sdk_sign :: "limit_order \<Rightarrow> bool"
  sdk_post :: "limit_order \<Rightarrow> post_answer option"
  sdk_cancel :: "string \<Rightarrow> string list option"
  sdk_order :: "string \<Rightarrow> order_answer option"
  sdk_cancel_all :: bool
  sdk_tick_size :: "nat \<Rightarrow> bool"
  sdk_neg_risk :: "nat \<Rightarrow> bool"
  sdk_fee_rate :: "nat \<Rightarrow> bool"
  sdk_tick_ok :: "dec \<Rightarrow> bool"

datatype sdk_call = CallBuild limit_order | CallSign limit_order | CallPost limit_order
  | CallCancel string | CallOrder string | CallCancelAll
  | CallTickSize nat | CallNegRisk nat | CallFeeRate nat | CallSetTick nat dec

datatype gw_error = NoSdk | NoSigner | BadToken | SdkFailed

section \<open>The gateway\<close>

record gateway =
  gw_signer :: bool
  gw_sdk :: bool

text \<open>
  \<open>signer\<close> is the key parser of \<open>build_signer\<close>, \<open>uuid\<close> the parser of the API key and \<open>auth\<close> whether
  the exchange accepts the credentials.
\<close>

definition init_sdk_client :: "(string \<Rightarrow> bool) \<Rightarrow> (config \<Rightarrow> bool) \<Rightarrow> config \<Rightarrow> bool" where
  "init_sdk_client uuid auth c = (uuid (cf_polymarket_api_key c) \<and> auth c)"

definition gateway_new :: "(string \<Rightarrow> bool) \<Rightarrow> (string \<Rightarrow> bool) \<Rightarrow> (config \<Rightarrow> bool) \<Rightarrow> config \<Rightarrow> gateway" where
  "gateway_new signer uuid auth c =
     (let sg = signer (cf_private_key c)
      in \<lparr> gw_signer = sg, gw_sdk = (sg \<and> init_sdk_client uuid auth c) \<rparr>)"

fun to_sdk_side :: "side \<Rightarrow> sdk_side" where
  "to_sdk_side Buy = SdkBuy"
| "to_sdk_side Sell = SdkSell"

fun to_sdk_order_type :: "order_type \<Rightarrow> sdk_order_type" where
  "to_sdk_order_type Gtc = GTC"
| "to_sdk_order_type Gtd = GTD"
| "to_sdk_order_type Fok = FOK"

fun map_sdk_status :: "sdk_status \<Rightarrow> order_status" where
  "map_sdk_status SdkMatched = Filled"
| "map_sdk_status SdkLive = Placed"
| "map_sdk_status SdkDelayed = Placed"
| "map_sdk_status SdkUnmatched = Placed"
| "map_sdk_status SdkCanceled = Cancelled"
| "map_sdk_status (SdkUnknown s) = Placed"

text \<open>The expiration is set when the request has one that the SDK's calendar accepts.\<close>

definition limit_order_of :: "sdk \<Rightarrow> nat \<Rightarrow> order_request \<Rightarrow> limit_order" where
  "limit_order_of s token_id rq = \<lparr> lo_token = token_id, lo_side = to_sdk_side (rq_side rq),
     lo_price = rq_price rq, lo_size = rq_size rq, lo_type = to_sdk_order_type (rq_order_type rq),
     lo_post_only = rq_post_only rq,
     lo_expiration = Option.bind (rq_expiration rq) (\<lambda>exp_ms. sdk_timestamp s (uint (exp_ms div 1000))) \<rparr>"

definition response_of :: "u64 \<Rightarrow> post_answer \<Rightarrow> order_response" where
  "response_of now a = \<lparr> rs_order_id = pa_order_id a,
     rs_status = (if \<not> pa_success a then Rejected else map_sdk_status (pa_status a)),
     rs_timestamp_ms = now, rs_size_matched = pa_taking_amount a \<rparr>"

definition place_order :: "sdk \<Rightarrow> u64 \<Rightarrow> gateway \<Rightarrow> order_request \<Rightarrow> sdk_call list \<times> (gw_error + order_response)" where
  "place_order s now g rq =
     (if \<not> gw_sdk g then ([], Inl NoSdk)
      else if \<not> gw_signer g then ([], Inl NoSigner)
      else case sdk_u256 s (rq_token_id rq) of
          None \<Rightarrow> ([], Inl BadToken)
        | Some token_id \<Rightarrow>
            (let lo = limit_order_of s token_id rq
             in if \<not> sdk_build s lo then ([CallBuild lo], Inl SdkFailed)
                else if \<not> sdk_sign s lo then ([CallBuild lo, CallSign lo], Inl SdkFailed)
                else ([CallBuild lo, CallSign lo, CallPost lo],
                  case sdk_post s lo of None \<Rightarrow> Inl SdkFailed | Some a \<Rightarrow> Inr (response_of now a))))"

definition cancel_order :: "sdk \<Rightarrow> gateway \<Rightarrow> string \<Rightarrow> sdk_call list \<times> (gw_error + bool)" where
  "cancel_order s g order_id =
     (if \<not> gw_sdk g then ([], Inl NoSdk)
      else ([CallCancel order_id], case sdk_cancel s order_id of
          None \<Rightarrow> Inl SdkFailed | Some canceled \<Rightarrow> Inr (order_id \<in> set canceled)))"

definition get_order_status :: "sdk \<Rightarrow> gateway \<Rightarrow> string \<Rightarrow> sdk_call list \<times> (gw_error + order_status \<times> dec \<times> dec)" where
  "get_order_status s g order_id =
     (if \<not> gw_sdk g then ([], Inl NoSdk)
      else ([CallOrder order_id], case sdk_order s order_id of
          None \<Rightarrow> Inl SdkFailed
        | Some a \<Rightarrow> Inr (map_sdk_status (oa_status a), oa_size_matched a, oa_original_size a)))"

definition cancel_all :: "sdk \<Rightarrow> gateway \<Rightarrow> sdk_call list \<times> (gw_error + unit)" where
  "cancel_all s g =
     (if \<not> gw_sdk g then ([], Inl NoSdk)
      else ([CallCancelAll], if sdk_cancel_all s then Inr () else Inl SdkFailed))"

section \<open>What leaves the gateway\<close>

lemma place_order_cases:
  obtains er where "place_order s now g rq = ([], Inl er)"
  | lo where "gw_sdk g" "gw_signer g" "sdk_u256 s (rq_token_id rq) = Some (lo_token lo)" "lo = limit_order_of s (lo_token lo) rq"
      "fst (place_order s now g rq) \<in> {[CallBuild lo], [CallBuild lo, CallSign lo]}"
      "snd (place_order s now g rq) = Inl SdkFailed"
  | lo where "gw_sdk g" "gw_signer g" "sdk_u256 s (rq_token_id rq) = Some (lo_token lo)" "lo = limit_order_of s (lo_token lo) rq"
      "place_order s now g rq = ([CallBuild lo, CallSign lo, CallPost lo],
         case sdk_post s lo of None \<Rightarrow> Inl SdkFailed | Some a \<Rightarrow> Inr (response_of now a))"
proof (cases "gw_sdk g \<and> gw_signer g")
  case False
  then show ?thesis using that(1) by (cases "gw_sdk g") (auto simp: place_order_def)
next
  case True
  show ?thesis
  proof (cases "sdk_u256 s (rq_token_id rq)")
    case None
    with True that(1) show ?thesis by (simp add: place_order_def)
  next
    case (Some t)
    define lo where "lo = limit_order_of s t rq"
    have t: "lo_token lo = t" by (simp add: lo_def limit_order_of_def)
    show ?thesis
    proof (cases "sdk_build s lo \<and> sdk_sign s lo")
      case T: True
      show ?thesis by (rule that(3) [of lo]) (use True Some T t in \<open>simp_all add: place_order_def lo_def Let_def\<close>)
    next
      case False
      show ?thesis
        by (rule that(2) [of lo], use True Some False t in \<open>simp_all add: place_order_def lo_def Let_def split: if_splits\<close>)
    qed
  qed
qed

end
