(* ===== verification/Channels.thy ===== *)
theory Channels
  imports MarketTypes
begin

text \<open>
  What the gateways share: the bounded channel to the engine, whose \<open>try_send\<close> drops a message
  when the channel is full, the staleness filter, and the exponential backoff of the reconnect
  loops.
\<close>

lemma obind_eq_Panic: "obind m f = Panic \<longleftrightarrow> m = Panic \<or> (\<exists>x. m = Good x \<and> f x = Panic)"
  by (cases m) auto

section \<open>Bounded channels\<close>

definition try_send :: "nat \<Rightarrow> 'm \<Rightarrow> 'm list \<Rightarrow> 'm list" where
  "try_send cap m ch = (if length ch < cap then ch @ [m] else ch)"

definition try_send_all :: "nat \<Rightarrow> 'm list \<Rightarrow> 'm list \<Rightarrow> 'm list" where
  "try_send_all cap ms ch = foldl (\<lambda>ch m. try_send cap m ch) ch ms"

lemma try_send_all_eq: "try_send_all cap ms ch = ch @ take (cap - length ch) ms"
  unfolding try_send_all_def
  by (induction ms arbitrary: ch) (auto simp: try_send_def take_Cons' not_less)

section \<open>Staleness\<close>

definition is_stale :: "u64 \<Rightarrow> u64 \<Rightarrow> u64 \<Rightarrow> bool" where
  "is_stale event_ts_ms now_ms threshold_ms = (threshold_ms < saturating_sub now_ms event_ts_ms)"

lemma is_stale_iff: "is_stale t now thr \<longleftrightarrow> unat t + unat thr < unat now"
  by (auto simp: is_stale_def word_less_nat_alt unat_saturating_sub)

section \<open>Backoff\<close>

definition backoff_initial_ms :: u64 where
  "backoff_initial_ms = 1000"

definition backoff_max_ms :: u64 where
  "backoff_max_ms = 30000"

definition next_backoff :: "u64 \<Rightarrow> u64" where
  "next_backoff b = min (b * 2) backoff_max_ms"

text \<open>The delay after \<open>n\<close> failures in a row.\<close>

definition backoff_after :: "nat \<Rightarrow> u64" where
  "backoff_after n = (next_backoff ^^ n) backoff_initial_ms"

lemma backoff_bound: "unat (backoff_after n) = min (1000 * 2 ^ n) 30000"
proof (induction n)
  case 0
  show ?case by (simp add: backoff_after_def backoff_initial_ms_def)
next
  case (Suc n)
  have s: "backoff_after (Suc n) = next_backoff (backoff_after n)" by (simp add: backoff_after_def)
  have "unat (backoff_after n) \<le> 30000" by (simp add: Suc)
  then have "unat (backoff_after n * 2) = 2 * unat (backoff_after n)"
    by (simp add: unat_word_ariths)
  moreover have "unat (min a b :: u64) = min (unat a) (unat b)" for a b
    by (simp add: min_def word_le_nat_alt)
  ultimately have "unat (backoff_after (Suc n)) = min (2 * unat (backoff_after n)) 30000"
    unfolding s next_backoff_def by (simp add: backoff_max_ms_def)
  then show ?case by (auto simp: Suc min_def)
qed

end
