(* ===== verification/FillEngine.thy ===== *)
theory FillEngine
  imports Decimal
begin

text \<open>
  The helpers of \<open>src/src/executor/fill_engine.rs\<close>: the size of a fill, the snap to the tick
  grid, and the taker fee.
\<close>

definition compute_fill_size :: "'a lib_scheme \<Rightarrow> dec \<Rightarrow> dec \<Rightarrow> dec" where
  "compute_fill_size L alloc price =
     (if price = 0 then 0 else d_round_dp L 2 (d_div L alloc price))"

definition round_to_tick :: "'a lib_scheme \<Rightarrow> dec \<Rightarrow> dec \<Rightarrow> dec" where
  "round_to_tick L price tick =
     (if tick = 0 then price else d_round L (d_div L price tick) * tick)"

definition compute_taker_fee :: "dec \<Rightarrow> dec \<Rightarrow> dec" where
  "compute_taker_fee price sz =
     (let one = 1; factor = dnew 25 2; inner = price * (one - price) in
      sz * price * factor * inner * inner)"

section \<open>Facts\<close>

text \<open>The snapped price is a multiple of the tick.\<close>

lemma round_to_tick_multiple:
  "round_law L \<Longrightarrow> tick \<noteq> 0 \<Longrightarrow> \<exists>k. round_to_tick L price tick = of_int k * tick"
  by (auto simp: round_to_tick_def round_law_def elim!: Ints_cases)

lemma round_to_tick_zero [simp]: "round_to_tick L price 0 = price"
  by (simp add: round_to_tick_def)

lemma inner_bounds:
  assumes "0 \<le> p" and "p \<le> (1::rat)"
  shows "0 \<le> p * (1 - p)" and "p * (1 - p) \<le> 1 / 4"
proof -
  show "0 \<le> p * (1 - p)" using assms by simp
  have "0 \<le> (p - 1 / 2) * (p - 1 / 2)" by simp
  then show "p * (1 - p) \<le> 1 / 4" by (simp add: algebra_simps)
qed

section \<open>Properties\<close>

text \<open>
  The snap to the tick grid. For a price and a tick above zero the result is a whole number
  of ticks and lies within half a tick of the price (up to the rounding of the one division),
  so it is the nearest grid price and not the one below; and a price already on the grid is
  returned unchanged.
\<close>

theorem round_to_tick_nearest:
  assumes "div_law L" and "div_exact_law L" and "round_law L" and "0 \<le> price" and "0 < tick"
  shows "(\<exists>k. round_to_tick L price tick = of_int k * tick)
    \<and> \<bar>round_to_tick L price tick - price\<bar> \<le> tick / 2 + dec_eps * max tick price
    \<and> (\<forall>k. \<bar>k\<bar> < 10 ^ 8 \<longrightarrow> round_to_tick L (of_int k * tick) tick = of_int k * tick)"
proof (intro conjI allI impI)
  show "\<exists>k. round_to_tick L price tick = of_int k * tick"
    using round_to_tick_multiple [OF assms(3)] assms(5) by simp
  let ?q = "d_div L price tick"
  have r: "\<bar>d_round L ?q - ?q\<bar> \<le> 1 / 2" using assms(3) by (simp add: round_law_def)
  have "\<bar>?q - price / tick\<bar> \<le> dec_eps * max 1 (price / tick)" by (rule div_lawD [OF assms(1,4,5)])
  with r have "\<bar>d_round L ?q - price / tick\<bar> \<le> 1 / 2 + dec_eps * max 1 (price / tick)" by linarith
  then have "\<bar>d_round L ?q - price / tick\<bar> * tick \<le> (1 / 2 + dec_eps * max 1 (price / tick)) * tick"
    using assms(5) by (intro mult_right_mono) auto
  moreover have "\<bar>d_round L ?q - price / tick\<bar> * tick = \<bar>d_round L ?q * tick - price\<bar>"
    using assms(5) by (simp add: abs_mult_pos' [symmetric] abs_mult_pos left_diff_distrib)
  moreover have "(1 / 2 + dec_eps * max 1 (price / tick)) * tick = tick / 2 + dec_eps * max tick price"
    using assms(5) dec_eps_pos by (auto simp: max_def field_simps)
  ultimately show "\<bar>round_to_tick L price tick - price\<bar> \<le> tick / 2 + dec_eps * max tick price"
    using assms(5) by (simp add: round_to_tick_def)
  fix k :: int assume k: "\<bar>k\<bar> < 10 ^ 8"
  then have "of_int \<bar>k\<bar> < (of_int (10 ^ 8) :: rat)" unfolding of_int_less_iff .
  then have "\<bar>of_int k :: rat\<bar> < 10 ^ 8" by simp
  moreover have "grid 20 (of_int k)" by (simp add: grid_def)
  moreover have e: "of_int k * tick / tick = of_int k" using assms(5) by simp
  ultimately have "d_div L (of_int k * tick) tick = of_int k"
    using assms(2,5) unfolding div_exact_law_def by (metis less_irrefl)
  moreover have "d_round L (of_int k) = of_int k"
  proof -
    obtain m where "d_round L (of_int k) = of_int m" "\<bar>d_round L (of_int k) - of_int k\<bar> \<le> 1 / 2"
      using assms(3) unfolding round_law_def by (metis Ints_cases)
    then have "of_int (2 * \<bar>m - k\<bar>) \<le> (of_int 1 :: rat)" by simp
    then have "m = k" unfolding of_int_le_iff by presburger
    then show ?thesis using \<open>d_round L (of_int k) = of_int m\<close> by simp
  qed
  ultimately show "round_to_tick L (of_int k * tick) tick = of_int k * tick"
    using assms(5) by (simp add: round_to_tick_def)
qed

lemma round_to_tick_nearest_witness:
  "round_to_tick exact_lib (4567 / 10000) (1 / 100) = 46 / 100
    \<and> \<bar>round_to_tick exact_lib (4567 / 10000) (1 / 100) - 4567 / 10000\<bar>
      \<le> (1 / 100) / 2 + dec_eps * max (1 / 100) (4567 / 10000)"
proof
  show "round_to_tick exact_lib (4567 / 10000) (1 / 100) = 46 / 100" by code_simp
  show "\<bar>round_to_tick exact_lib (4567 / 10000) (1 / 100) - 4567 / 10000\<bar>
      \<le> (1 / 100) / 2 + dec_eps * max (1 / 100) (4567 / 10000)"
    by (rule round_to_tick_nearest [THEN conjunct2, THEN conjunct1]) simp_all
qed

text \<open>
  The taker fee of a fill at a price between zero and one is never negative, never more than
  one 64th of the notional, vanishes at both ends of the price range, and is that of the whole
  size however the size is split.
\<close>

theorem taker_fee_bounds:
  assumes "0 \<le> price" and "price \<le> 1" and "0 \<le> sz"
  shows "0 \<le> compute_taker_fee price sz \<and> compute_taker_fee price sz \<le> price * sz / 64
    \<and> compute_taker_fee 0 sz = 0 \<and> compute_taker_fee 1 sz = 0
    \<and> (\<forall>a. compute_taker_fee price a + compute_taker_fee price (sz - a) = compute_taker_fee price sz)"
proof -
  let ?i = "price * (1 - price)"
  have fee: "compute_taker_fee price a = a * price / 4 * (?i * ?i)" for a
    by (simp add: compute_taker_fee_def Let_def dnew_def)
  have i: "0 \<le> ?i" "?i \<le> 1 / 4" by (rule inner_bounds [OF assms(1,2)])+
  then have ii: "0 \<le> ?i * ?i" "?i * ?i \<le> 1 / 4 * (1 / 4)" by (simp, intro mult_mono) auto
  have s: "0 \<le> sz * price / 4" using assms by simp
  have "sz * price / 4 * (?i * ?i) \<le> sz * price / 4 * (1 / 4 * (1 / 4))"
    by (rule mult_left_mono [OF ii(2) s])
  then have "compute_taker_fee price sz \<le> price * sz / 64" by (simp add: fee mult.commute)
  moreover have "0 \<le> compute_taker_fee price sz" unfolding fee by (rule mult_nonneg_nonneg [OF s ii(1)])
  moreover have "compute_taker_fee price a + compute_taker_fee price (sz - a) = compute_taker_fee price sz" for a
    unfolding fee by (simp only: distrib_right [symmetric] add_divide_distrib [symmetric]) simp
  ultimately show ?thesis by (simp add: compute_taker_fee_def)
qed

lemma taker_fee_bounds_witness:
  "compute_taker_fee (1 / 2) 100 = 78125 / 100000 \<and> compute_taker_fee (1 / 2) 100 \<le> 1 / 2 * 100 / 64"
proof
  show "compute_taker_fee (1 / 2) 100 = 78125 / 100000" by (simp add: compute_taker_fee_def Let_def dnew_def)
  show "compute_taker_fee (1 / 2) 100 \<le> 1 / 2 * 100 / 64"
    by (rule taker_fee_bounds [THEN conjunct2, THEN conjunct1]) simp_all
qed

end
