(* ===== verification/Executor.thy ===== *)
theory Executor
  imports Rest Channels FillEngine
begin

text \<open>
  The live executor of \<open>src/src/executor/live.rs\<close>: it takes commands off a channel, calls the
  gateway and sends one answer back for every order command. Its state is the gateway, the flag
  that the SDK caches of the current market are warm, the feedback channel with its capacity and
  the calls made so far.
\<close>

section \<open>Sizes the exchange accepts\<close>

text \<open>
  The exchange rejects a fill-or-kill order whose notional has more than two decimal places.
  \<open>n == n.round_dp(2)\<close> is \<open>two_dp\<close>; the two loops are \<open>search_down\<close> and \<open>search_up\<close>.
\<close>

definition two_dp :: "'a lib_scheme \<Rightarrow> dec \<Rightarrow> bool" where
  "two_dp L n = (n = d_round_dp L 2 n)"

lemma nat_ceiling_dec: "0 < (s :: dec) \<Longrightarrow> nat \<lceil>(s - 1 / 100) * 100\<rceil> < nat \<lceil>s * 100\<rceil>"
proof -
  assume s: "0 < s"
  have "\<lceil>(s - 1 / 100) * 100\<rceil> = \<lceil>s * 100\<rceil> - 1" by (simp add: algebra_simps ceiling_diff_one)
  moreover have "0 < \<lceil>s * 100\<rceil>" using s by simp
  ultimately show ?thesis by simp
qed

function search_down :: "'a lib_scheme \<Rightarrow> dec \<Rightarrow> dec \<Rightarrow> dec option" where
  "search_down L price s =
     (if \<not> 0 < s then None
      else let n = price * s in
        if n < 1 then None
        else if two_dp L n then Some s else search_down L price (s - dnew 1 2))"
  by pat_completeness auto
termination
  by (relation "measure (\<lambda>(L, price, s). nat \<lceil>s * 100\<rceil>)") (simp_all add: dnew_def nat_ceiling_dec)

lemma nat_floor_dec: "s \<le> cap \<Longrightarrow> nat \<lfloor>(cap - (s + 1 / 100)) * 100 + 1\<rfloor> < nat \<lfloor>(cap - s :: dec) * 100 + 1\<rfloor>"
proof -
  assume s: "s \<le> cap"
  have "(cap - (s + 1 / 100)) * 100 + 1 = (cap - s) * 100" by (simp add: algebra_simps)
  moreover have "0 \<le> \<lfloor>(cap - s) * 100\<rfloor>" using s by simp
  ultimately show ?thesis by simp
qed

function search_up :: "'a lib_scheme \<Rightarrow> dec \<Rightarrow> dec \<Rightarrow> dec \<Rightarrow> dec option" where
  "search_up L price cap s =
     (if \<not> s \<le> cap then None
      else if two_dp L (price * s) then Some s else search_up L price cap (s + dnew 1 2))"
  by pat_completeness auto
termination
proof (relation "measure (\<lambda>(L, price, cap, s). nat \<lfloor>(cap - s) * 100 + 1\<rfloor>)")
  fix L :: "'a lib_scheme" and price cap s :: dec
  assume "\<not> \<not> s \<le> cap"
  then have "nat \<lfloor>(cap - (s + dnew 1 2)) * 100 + 1\<rfloor> < nat \<lfloor>(cap - s) * 100 + 1\<rfloor>"
    using nat_floor_dec [of s cap] by (simp add: dnew_def)
  then show "((L, price, cap, s + dnew 1 2), L, price, cap, s) \<in> measure (\<lambda>(L, price, cap, s). nat \<lfloor>(cap - s) * 100 + 1\<rfloor>)"
    by (simp only: in_measure prod.case)
qed simp

declare search_down.simps [simp del] search_up.simps [simp del]

definition clob_safe_fok_size :: "'a lib_scheme \<Rightarrow> dec \<Rightarrow> dec \<Rightarrow> dec" where
  "clob_safe_fok_size L price sz =
     (let tick = dnew 1 2 in
      if price = 0 then 0
      else let truncated = dec_floor (d_div L sz tick) * tick; n = price * truncated in
        if two_dp L n \<and> 1 \<le> n then truncated
        else let s = (if tick \<le> truncated then truncated - tick else 0) in
          case search_down L price s of
            Some r \<Rightarrow> r
          | None \<Rightarrow> (let min_size = dec_ceil (d_div L 1 price); cap = min_size + dnew 100 0
                    in unwrap_or (search_up L price cap min_size) 0))"

section \<open>State\<close>

record executor =
  ex_gateway :: gateway
  ex_caches_warm :: bool
  ex_feedback :: "executor_feedback list"
  ex_cap :: nat
  ex_calls :: "sdk_call list"

definition executor_new :: "gateway \<Rightarrow> nat \<Rightarrow> executor" where
  "executor_new g cap = \<lparr> ex_gateway = g, ex_caches_warm = False, ex_feedback = [], ex_cap = cap, ex_calls = [] \<rparr>"

definition answer :: "executor_feedback \<Rightarrow> executor \<Rightarrow> executor" where
  "answer fb x = x\<lparr> ex_feedback := try_send (ex_cap x) fb (ex_feedback x) \<rparr>"

definition called :: "sdk_call list \<Rightarrow> executor \<Rightarrow> executor" where
  "called cs x = x\<lparr> ex_calls := ex_calls x @ cs \<rparr>"

section \<open>Handlers\<close>

definition post_feedback :: "market_side \<Rightarrow> dec \<Rightarrow> dec \<Rightarrow> gw_error + order_response \<Rightarrow> executor_feedback" where
  "post_feedback sd rounded_price sz r = (case r of
      Inl er \<Rightarrow> OrderFailed sd
    | Inr resp \<Rightarrow>
        if rs_status resp = Rejected then OrderFailed sd
        else let already_filled = (rs_status resp = Filled);
                 fill_size = (if already_filled \<and> 0 < rs_size_matched resp then rs_size_matched resp else sz)
             in OrderPosted sd (rs_order_id resp) rounded_price fill_size already_filled)"

definition handle_post_order :: "'a lib_scheme \<Rightarrow> sdk \<Rightarrow> u64 \<Rightarrow> market_side \<Rightarrow> string \<Rightarrow> dec \<Rightarrow> dec
    \<Rightarrow> executor \<Rightarrow> executor" where
  "handle_post_order L s now sd token_id price sz x =
     (if \<not> ex_caches_warm x then answer (OrderFailed sd) x
      else let tick_size = dnew 1 2; rounded_price = round_to_tick L price tick_size;
               sz' = d_trunc_dp L 2 sz;
               (cs, r) = place_order s now (ex_gateway x) (post_only_gtc token_id Buy rounded_price sz')
           in answer (post_feedback sd rounded_price sz' r) (called cs x))"

definition handle_cancel :: "sdk \<Rightarrow> market_side \<Rightarrow> string \<Rightarrow> executor \<Rightarrow> executor" where
  "handle_cancel s sd order_id x =
     (let (c1, was_cancelled) = cancel_order s (ex_gateway x) order_id;
          (c2, st) = get_order_status s (ex_gateway x) order_id;
          size_matched = (case st of Inr (status, matched, original) \<Rightarrow> Some matched | Inl er \<Rightarrow> None)
      in answer (CancelResult sd order_id size_matched) (called (c1 @ c2) x))"

definition rebalance_feedback :: "market_side \<Rightarrow> dec \<Rightarrow> dec \<Rightarrow> gw_error + order_response \<Rightarrow> executor_feedback" where
  "rebalance_feedback sd price safe_size r = (case r of
      Inl er \<Rightarrow> RebalanceResult sd False 0 price
    | Inr resp \<Rightarrow> RebalanceResult sd (rs_status resp = Filled) (min (rs_size_matched resp) safe_size) price)"

definition handle_rebalance_taker :: "'a lib_scheme \<Rightarrow> sdk \<Rightarrow> u64 \<Rightarrow> market_side \<Rightarrow> string \<Rightarrow> dec \<Rightarrow> dec
    \<Rightarrow> executor \<Rightarrow> executor" where
  "handle_rebalance_taker L s now sd token_id price sz x =
     (if \<not> ex_caches_warm x then answer (RebalanceResult sd False 0 price) x
      else let safe_size = clob_safe_fok_size L price sz in
        if safe_size = 0 then answer (RebalanceResult sd False 0 price) x
        else let (cs, r) = place_order s now (ex_gateway x) (emergency_fok token_id Buy price safe_size)
             in answer (rebalance_feedback sd price safe_size r) (called cs x))"

text \<open>The pre-warming of one token: three calls, all made whatever fails.\<close>

definition prewarm_token :: "sdk \<Rightarrow> string \<Rightarrow> sdk_call list \<times> bool" where
  "prewarm_token s token_id = (case sdk_u256 s token_id of
      None \<Rightarrow> ([], False)
    | Some t \<Rightarrow> ([CallTickSize t, CallNegRisk t, CallFeeRate t],
        sdk_tick_size s t \<and> sdk_neg_risk s t \<and> sdk_fee_rate s t))"

definition zero_order_id :: string where
  "zero_order_id = ''0x'' @ replicate 64 CHR ''0''"

definition ex_market_rotation :: "sdk \<Rightarrow> string \<Rightarrow> string \<Rightarrow> string \<Rightarrow> dec \<Rightarrow> executor \<Rightarrow> executor" where
  "ex_market_rotation s condition_id yes_token_id no_token_id tick x =
     (let (c0, r) = cancel_all s (ex_gateway x); x1 = (called c0 x)\<lparr> ex_caches_warm := False \<rparr>
      in if gw_sdk (ex_gateway x1) then
           (let (c1, ok1) = prewarm_token s yes_token_id; (c2, ok2) = prewarm_token s no_token_id;
                x2 = called (c1 @ c2) x1
            in if ok1 \<and> ok2 then called [CallOrder zero_order_id] (x2\<lparr> ex_caches_warm := True \<rparr>) else x2)
         else x1)"

definition handle_tick_size_change :: "sdk \<Rightarrow> string \<Rightarrow> string \<Rightarrow> dec \<Rightarrow> executor \<Rightarrow> executor" where
  "handle_tick_size_change s yes_token_id no_token_id new_tick_size x =
     (if gw_sdk (ex_gateway x) \<and> sdk_tick_ok s new_tick_size
      then called (concat (map (\<lambda>t. case sdk_u256 s t of None \<Rightarrow> [] | Some i \<Rightarrow> [CallSetTick i new_tick_size])
             [yes_token_id, no_token_id])) x
      else x)"

fun handle_command :: "'a lib_scheme \<Rightarrow> sdk \<Rightarrow> u64 \<Rightarrow> executor_command \<Rightarrow> executor \<Rightarrow> executor" where
  "handle_command L s now (PostOrder sd token_id price sz) x = handle_post_order L s now sd token_id price sz x"
| "handle_command L s now (CancelOrder sd order_id) x = handle_cancel s sd order_id x"
| "handle_command L s now (RebalanceTaker sd token_id price sz) x = handle_rebalance_taker L s now sd token_id price sz x"
| "handle_command L s now (CmdMarketRotation cid y n tick) x = ex_market_rotation s cid y n tick x"
| "handle_command L s now (TickSizeChanged y n tick) x = handle_tick_size_change s y n tick x"

text \<open>The receive loop: each command with the answers of the SDK and the clock at its time.\<close>

fun run :: "'a lib_scheme \<Rightarrow> (executor_command \<times> sdk \<times> u64) list \<Rightarrow> executor \<Rightarrow> executor" where
  "run L [] x = x"
| "run L ((cmd, s, now) # rest) x = run L rest (handle_command L s now cmd x)"

end
