(* ===== verification/ColdStorage.thy ===== *)
theory ColdStorage
  imports MarketTypes
begin

text \<open>
  The time-series storage of \<open>src/src/storage/cold.rs\<close>. The QuestDB sender is not under
  \<open>src/\<close>: the model keeps the shared line buffer as a list of rows and takes the outcome of
  each flush as an argument (a failed flush leaves the buffer as it is, as the client library
  documents). The conversion \<open>Decimal\<close> to \<open>f64\<close> is \<open>d_to_f64\<close> of the library record.
\<close>

section \<open>Record types\<close>

record fill_record =
  fr_condition_id :: string
  fr_side :: string
  fr_price :: f64
  fr_size :: f64
  fr_was_taker :: bool
  fr_fee :: f64
  fr_pair_cost :: f64
  fr_paired :: f64
  fr_locked_profit :: f64
  fr_fair_value_yes :: f64
  fr_strike :: f64
  fr_timestamp_ms :: u64

record market_summary_record =
  ms_condition_id :: string
  ms_yes_shares :: f64
  ms_no_shares :: f64
  ms_yes_avg :: f64
  ms_no_avg :: f64
  ms_paired :: f64
  ms_pair_cost :: f64
  ms_locked_profit :: f64
  ms_taker_fees :: f64
  ms_fill_count :: int
  ms_strike :: f64
  ms_final_fv_yes :: f64
  ms_unpaired_yes :: f64
  ms_unpaired_no :: f64
  ms_rebalance_count :: int
  ms_timestamp_ms :: u64

record risk_score_record =
  rr_condition_id :: string
  rr_rebalance_risk :: f64
  rr_dynamic_max_post :: f64
  rr_conviction :: f64
  rr_time_pressure :: f64
  rr_momentum_alignment :: f64
  rr_fv_yes :: f64
  rr_yes_shares :: f64
  rr_no_shares :: f64
  rr_paired :: f64
  rr_timestamp_ms :: u64

section \<open>Rows\<close>

text \<open>
  One line of the buffer: table, symbol columns, value columns and the timestamp in
  microseconds (\<open>as i64 * 1000\<close>, which wraps); None is \<open>at_now\<close>.
\<close>

datatype column = ColF string f64 | ColB string bool | ColI string int | ColT string u64

record row =
  row_table :: string
  row_symbols :: "(string \<times> string) list"
  row_columns :: "column list"
  row_at :: "u64 option"

definition tick_row :: "'a lib_scheme \<Rightarrow> binance_tick \<Rightarrow> row" where
  "tick_row L t = \<lparr> row_table = ''binance_ticks'', row_symbols = [(''symbol'', bt_symbol t)],
     row_columns = [ColF ''bid'' (unwrap_or (d_to_f64 L (bt_bid_price t)) (flit 0)),
       ColF ''ask'' (unwrap_or (d_to_f64 L (bt_ask_price t)) (flit 0)),
       ColF ''mid'' (unwrap_or (d_to_f64 L (bt_mid_price L t)) (flit 0)),
       ColT ''event_time'' (bt_timestamp_ms t * 1000)],
     row_at = None \<rparr>"

definition fill_row :: "fill_record \<Rightarrow> row" where
  "fill_row r = \<lparr> row_table = ''v2_fills'',
     row_symbols = [(''condition_id'', fr_condition_id r), (''side'', fr_side r)],
     row_columns = [ColF ''price'' (fr_price r), ColF ''size'' (fr_size r),
       ColB ''was_taker'' (fr_was_taker r), ColF ''fee'' (fr_fee r),
       ColF ''pair_cost'' (fr_pair_cost r), ColF ''paired'' (fr_paired r),
       ColF ''locked_profit'' (fr_locked_profit r), ColF ''fair_value_yes'' (fr_fair_value_yes r),
       ColF ''strike'' (fr_strike r)],
     row_at = Some (fr_timestamp_ms r * 1000) \<rparr>"

definition market_summary_row :: "market_summary_record \<Rightarrow> row" where
  "market_summary_row r = \<lparr> row_table = ''v2_market_summaries'',
     row_symbols = [(''condition_id'', ms_condition_id r)],
     row_columns = [ColF ''yes_shares'' (ms_yes_shares r), ColF ''no_shares'' (ms_no_shares r),
       ColF ''yes_avg'' (ms_yes_avg r), ColF ''no_avg'' (ms_no_avg r), ColF ''paired'' (ms_paired r),
       ColF ''pair_cost'' (ms_pair_cost r), ColF ''locked_profit'' (ms_locked_profit r),
       ColF ''taker_fees'' (ms_taker_fees r), ColI ''fill_count'' (ms_fill_count r),
       ColF ''strike'' (ms_strike r), ColF ''final_fv_yes'' (ms_final_fv_yes r),
       ColF ''unpaired_yes'' (ms_unpaired_yes r), ColF ''unpaired_no'' (ms_unpaired_no r),
       ColI ''rebalance_count'' (ms_rebalance_count r)],
     row_at = Some (ms_timestamp_ms r * 1000) \<rparr>"

definition risk_score_row :: "risk_score_record \<Rightarrow> row" where
  "risk_score_row r = \<lparr> row_table = ''v2_risk_scores'',
     row_symbols = [(''condition_id'', rr_condition_id r)],
     row_columns = [ColF ''rebalance_risk'' (rr_rebalance_risk r),
       ColF ''dynamic_max_post'' (rr_dynamic_max_post r), ColF ''conviction'' (rr_conviction r),
       ColF ''time_pressure'' (rr_time_pressure r),
       ColF ''momentum_alignment'' (rr_momentum_alignment r), ColF ''fv_yes'' (rr_fv_yes r),
       ColF ''yes_shares'' (rr_yes_shares r), ColF ''no_shares'' (rr_no_shares r),
       ColF ''paired'' (rr_paired r)],
     row_at = Some (rr_timestamp_ms r * 1000) \<rparr>"

section \<open>The storage\<close>

text \<open>\<open>cs_delivered\<close> is a ghost field: the rows the sender has accepted so far.\<close>

record cold_storage =
  cs_buffer :: "row list"
  cs_tick_count :: nat
  cs_last_flush_ms :: u64
  cs_delivered :: "row list"

definition tick_flush_threshold :: nat where
  "tick_flush_threshold = 1000"

definition tick_flush_interval_ms :: u64 where
  "tick_flush_interval_ms = 60000"

definition parse_host_port :: "string \<Rightarrow> (string \<times> u16) outcome" where
  "parse_host_port url = (case rsplit_once (CHR '':'') url of
      Some (host, port_str) \<Rightarrow>
        obind (oget (parse_u16 port_str) ''invalid port in QuestDB URL'') (\<lambda>port. Good (host, port))
    | None \<Rightarrow> Good (url, 9009))"

definition cold_new :: "string \<Rightarrow> bool \<Rightarrow> u64 \<Rightarrow> cold_storage outcome" where
  "cold_new questdb_url connects now_ms =
     obind (parse_host_port questdb_url) (\<lambda>hp.
     if connects then Good \<lparr> cs_buffer = [], cs_tick_count = 0, cs_last_flush_ms = now_ms,
       cs_delivered = [] \<rparr>
     else Err ''failed to connect to QuestDB'')"

text \<open>The state after the call and whether it returned \<open>Ok\<close>.\<close>

definition sender_flush :: "bool \<Rightarrow> cold_storage \<Rightarrow> cold_storage" where
  "sender_flush ok s = (if ok then s\<lparr> cs_delivered := cs_delivered s @ cs_buffer s, cs_buffer := [] \<rparr> else s)"

definition flush_ticks :: "bool \<Rightarrow> u64 \<Rightarrow> cold_storage \<Rightarrow> bool \<times> cold_storage" where
  "flush_ticks ok now_ms s =
     (if cs_tick_count s = 0 then (True, s)
      else if ok then (True, (sender_flush True s)\<lparr> cs_tick_count := 0, cs_last_flush_ms := now_ms \<rparr>)
      else (False, s))"

definition record_tick :: "'a lib_scheme \<Rightarrow> binance_tick \<Rightarrow> bool \<Rightarrow> u64 \<Rightarrow> cold_storage
    \<Rightarrow> bool \<times> cold_storage" where
  "record_tick L t ok now_ms s =
     (let s1 = s\<lparr> cs_buffer := cs_buffer s @ [tick_row L t], cs_tick_count := cs_tick_count s + 1 \<rparr>;
          time_since_flush = saturating_sub now_ms (cs_last_flush_ms s1)
      in if tick_flush_threshold \<le> cs_tick_count s1 \<or> tick_flush_interval_ms \<le> time_since_flush
         then flush_ticks ok now_ms s1 else (True, s1))"

definition record_row :: "row \<Rightarrow> bool \<Rightarrow> cold_storage \<Rightarrow> bool \<times> cold_storage" where
  "record_row r ok s = (ok, sender_flush ok (s\<lparr> cs_buffer := cs_buffer s @ [r] \<rparr>))"

definition record_fill_event :: "fill_record \<Rightarrow> bool \<Rightarrow> cold_storage \<Rightarrow> bool \<times> cold_storage" where
  "record_fill_event r ok s = record_row (fill_row r) ok s"

definition record_market_summary :: "market_summary_record \<Rightarrow> bool \<Rightarrow> cold_storage
    \<Rightarrow> bool \<times> cold_storage" where
  "record_market_summary r ok s = record_row (market_summary_row r) ok s"

definition record_risk_score :: "risk_score_record \<Rightarrow> bool \<Rightarrow> cold_storage \<Rightarrow> bool \<times> cold_storage" where
  "record_risk_score r ok s = record_row (risk_score_row r) ok s"

text \<open>Dropping the storage flushes what is left of the ticks.\<close>

definition cold_drop :: "bool \<Rightarrow> u64 \<Rightarrow> cold_storage \<Rightarrow> cold_storage" where
  "cold_drop ok now_ms s = (if 0 < cs_tick_count s then snd (flush_ticks ok now_ms s) else s)"

definition retention_query :: "string \<Rightarrow> nat \<Rightarrow> string" where
  "retention_query table days = ''ALTER TABLE '' @ table
     @ '' DROP PARTITION WHERE timestamp < dateadd(''@ [CHR 0x27] @ ''d'' @ [CHR 0x27] @ '', -''
     @ show_int (int days) @ '', now())''"

section \<open>Runs of calls\<close>

datatype call =
    CallTick binance_tick
  | CallFill fill_record
  | CallSummary market_summary_record
  | CallRisk risk_score_record

fun call_row :: "'a lib_scheme \<Rightarrow> call \<Rightarrow> row" where
  "call_row L (CallTick t) = tick_row L t"
| "call_row L (CallFill r) = fill_row r"
| "call_row L (CallSummary r) = market_summary_row r"
| "call_row L (CallRisk r) = risk_score_row r"

fun cold_call :: "'a lib_scheme \<Rightarrow> call \<times> bool \<times> u64 \<Rightarrow> cold_storage \<Rightarrow> cold_storage" where
  "cold_call L (CallTick t, ok, now) s = snd (record_tick L t ok now s)"
| "cold_call L (CallFill r, ok, now) s = snd (record_fill_event r ok s)"
| "cold_call L (CallSummary r, ok, now) s = snd (record_market_summary r ok s)"
| "cold_call L (CallRisk r, ok, now) s = snd (record_risk_score r ok s)"

definition rows_of :: "cold_storage \<Rightarrow> row list" where
  "rows_of s = cs_delivered s @ cs_buffer s"

lemma flush_ticks_rows [simp]: "rows_of (snd (flush_ticks ok now s)) = rows_of s"
  by (simp add: flush_ticks_def sender_flush_def rows_of_def)

lemma cold_call_rows: "rows_of (cold_call L c s) = rows_of s @ [call_row L (fst c)]"
  by (cases "(L, c, s)" rule: cold_call.cases)
    (simp_all add: record_tick_def Let_def record_fill_event_def record_market_summary_def
      record_risk_score_def record_row_def sender_flush_def, simp_all add: rows_of_def)

lemma cold_drop_buffer:
  "cs_tick_count s > 0 \<Longrightarrow> cs_buffer (cold_drop True now s) = []"
  by (simp add: cold_drop_def flush_ticks_def sender_flush_def)

section \<open>Properties\<close>


end
