(* ===== verification/ControlTypes.thy ===== *)
theory ControlTypes
  imports RustText
begin

text \<open>
  The types of \<open>src/src/control/types.rs\<close>: the notification flags shared by the command
  listener and the reporter, the status snapshot, and the drain status.
\<close>

record notify_flags =
  trades_on :: bool
  summary_on :: bool
  diagnostics_on :: bool

definition notify_new :: notify_flags where
  "notify_new = \<lparr> trades_on = True, summary_on = True, diagnostics_on = False \<rparr>"

record bot_status =
  bs_uptime_secs :: u64
  bs_mode :: string
  bs_current_market :: "string option"
  bs_phase :: string
  bs_position_summary :: string
  bs_pairing_summary :: string
  bs_unpaired_yes :: string
  bs_unpaired_no :: string
  bs_markets_traded :: u64
  bs_total_fills :: u64
  bs_trades_enabled :: bool
  bs_summary_enabled :: bool
  bs_draining :: bool
  bs_paused :: bool
  bs_heartbeat_healthy :: bool
  bs_heartbeat_failures :: u32
  bs_heartbeat_latency_ms :: u64

definition bot_status_default :: bot_status where
  "bot_status_default = \<lparr> bs_uptime_secs = 0, bs_mode = ''live'', bs_current_market = None,
     bs_phase = ''Idle'', bs_position_summary = ''YES:0 NO:0'',
     bs_pairing_summary = ''paired:0 locked:$0.00'', bs_unpaired_yes = ''0'',
     bs_unpaired_no = ''0'', bs_markets_traded = 0, bs_total_fills = 0,
     bs_trades_enabled = True, bs_summary_enabled = True, bs_draining = False,
     bs_paused = False, bs_heartbeat_healthy = True, bs_heartbeat_failures = 0,
     bs_heartbeat_latency_ms = 0 \<rparr>"

datatype drain_status =
    DrainIdle
  | Draining string string
  | DrainComplete int string

end
