(* ===== verification/Strategy.thy ===== *)
theory Strategy
  imports Config ColdStorage ControlTypes FillEngine
begin

text \<open>
  The strategy engine of \<open>src/src/engine/strategy.rs\<close>: the phases Idle, Quiet and Quoting, the
  handlers of market events and executor feedback, the quoting tick with its guards, the buildup
  guard and the taker rebalance. Every method that reads the clock takes the time as the
  argument \<open>now\<close>, one reading per call. \<open>on_event\<close> returns an outcome, since the volatility
  buffer, the strike sort and the momentum clamp can panic; the other methods are total.
  Messages and records for Telegram and QuestDB are kept in the pending fields as in the code;
  \<open>en_critical\<close> collects the texts handed to \<open>fire_critical\<close>. Logging is left out.
\<close>

section \<open>State\<close>

datatype market_phase = Idle | Quiet | Quoting

record engine =
  en_quoting :: quoting_config
  en_risk :: risk_config
  en_fv_config :: fair_value_config
  en_min_edge :: f64
  en_state :: market_state
  en_phase :: market_phase
  en_strike :: "dec option"
  en_quiet_until_ms :: u64
  en_position :: bilateral_position
  en_fv :: fair_value_estimator
  en_quoter :: quoter
  en_reporter :: bool
  en_draining :: bool
  en_paused :: bool
  en_hb_healthy :: bool
  en_hb_failures :: u32
  en_hb_latency_ms :: u64
  en_session_start_ms :: u64
  en_diag_last_ms :: u64
  en_diag_yes_fills :: u32
  en_diag_no_fills :: u32
  en_diag_requotes :: u32
  en_diag_markets_traded :: u32
  en_buildup_active :: bool
  en_diag_darkens :: u32
  en_pending_rebalance :: bool
  en_diag_rebalances :: u32
  en_last_risk :: f64
  en_pending_commands :: "executor_command list"
  en_pending_tick_change :: "executor_command option"
  en_pending_telegram_diag :: "string option"
  en_pending_fill_messages :: "string list"
  en_pending_market_report :: "string option"
  en_pending_session_summary :: "string option"
  en_pending_fill_records :: "fill_record list"
  en_pending_market_summary :: "market_summary_record option"
  en_pending_risk_records :: "risk_score_record list"
  en_last_risk_record_ms :: u64
  en_critical :: "string list"

definition engine_new :: "'a lib_scheme \<Rightarrow> bot_config \<Rightarrow> u64 \<Rightarrow> engine" where
  "engine_new L bcfg now = (let fvc = fair_value_of_toml (bc_fair_value bcfg) in \<lparr>
     en_quoting = quoting_of_toml L (bc_quoting bcfg), en_risk = risk_of_toml L (bc_risk_v2 bcfg),
     en_fv_config = fvc, en_min_edge = qt_min_edge (bc_quoting bcfg), en_state = market_state_new,
     en_phase = Idle, en_strike = None, en_quiet_until_ms = 0, en_position = position_new,
     en_fv = fe_new fvc, en_quoter = quoter_new, en_reporter = False, en_draining = False,
     en_paused = False, en_hb_healthy = True, en_hb_failures = 0, en_hb_latency_ms = 0,
     en_session_start_ms = now, en_diag_last_ms = now, en_diag_yes_fills = 0, en_diag_no_fills = 0,
     en_diag_requotes = 0, en_diag_markets_traded = 0, en_buildup_active = False,
     en_diag_darkens = 0, en_pending_rebalance = False, en_diag_rebalances = 0,
     en_last_risk = flit 0, en_pending_commands = [], en_pending_tick_change = None,
     en_pending_telegram_diag = None, en_pending_fill_messages = [],
     en_pending_market_report = None, en_pending_session_summary = None,
     en_pending_fill_records = [], en_pending_market_summary = None,
     en_pending_risk_records = [], en_last_risk_record_ms = 0, en_critical = [] \<rparr>)"

section \<open>Reports and records\<close>

text \<open>The conversion \<open>to_f64().unwrap_or(0.0)\<close>.\<close>

definition dec_f64 :: "'a lib_scheme \<Rightarrow> dec \<Rightarrow> f64" where
  "dec_f64 L d = unwrap_or (d_to_f64 L d) (flit 0)"

definition push_fill_message :: "'a lib_scheme \<Rightarrow> market_side \<Rightarrow> dec \<Rightarrow> dec \<Rightarrow> bool \<Rightarrow> engine \<Rightarrow> engine" where
  "push_fill_message L sd price sz was_taker e =
     (let p = en_position e; tag = (if was_taker then ''TAKER'' else ''MAKER'');
          msg = tag @ '' '' @ side_label sd @ '' '' @ d_fmt L 2 sz @ ''@$'' @ d_fmt L 3 price
            @ '' | YES:'' @ d_fmt L 2 (total_shares (yes_pos p))
            @ '' NO:'' @ d_fmt L 2 (total_shares (no_pos p))
            @ '' | paired:'' @ d_fmt L 2 (paired_shares p)
            @ '' locked:$'' @ d_fmt L 2 (locked_profit L p)
      in e\<lparr> en_pending_fill_messages := en_pending_fill_messages e @ [msg] \<rparr>)"

definition push_fill_record :: "'a lib_scheme \<Rightarrow> market_side \<Rightarrow> dec \<Rightarrow> dec \<Rightarrow> bool \<Rightarrow> dec \<Rightarrow> u64
    \<Rightarrow> engine \<Rightarrow> engine" where
  "push_fill_record L sd price sz was_taker fee now e =
     (let p = en_position e in
      e\<lparr> en_pending_fill_records := en_pending_fill_records e @ [\<lparr>
        fr_condition_id = unwrap_or (active_condition_id (en_state e)) [],
        fr_side = side_label sd, fr_price = dec_f64 L price, fr_size = dec_f64 L sz,
        fr_was_taker = was_taker, fr_fee = dec_f64 L fee,
        fr_pair_cost = dec_f64 L (avg_pair_cost L p), fr_paired = dec_f64 L (paired_shares p),
        fr_locked_profit = dec_f64 L (locked_profit L p),
        fr_fair_value_yes = dec_f64 L (yes_fair_value L (en_fv e)),
        fr_strike = unwrap_or (Option.bind (en_strike e) (d_to_f64 L)) (flit 0),
        fr_timestamp_ms = now \<rparr>] \<rparr>)"

definition newline :: string where
  "newline = [CHR 0x0A]"

definition market_report_text :: "'a lib_scheme \<Rightarrow> engine \<Rightarrow> string" where
  "market_report_text L e =
     (let p = en_position e; y = yes_pos p; n = no_pos p;
          market_id = unwrap_or (active_condition_id (en_state e)) ''unknown'';
          short_id = (if 8 < length market_id then drop (length market_id - 8) market_id else market_id);
          net_worst = locked_profit L p - total_taker_fees p - unpaired_usdc L p
      in ''<b>Market Complete</b> ...'' @ short_id @ newline @ newline
        @ ''YES: '' @ d_fmt L 2 (total_shares y) @ '' shares @ $'' @ d_fmt L 3 (avg_price L y) @ '' avg'' @ newline
        @ ''NO: '' @ d_fmt L 2 (total_shares n) @ '' shares @ $'' @ d_fmt L 3 (avg_price L n) @ '' avg'' @ newline @ newline
        @ ''Paired: '' @ d_fmt L 2 (paired_shares p) @ '' @ $'' @ d_fmt L 3 (avg_pair_cost L p)
        @ '' = $'' @ d_fmt L 2 (locked_profit L p) @ '' locked profit'' @ newline
        @ ''Unpaired YES: '' @ d_fmt L 2 (unpaired_yes p) @ '' | Unpaired NO: '' @ d_fmt L 2 (unpaired_no p) @ newline
        @ ''Unpaired risk: $'' @ d_fmt L 2 (unpaired_usdc L p) @ newline
        @ ''Net (worst): $'' @ d_fmt L 2 net_worst @ newline
        @ ''Capital deployed: $'' @ d_fmt L 2 (total_capital_deployed p) @ newline
        @ ''Taker fees: $'' @ d_fmt L 4 (total_taker_fees p))"

definition market_summary_of :: "'a lib_scheme \<Rightarrow> u64 \<Rightarrow> engine \<Rightarrow> market_summary_record" where
  "market_summary_of L now e = (let p = en_position e; y = yes_pos p; n = no_pos p in \<lparr>
     ms_condition_id = unwrap_or (active_condition_id (en_state e)) [],
     ms_yes_shares = dec_f64 L (total_shares y), ms_no_shares = dec_f64 L (total_shares n),
     ms_yes_avg = dec_f64 L (avg_price L y), ms_no_avg = dec_f64 L (avg_price L n),
     ms_paired = dec_f64 L (paired_shares p), ms_pair_cost = dec_f64 L (avg_pair_cost L p),
     ms_locked_profit = dec_f64 L (locked_profit L p),
     ms_taker_fees = dec_f64 L (total_taker_fees p),
     ms_fill_count = uint (total_fills p),
     ms_strike = unwrap_or (Option.bind (en_strike e) (d_to_f64 L)) (flit 0),
     ms_final_fv_yes = dec_f64 L (yes_fair_value L (en_fv e)),
     ms_unpaired_yes = dec_f64 L (unpaired_yes p), ms_unpaired_no = dec_f64 L (unpaired_no p),
     ms_rebalance_count = uint (en_diag_rebalances e), ms_timestamp_ms = now \<rparr>)"

definition send_market_report :: "'a lib_scheme \<Rightarrow> u64 \<Rightarrow> engine \<Rightarrow> engine" where
  "send_market_report L now e =
     e\<lparr> en_pending_market_report := Some (market_report_text L e),
        en_pending_market_summary := Some (market_summary_of L now e) \<rparr>"

definition show_u32 :: "u32 \<Rightarrow> string" where
  "show_u32 n = show_int (uint n)"

definition pad2 :: "u64 \<Rightarrow> string" where
  "pad2 n = (if n < 10 then ''0'' else []) @ show_int (uint n)"

definition send_session_summary :: "'a lib_scheme \<Rightarrow> u64 \<Rightarrow> engine \<Rightarrow> engine" where
  "send_session_summary L now e =
     (let p = en_position e; uptime = saturating_sub now (en_session_start_ms e);
          uptime_h = uptime div 3600000; uptime_m = (uptime mod 3600000) div 60000;
          text = ''<b>v2 Session Summary</b>'' @ newline @ newline
            @ ''Uptime: '' @ show_int (uint uptime_h) @ ''h '' @ pad2 uptime_m @ ''m'' @ newline
            @ ''Markets traded: '' @ show_u32 (en_diag_markets_traded e) @ newline
            @ ''Total fills: '' @ show_u32 (total_fills p) @ '' (YES: '' @ show_u32 (fill_count (yes_pos p))
            @ '' | NO: '' @ show_u32 (fill_count (no_pos p)) @ '')'' @ newline
            @ ''Current position '' @ [CHR 0xE2, CHR 0x80, CHR 0x94] @ '' YES: '' @ d_fmt L 2 (total_shares (yes_pos p))
            @ '' NO: '' @ d_fmt L 2 (total_shares (no_pos p)) @ newline
            @ ''Paired: '' @ d_fmt L 2 (paired_shares p) @ '' | Locked profit: $'' @ d_fmt L 2 (locked_profit L p)
      in e\<lparr> en_pending_session_summary := Some text \<rparr>)"

text \<open>\<open>{:?}\<close> of the phase.\<close>

definition phase_name :: "market_phase \<Rightarrow> string" where
  "phase_name ph = (case ph of Idle \<Rightarrow> ''Idle'' | Quiet \<Rightarrow> ''Quiet'' | Quoting \<Rightarrow> ''Quoting'')"

definition build_status :: "'a lib_scheme \<Rightarrow> u64 \<Rightarrow> string \<Rightarrow> engine \<Rightarrow> bot_status" where
  "build_status L now mode e = (let p = en_position e in \<lparr>
     bs_uptime_secs = saturating_sub now (en_session_start_ms e) div 1000, bs_mode = mode,
     bs_current_market = active_condition_id (en_state e), bs_phase = phase_name (en_phase e),
     bs_position_summary = ''YES:'' @ d_fmt L 2 (total_shares (yes_pos p)) @ '' NO:''
        @ d_fmt L 2 (total_shares (no_pos p)),
     bs_pairing_summary = ''paired:'' @ d_fmt L 2 (paired_shares p) @ '' locked:$''
        @ d_fmt L 2 (locked_profit L p),
     bs_unpaired_yes = d_fmt L 2 (unpaired_yes p), bs_unpaired_no = d_fmt L 2 (unpaired_no p),
     bs_markets_traded = ucast (en_diag_markets_traded e), bs_total_fills = ucast (total_fills p),
     bs_trades_enabled = (\<not> en_paused e), bs_summary_enabled = True,
     bs_draining = en_draining e, bs_paused = en_paused e, bs_heartbeat_healthy = en_hb_healthy e,
     bs_heartbeat_failures = en_hb_failures e, bs_heartbeat_latency_ms = en_hb_latency_ms e \<rparr>)"

section \<open>Cancels\<close>

text \<open>The loop that turns cancel actions into commands and marks them sent.\<close>

fun send_cancels :: "quote_action list \<Rightarrow> quoter \<Rightarrow> quoter \<times> executor_command list" where
  "send_cancels [] q = (q, [])"
| "send_cancels (QCancel sd order_id # as) q =
     (let (q', cs) = send_cancels as (on_cancel_sent sd q) in (q', CancelOrder sd order_id # cs))"
| "send_cancels (QPost sd tok price sz # as) q = send_cancels as q"

definition heartbeat_dead_text :: string where
  "heartbeat_dead_text = ''<b>'' @ [CHR 0xE2, CHR 0x9A, CHR 0xA0] @ '' HEARTBEAT DEAD</b>'' @ newline
     @ ''All resting orders cancelled. Quoting paused until heartbeat recovers.''"

section \<open>Market rotation\<close>

definition on_market_rotation :: "'a lib_scheme \<Rightarrow> string \<Rightarrow> string \<Rightarrow> string \<Rightarrow> u64 \<Rightarrow> dec \<Rightarrow> u64
    \<Rightarrow> engine \<Rightarrow> engine" where
  "on_market_rotation L condition_id yes_token_id no_token_id end_timestamp_ms tick now e =
     (let e1 = (if active_condition_id (en_state e) \<noteq> None \<and> 0 < total_fills (en_position e)
                then send_market_report L now e else e)
      in e1\<lparr> en_state := (en_state e1)\<lparr> active_condition_id := Some condition_id,
               active_yes_token_id := Some yes_token_id, active_no_token_id := Some no_token_id,
               market_end_timestamp_ms := end_timestamp_ms, tick_size := tick,
               poly_yes_book := None, poly_no_book := None, poly_book := None \<rparr>,
             en_strike := None, en_position := position_reset (en_position e1),
             en_quoter := quoter_reset (en_quoter e1),
             en_fv := fe_reset (en_fv_config e1) (en_fv e1),
             en_buildup_active := False, en_diag_darkens := 0, en_pending_rebalance := False,
             en_diag_rebalances := 0, en_last_risk := flit 0, en_last_risk_record_ms := 0,
             en_pending_fill_messages := [], en_pending_fill_records := [],
             en_pending_risk_records := [],
             en_phase := Quiet,
             en_quiet_until_ms := now + rk_rotation_quiet_ms (en_risk e1),
             en_diag_markets_traded := en_diag_markets_traded e1 + 1,
             en_pending_commands := en_pending_commands e1
               @ [CmdMarketRotation condition_id yes_token_id no_token_id tick] \<rparr>)"

section \<open>Fills\<close>

definition bump_fills :: "market_side \<Rightarrow> engine \<Rightarrow> engine" where
  "bump_fills sd e = (case sd of Yes \<Rightarrow> e\<lparr> en_diag_yes_fills := en_diag_yes_fills e + 1 \<rparr>
     | No \<Rightarrow> e\<lparr> en_diag_no_fills := en_diag_no_fills e + 1 \<rparr>)"

definition match_order :: "string \<Rightarrow> quoter \<Rightarrow> market_side option" where
  "match_order order_id q =
     (let yes = (case yes_order q of Some o1 \<Rightarrow> if mo_order_id o1 = order_id then Some Yes else None
                   | None \<Rightarrow> None)
      in case yes of Some sd \<Rightarrow> Some sd
         | None \<Rightarrow> (case no_order q of Some o1 \<Rightarrow> if mo_order_id o1 = order_id then Some No else None
                     | None \<Rightarrow> None))"

definition record_ws_delta :: "'a lib_scheme \<Rightarrow> market_side \<Rightarrow> dec \<Rightarrow> u64 \<Rightarrow> engine \<Rightarrow> engine" where
  "record_ws_delta L sd cumulative now e =
     (let (delta, q1) = record_ws_fill sd cumulative (en_quoter e); e1 = e\<lparr> en_quoter := q1 \<rparr> in
      if delta \<le> 0 then e1
      else let fill_price = (case q_order sd q1 of Some o1 \<Rightarrow> mo_price o1 | None \<Rightarrow> 0);
               order_size = (case q_order sd q1 of Some o1 \<Rightarrow> mo_size o1 | None \<Rightarrow> 0);
               was_full = (order_size \<le> cumulative);
               e2 = e1\<lparr> en_position := record_fill sd fill_price delta False 0 (en_position e1),
                        en_quoter := on_fill sd was_full (en_quoter e1) \<rparr>;
               e3 = push_fill_message L sd fill_price delta False e2;
               e4 = push_fill_record L sd fill_price delta False 0 now e3
           in bump_fills sd e4)"

definition on_trade_status_update :: "'a lib_scheme \<Rightarrow> string \<Rightarrow> trade_status \<Rightarrow> dec option \<Rightarrow> u64
    \<Rightarrow> engine \<Rightarrow> engine" where
  "on_trade_status_update L order_id status size_matched now e =
     (if status \<noteq> Matched then e
      else case size_matched of
          None \<Rightarrow> e
        | Some cumulative \<Rightarrow>
            if \<not> 0 < cumulative then e
            else (case match_order order_id (en_quoter e) of
                None \<Rightarrow> e
              | Some sd \<Rightarrow> record_ws_delta L sd cumulative now e))"

section \<open>Feedback from the executor\<close>

definition book_ask :: "order_book option \<Rightarrow> dec option" where
  "book_ask b = map_option pl_price (Option.bind b ob_best_ask)"

definition side_book :: "market_side \<Rightarrow> market_state \<Rightarrow> order_book option" where
  "side_book sd s = (case sd of Yes \<Rightarrow> poly_yes_book s | No \<Rightarrow> poly_no_book s)"

definition stale_book :: "market_side \<Rightarrow> market_state \<Rightarrow> market_state" where
  "stale_book sd s = (case sd of
      Yes \<Rightarrow> s\<lparr> poly_yes_book := map_option (\<lambda>b. b\<lparr> ob_timestamp_ms := 0 \<rparr>) (poly_yes_book s) \<rparr>
    | No \<Rightarrow> s\<lparr> poly_no_book := map_option (\<lambda>b. b\<lparr> ob_timestamp_ms := 0 \<rparr>) (poly_no_book s) \<rparr>)"

definition fb_order_posted :: "'a lib_scheme \<Rightarrow> u64 \<Rightarrow> market_side \<Rightarrow> string \<Rightarrow> dec \<Rightarrow> dec \<Rightarrow> bool
    \<Rightarrow> engine \<Rightarrow> engine" where
  "fb_order_posted L now sd order_id price sz already_filled e =
     (if already_filled then
        (let e1 = e\<lparr> en_position := record_fill sd price sz False 0 (en_position e),
                     en_quoter := on_order_failed sd (en_quoter e) \<rparr>;
             e2 = push_fill_message L sd price sz False e1;
             e3 = push_fill_record L sd price sz False 0 now e2
         in bump_fills sd e3)
      else
        (let fv = (case sd of Yes \<Rightarrow> yes_fair_value L (en_fv e) | No \<Rightarrow> no_fair_value L (en_fv e));
             ask = unwrap_or (book_ask (side_book sd (en_state e))) 1
         in e\<lparr> en_quoter := on_order_posted sd \<lparr> mo_order_id = order_id, mo_price = price, mo_size = sz,
                 mo_posted_ms = now, mo_fair_value_at_post = fv, mo_ask_at_post = ask,
                 mo_size_filled = 0 \<rparr> (en_quoter e) \<rparr>))"

definition fb_cancel_result :: "'a lib_scheme \<Rightarrow> u64 \<Rightarrow> market_side \<Rightarrow> string \<Rightarrow> dec option
    \<Rightarrow> engine \<Rightarrow> engine" where
  "fb_cancel_result L now sd order_id size_matched e =
     (let e1 = (case size_matched of
          None \<Rightarrow> e
        | Some matched \<Rightarrow>
            (case (if 0 < matched then lookup_order_for_cancel sd order_id (en_quoter e) else None) of
               None \<Rightarrow> e
             | Some (price, already_filled) \<Rightarrow>
                 (let delta = matched - already_filled in
                  if 0 < delta then
                    bump_fills sd (push_fill_record L sd price delta False 0 now
                      (push_fill_message L sd price delta False
                        (e\<lparr> en_position := record_fill sd price delta False 0 (en_position e) \<rparr>)))
                  else e)))
      in e1\<lparr> en_quoter := on_cancel_result sd (en_quoter e1) \<rparr>)"

definition fb_rebalance_result :: "'a lib_scheme \<Rightarrow> u64 \<Rightarrow> market_side \<Rightarrow> bool \<Rightarrow> dec \<Rightarrow> dec
    \<Rightarrow> engine \<Rightarrow> engine" where
  "fb_rebalance_result L now sd was_filled size_matched price e =
     (let e1 = (if was_filled \<and> 0 < size_matched then
          (let fee = compute_taker_fee price size_matched in
           push_fill_record L sd price size_matched True fee now
             (push_fill_message L sd price size_matched True
               (e\<lparr> en_position := record_fill sd price size_matched True fee (en_position e) \<rparr>)))
          else e)
      in e1\<lparr> en_pending_rebalance := False \<rparr>)"

fun on_feedback :: "'a lib_scheme \<Rightarrow> u64 \<Rightarrow> executor_feedback \<Rightarrow> engine \<Rightarrow> engine" where
  "on_feedback L now (OrderPosted sd order_id price sz already_filled) e =
     fb_order_posted L now sd order_id price sz already_filled e"
| "on_feedback L now (OrderFailed sd) e =
     e\<lparr> en_quoter := on_order_failed sd (en_quoter e), en_state := stale_book sd (en_state e) \<rparr>"
| "on_feedback L now (CancelResult sd order_id size_matched) e =
     fb_cancel_result L now sd order_id size_matched e"
| "on_feedback L now (RebalanceResult sd was_filled size_matched price) e =
     fb_rebalance_result L now sd was_filled size_matched price e"

section \<open>Market events\<close>

definition touch :: "u64 \<Rightarrow> engine \<Rightarrow> engine" where
  "touch now e = e\<lparr> en_state := (en_state e)\<lparr> last_update_ms := now \<rparr> \<rparr>"

definition feed_tick :: "'a lib_scheme \<Rightarrow> u64 \<Rightarrow> dec \<Rightarrow> f64 \<Rightarrow> engine \<Rightarrow> engine outcome" where
  "feed_tick L now mid mid_f64 e =
     (let e1 = e\<lparr> en_state := (en_state e)\<lparr> binance_price := Some mid \<rparr>,
                  en_fv := fe_update_btc_price mid_f64 now (en_fv e) \<rparr>
      in obind (fe_update_vol L mid_f64 now (en_fv e1)) (\<lambda>fv.
         Good (touch now (e1\<lparr> en_fv := fe_update_spot_mid L mid_f64 now fv \<rparr>))))"

text \<open>The strike is taken from the warm-up while a market is active and it is not set.\<close>

definition strike_step :: "'a lib_scheme \<Rightarrow> f64 \<Rightarrow> engine \<Rightarrow> engine outcome" where
  "strike_step L mid_f64 e =
     (if en_strike e = None \<and> active_condition_id (en_state e) \<noteq> None then
        obind (try_set_strike mid_f64 (en_fv e)) (\<lambda>(set, fv).
          Good (if set then e\<lparr> en_fv := fv, en_strike := Some (strike_price L fv) \<rparr> else e\<lparr> en_fv := fv \<rparr>))
      else Good e)"

definition ev_binance_tick :: "'a lib_scheme \<Rightarrow> u64 \<Rightarrow> binance_tick \<Rightarrow> engine \<Rightarrow> engine outcome" where
  "ev_binance_tick L now t e =
     (let mid = bt_mid_price L t; mid_f64 = dec_f64 L mid in
      obind (feed_tick L now mid mid_f64 e) (strike_step L mid_f64))"

definition ev_binance_depth :: "'a lib_scheme \<Rightarrow> u64 \<Rightarrow> binance_depth \<Rightarrow> engine \<Rightarrow> engine outcome" where
  "ev_binance_depth L now d e =
     (let e1 = (case bd_obi L d of
          Some obi \<Rightarrow> e\<lparr> en_fv := fe_update_obi L (dec_f64 L obi) now (en_fv e) \<rparr> | None \<Rightarrow> e)
      in case bd_mid_price L d of
          Some mid \<Rightarrow> obind (fe_update_vol L (dec_f64 L mid) now (en_fv e1)) (\<lambda>fv.
            Good (touch now (e1\<lparr> en_fv := fe_update_spot_mid L (dec_f64 L mid) now fv \<rparr>)))
        | None \<Rightarrow> Good (touch now e1))"

definition ev_book :: "u64 \<Rightarrow> order_book \<Rightarrow> engine \<Rightarrow> engine" where
  "ev_book now b e =
     (let s = en_state e;
          s1 = (if Some (ob_asset_id b) = active_yes_token_id s then s\<lparr> poly_yes_book := Some b \<rparr>
                else if Some (ob_asset_id b) = active_no_token_id s then s\<lparr> poly_no_book := Some b \<rparr>
                else s)
      in e\<lparr> en_state := s1\<lparr> poly_book := Some b, last_update_ms := now \<rparr> \<rparr>)"

definition top_level :: "dec \<Rightarrow> price_level list" where
  "top_level price = (if 0 < price then [\<lparr> pl_price = price, pl_size = 1 \<rparr>] else [])"

definition set_top :: "u64 \<Rightarrow> dec \<Rightarrow> dec \<Rightarrow> order_book \<Rightarrow> order_book" where
  "set_top now bid ask b = b\<lparr> ob_bids := top_level bid, ob_asks := top_level ask, ob_timestamp_ms := now \<rparr>"

definition ev_best_bid_ask :: "u64 \<Rightarrow> string \<Rightarrow> dec \<Rightarrow> dec \<Rightarrow> engine \<Rightarrow> engine" where
  "ev_best_bid_ask now asset_id bid ask e =
     (let s = en_state e;
          s1 = (if Some asset_id = active_yes_token_id s
                then s\<lparr> poly_yes_book := map_option (set_top now bid ask) (poly_yes_book s) \<rparr>
                else if Some asset_id = active_no_token_id s
                then s\<lparr> poly_no_book := map_option (set_top now bid ask) (poly_no_book s) \<rparr>
                else s)
      in e\<lparr> en_state := s1\<lparr> last_update_ms := now \<rparr> \<rparr>)"

definition ev_tick_size :: "dec \<Rightarrow> engine \<Rightarrow> engine" where
  "ev_tick_size new_tick e =
     (let s = en_state e; e1 = e\<lparr> en_state := s\<lparr> tick_size := new_tick \<rparr> \<rparr> in
      case (active_yes_token_id s, active_no_token_id s) of
        (Some y, Some n) \<Rightarrow> e1\<lparr> en_pending_tick_change := Some (TickSizeChanged y n new_tick) \<rparr>
      | _ \<Rightarrow> e1)"

definition ev_heartbeat :: "bool \<Rightarrow> u64 \<Rightarrow> engine \<Rightarrow> engine" where
  "ev_heartbeat success latency e =
     (if success then e\<lparr> en_hb_failures := 0, en_hb_healthy := True, en_hb_latency_ms := latency \<rparr>
      else let e1 = e\<lparr> en_hb_failures := en_hb_failures e + 1 \<rparr> in
        if rk_heartbeat_dead_threshold (en_risk e1) \<le> en_hb_failures e1 \<and> en_hb_healthy e1 then
          (let (q, cs) = send_cancels (cancel_all_actions (en_quoter e1)) (en_quoter e1) in
           e1\<lparr> en_hb_healthy := False, en_quoter := q,
               en_pending_commands := en_pending_commands e1 @ cs,
               en_critical := en_critical e1 @ (if en_reporter e1 then [heartbeat_dead_text] else []) \<rparr>)
        else e1)"

fun handle_event :: "'a lib_scheme \<Rightarrow> u64 \<Rightarrow> ingestor_event \<Rightarrow> engine \<Rightarrow> engine outcome" where
  "handle_event L now (EvMarketRotation cid yes no end_ms tick) e =
     Good (on_market_rotation L cid yes no end_ms tick now e)"
| "handle_event L now (EvBinanceTick t) e = ev_binance_tick L now t e"
| "handle_event L now (EvBinanceDepth d) e = ev_binance_depth L now d e"
| "handle_event L now (EvFuturesBookTicker t) e = Good (e\<lparr> en_fv :=
     fe_update_futures_mid L (dec_f64 L (fbt_bid_price t)) (dec_f64 L (fbt_ask_price t)) now (en_fv e) \<rparr>)"
| "handle_event L now (EvFuturesAggTrade t) e = Good (e\<lparr> en_fv :=
     fe_update_cvd L (dec_f64 L (fat_quantity t)) (fat_is_buyer_maker t) now (en_fv e) \<rparr>)"
| "handle_event L now (EvBook b) e = Good (ev_book now b e)"
| "handle_event L now (EvBestBidAsk asset_id bid ask) e = Good (ev_best_bid_ask now asset_id bid ask e)"
| "handle_event L now (EvPriceChange asset_id price sz sd bid ask) e = Good (touch now e)"
| "handle_event L now (EvTickSizeChange asset_id old_tick new_tick) e = Good (ev_tick_size new_tick e)"
| "handle_event L now (EvTradeStatus order_id status size_matched original) e =
     Good (on_trade_status_update L order_id status size_matched now e)"
| "handle_event L now (EvHeartbeat success latency) e = Good (ev_heartbeat success latency e)"
| "handle_event L now (EvSpotTrade t) e = Good (e\<lparr> en_fv :=
     fe_update_spot_cvd L (dec_f64 L (st_quantity t)) (st_is_buyer_maker t) now (en_fv e) \<rparr>)"
| "handle_event L now (EvFuturesForceOrder t) e = Good (e\<lparr> en_fv :=
     fe_update_liquidation L (ffo_side t) (dec_f64 L (ffo_quantity t)) now (en_fv e) \<rparr>)"
| "handle_event L now ev e = Good e"

text \<open>What follows every event: the recomputation and the phase transition.\<close>

definition after_event :: "'a lib_scheme \<Rightarrow> u64 \<Rightarrow> engine \<Rightarrow> engine outcome" where
  "after_event L now e =
     obind (if fe_is_warm (en_fv e) \<and> 0 < market_end_timestamp_ms (en_state e)
            then fe_recompute L (market_end_timestamp_ms (en_state e)) (en_min_edge e) now (en_fv e)
            else Good (en_fv e))
       (\<lambda>fv. let e1 = e\<lparr> en_fv := fv \<rparr> in
         Good (if en_phase e1 = Quiet \<and> en_quiet_until_ms e1 \<le> now \<and> \<not> en_paused e1
               then e1\<lparr> en_phase := Quoting \<rparr> else e1))"

definition on_event :: "'a lib_scheme \<Rightarrow> u64 \<Rightarrow> ingestor_event \<Rightarrow> engine \<Rightarrow> engine outcome" where
  "on_event L now ev e = obind (handle_event L now ev e) (after_event L now)"

section \<open>Buildup guard\<close>

text \<open>The two counters of the consensus loop: readings above zero that point up and down.\<close>

definition vote_count :: "direction \<Rightarrow> (f64 \<times> direction option) list \<Rightarrow> nat" where
  "vote_count d sigs = length (filter (\<lambda>(nrm, dir). flt (flit 0) nrm \<and> dir = Some d) sigs)"

definition buildup_score_of :: "f64 \<times> direction option \<Rightarrow> f64 \<times> direction option
    \<Rightarrow> f64 \<times> direction option \<Rightarrow> f64" where
  "buildup_score_of cvd obi basis =
     (let ups = vote_count Up [cvd, obi, basis]; downs = vote_count Down [cvd, obi, basis];
          has_consensus = ((0 < ups \<and> downs = 0) \<or> (0 < downs \<and> ups = 0));
          has_leading = (flt (flit 0) (fst cvd) \<or> flt (flit 0) (fst basis))
      in if has_consensus \<and> has_leading
         then fadd (fadd (fmul (flit (40 / 100)) (fst cvd)) (fmul (flit (30 / 100)) (fst basis)))
                (fmul (flit (30 / 100)) (fst obi))
         else flit 0)"

definition buildup_score :: "u64 \<Rightarrow> engine \<Rightarrow> f64" where
  "buildup_score now e = buildup_score_of (cvd_signal now (en_fv e)) (obi_signal now (en_fv e))
     (basis_signal now (en_fv e))"

definition check_buildup_guard :: "u64 \<Rightarrow> engine \<Rightarrow> bool \<times> engine" where
  "check_buildup_guard now e =
     (let score = buildup_score_of (cvd_signal now (en_fv e)) (obi_signal now (en_fv e))
                    (basis_signal now (en_fv e));
          was_active = en_buildup_active e;
          threshold = (if was_active then rk_buildup_go_live_threshold (en_risk e)
                       else rk_buildup_go_dark_threshold (en_risk e));
          e1 = (if \<not> was_active \<and> fle threshold score
                then e\<lparr> en_buildup_active := True, en_diag_darkens := en_diag_darkens e + 1 \<rparr>
                else if was_active \<and> flt score threshold
                then e\<lparr> en_buildup_active := False \<rparr> else e)
      in (en_buildup_active e1, e1))"

section \<open>Risk\<close>

definition compute_rebalance_risk :: "f64 \<Rightarrow> f64 \<Rightarrow> f64 \<Rightarrow> f64" where
  "compute_rebalance_risk conviction time_pressure alignment =
     fclamp (fmul (fmul conviction (fadd (flit (3 / 10)) (fmul (flit (7 / 10)) time_pressure)))
        (fadd (flit 1) (fmul (flit (1 / 2)) alignment))) (flit 0) (flit 1)"

definition compute_dynamic_max_post :: "f64 \<Rightarrow> f64 \<Rightarrow> f64" where
  "compute_dynamic_max_post config_max risk =
     fadd (flit (1 / 2)) (fmul (fsub config_max (flit (1 / 2))) (fsub (flit 1) risk))"

record risk_view =
  vw_fv_yes :: f64
  vw_conviction :: f64
  vw_time_pressure :: f64
  vw_alignment :: f64
  vw_risk :: f64
  vw_dynamic_max :: f64

definition risk_view_of :: "'a lib_scheme \<Rightarrow> u64 \<Rightarrow> engine \<Rightarrow> risk_view" where
  "risk_view_of L now e =
     (let fv_yes = unwrap_or (d_to_f64 L (yes_fair_value L (en_fv e))) (flit (1 / 2));
          conviction = fmul (fabs (fsub fv_yes (flit (1 / 2)))) (flit 2);
          time_remaining_ms = saturating_sub (market_end_timestamp_ms (en_state e)) now;
          time_pressure = fsub (flit 1)
             (fclamp (fdiv (f_of_u64 time_remaining_ms) (flit 300000)) (flit 0) (flit 1));
          momentum = fe_last_momentum (en_fv e);
          fv_direction = (if fle (flit (1 / 2)) fv_yes then flit 1 else flit (- 1));
          max_mom = fmax (fv_max_momentum_adj (en_fv_config e)) (flit (1 / 1000));
          alignment = fclamp (fdiv (fmul momentum fv_direction) max_mom) (flit (- 1)) (flit 1);
          risk = compute_rebalance_risk conviction time_pressure alignment
      in \<lparr> vw_fv_yes = fv_yes, vw_conviction = conviction, vw_time_pressure = time_pressure,
           vw_alignment = alignment, vw_risk = risk,
           vw_dynamic_max = compute_dynamic_max_post (qc_max_fair_value_extremity (en_quoting e)) risk \<rparr>)"

definition push_risk_record :: "'a lib_scheme \<Rightarrow> u64 \<Rightarrow> risk_view \<Rightarrow> engine \<Rightarrow> engine" where
  "push_risk_record L now v e =
     (if 5000 \<le> saturating_sub now (en_last_risk_record_ms e) then
        e\<lparr> en_last_risk_record_ms := now,
           en_pending_risk_records := en_pending_risk_records e @ [\<lparr>
             rr_condition_id = unwrap_or (active_condition_id (en_state e)) [],
             rr_rebalance_risk = vw_risk v, rr_dynamic_max_post = vw_dynamic_max v,
             rr_conviction = vw_conviction v, rr_time_pressure = vw_time_pressure v,
             rr_momentum_alignment = vw_alignment v, rr_fv_yes = vw_fv_yes v,
             rr_yes_shares = dec_f64 L (total_shares (yes_pos (en_position e))),
             rr_no_shares = dec_f64 L (total_shares (no_pos (en_position e))),
             rr_paired = dec_f64 L (paired_shares (en_position e)), rr_timestamp_ms = now \<rparr>] \<rparr>
      else e)"

section \<open>The quoting tick\<close>

text \<open>The guards before the risk computation, in the order of the code.\<close>

definition quote_gate :: "u64 \<Rightarrow> engine \<Rightarrow> bool" where
  "quote_gate now e \<longleftrightarrow> en_phase e = Quoting \<and> \<not> en_draining e \<and> \<not> en_paused e
     \<and> fe_is_warm (en_fv e) \<and> \<not> fe_is_stale now (en_fv e) \<and> fe_is_vol_warm (en_fv e)
     \<and> en_hb_healthy e"

definition book_healthy :: "u64 \<Rightarrow> u64 \<Rightarrow> order_book option \<Rightarrow> bool" where
  "book_healthy stale_ms now b = (case b of
      Some b1 \<Rightarrow> saturating_sub now (ob_timestamp_ms b1) \<le> stale_ms | None \<Rightarrow> False)"

definition is_postable :: "bool \<Rightarrow> dec \<Rightarrow> dec \<Rightarrow> dec \<Rightarrow> dec option \<Rightarrow> bool" where
  "is_postable book_ok target min_extreme max_extreme best_ask \<longleftrightarrow>
     book_ok \<and> min_extreme \<le> target \<and> target \<le> max_extreme
     \<and> (case best_ask of None \<Rightarrow> True | Some ask \<Rightarrow> target < ask)"

definition zone_cancel :: "market_side \<Rightarrow> bool \<Rightarrow> quoter \<Rightarrow> quoter \<times> executor_command list" where
  "zone_cancel sd postable q = (if postable then (q, [])
     else (case cancel_side_action sd q of
        Some (QCancel sd' order_id) \<Rightarrow> (on_cancel_sent sd' q, [CancelOrder sd' order_id])
      | _ \<Rightarrow> (q, [])))"

fun apply_action :: "quote_action \<Rightarrow> engine \<Rightarrow> engine \<times> executor_command" where
  "apply_action (QPost sd tok price sz) e =
     (e\<lparr> en_quoter := mark_post_pending sd (en_quoter e) \<rparr>, PostOrder sd tok price sz)"
| "apply_action (QCancel sd order_id) e =
     (e\<lparr> en_quoter := on_cancel_sent sd (en_quoter e), en_diag_requotes := en_diag_requotes e + 1 \<rparr>,
      CancelOrder sd order_id)"

fun apply_actions :: "quote_action list \<Rightarrow> engine \<Rightarrow> engine \<times> executor_command list" where
  "apply_actions [] e = (e, [])"
| "apply_actions (a # as) e =
     (let (e1, c) = apply_action a e; (e2, cs) = apply_actions as e1 in (e2, c # cs))"

definition opt_list :: "'a option \<Rightarrow> 'a list" where
  "opt_list v = (case v of None \<Rightarrow> [] | Some x \<Rightarrow> [x])"

definition taker_will_handle :: "engine \<Rightarrow> bool" where
  "taker_will_handle e \<longleftrightarrow> rk_rebalance_threshold (en_risk e)
     \<le> \<bar>total_shares (yes_pos (en_position e)) - total_shares (no_pos (en_position e))\<bar>"

text \<open>
  The computations the code does once for YES and once for NO: the target price, whether it can
  be posted, and the decision of the quoter.
\<close>

definition side_fair_value :: "'a lib_scheme \<Rightarrow> market_side \<Rightarrow> engine \<Rightarrow> dec" where
  "side_fair_value L sd e = (case sd of Yes \<Rightarrow> yes_fair_value L (en_fv e) | No \<Rightarrow> no_fair_value L (en_fv e))"

definition side_target :: "'a lib_scheme \<Rightarrow> market_side \<Rightarrow> engine \<Rightarrow> dec" where
  "side_target L sd e = (let base_edge = fv_edge L (en_fv e) in
     round_to_tick L (case sd of Yes \<Rightarrow> yes_target_price L base_edge (en_fv e)
        | No \<Rightarrow> no_target_price L base_edge (en_fv e)) (tick_size (en_state e)))"

definition side_postable :: "'a lib_scheme \<Rightarrow> market_side \<Rightarrow> bool \<Rightarrow> dec \<Rightarrow> dec \<Rightarrow> engine \<Rightarrow> bool" where
  "side_postable L sd book_ok min_extreme max_extreme e =
     is_postable book_ok (side_target L sd e) min_extreme max_extreme (book_ask (side_book sd (en_state e)))"

definition side_lagging :: "market_side \<Rightarrow> engine \<Rightarrow> bool" where
  "side_lagging sd e = (let p = en_position e; imbalance = total_shares (yes_pos p) - total_shares (no_pos p) in
     case sd of Yes \<Rightarrow> imbalance < 0 | No \<Rightarrow> 0 < imbalance)"

definition side_action :: "'a lib_scheme \<Rightarrow> market_side \<Rightarrow> bool \<Rightarrow> string \<Rightarrow> engine \<Rightarrow> quote_action option" where
  "side_action L sd postable tok e =
     (if postable \<and> \<not> (side_lagging sd e \<and> taker_will_handle e)
      then evaluate_side L (en_quoter e) sd (side_target L sd e) (side_fair_value L sd e)
             (unwrap_or (book_ask (side_book sd (en_state e))) 1) (side_lagging sd e) tok
             (en_position e) (en_quoting e) (en_risk e)
      else None)"

text \<open>
  The maker part. The first component tells whether the zone cancels return early.
\<close>

definition maker_quotes :: "'a lib_scheme \<Rightarrow> bool \<Rightarrow> bool \<Rightarrow> dec \<Rightarrow> dec \<Rightarrow> string \<Rightarrow> string \<Rightarrow> engine
    \<Rightarrow> bool \<times> engine \<times> executor_command list" where
  "maker_quotes L yes_ok no_ok min_extreme max_extreme yes_token no_token e =
     (let yes_postable = side_postable L Yes yes_ok min_extreme max_extreme e;
          no_postable = side_postable L No no_ok min_extreme max_extreme e;
          (q1, c1) = zone_cancel Yes yes_postable (en_quoter e);
          (q2, c2) = zone_cancel No no_postable q1;
          e1 = e\<lparr> en_quoter := q2 \<rparr>
      in if c1 @ c2 \<noteq> [] then (True, e1, c1 @ c2)
         else let a1 = side_action L Yes yes_postable yes_token e1;
                  a2 = side_action L No no_postable no_token e1;
                  (e2, cs) = apply_actions (opt_list a1 @ opt_list a2) e1
              in (False, e2, cs))"

text \<open>The taker part buys the lagging side at its best ask.\<close>

definition rebalance_side :: "engine \<Rightarrow> market_side" where
  "rebalance_side e =
     (if 0 < total_shares (yes_pos (en_position e)) - total_shares (no_pos (en_position e)) then No else Yes)"

definition rebalance_size_of :: "engine \<Rightarrow> dec" where
  "rebalance_size_of e =
     (let abs_imbalance = \<bar>total_shares (yes_pos (en_position e)) - total_shares (no_pos (en_position e))\<bar>
      in max (min (rk_rebalance_size (en_risk e)) abs_imbalance) (dnew 5 0))"

definition rebalance_feasible :: "'a lib_scheme \<Rightarrow> market_side \<Rightarrow> dec \<Rightarrow> engine \<Rightarrow> bool" where
  "rebalance_feasible L sd ask e \<longleftrightarrow>
     (let other_avg = avg_price L (pos_side (opposite sd) (en_position e));
          pair_cost = other_avg + ask;
          max_rebal_cost = unwrap_or (d_of_f64 L (rk_rebalance_max_pair_cost (en_risk e))) (dnew 96 2)
      in pair_cost \<le> max_rebal_cost \<and> 1 \<le> rebalance_size_of e * ask)"

definition taker_rebalance :: "'a lib_scheme \<Rightarrow> string \<Rightarrow> string \<Rightarrow> engine \<Rightarrow> engine \<times> executor_command list" where
  "taker_rebalance L yes_token no_token e =
     (if taker_will_handle e \<and> \<not> en_pending_rebalance e then
        (let sd = rebalance_side e; tok = (case sd of Yes \<Rightarrow> yes_token | No \<Rightarrow> no_token)
         in case book_ask (side_book sd (en_state e)) of
            None \<Rightarrow> (e, [])
          | Some ask \<Rightarrow>
              if rebalance_feasible L sd ask e then
                (let (q, c) = zone_cancel sd False (en_quoter e)
                 in (e\<lparr> en_quoter := q, en_pending_rebalance := True,
                        en_diag_rebalances := en_diag_rebalances e + 1 \<rparr>,
                     c @ [RebalanceTaker sd tok ask (rebalance_size_of e)]))
              else (e, []))
      else (e, []))"

text \<open>The buildup guard cancels the resting orders while it is dark.\<close>

definition buildup_step :: "u64 \<Rightarrow> engine \<Rightarrow> bool \<times> engine" where
  "buildup_step now e =
     (let (dark, e1) = check_buildup_guard now e in
      if dark then
        (let (q, cs) = send_cancels (cancel_all_actions (en_quoter e1)) (en_quoter e1)
         in (True, e1\<lparr> en_quoter := q, en_pending_commands := en_pending_commands e1 @ cs \<rparr>))
      else (False, e1))"

definition quote_sides :: "'a lib_scheme \<Rightarrow> u64 \<Rightarrow> bool \<Rightarrow> bool \<Rightarrow> dec \<Rightarrow> dec \<Rightarrow> engine
    \<Rightarrow> engine \<times> executor_command list" where
  "quote_sides L now yes_ok no_ok min_extreme max_extreme e =
     (let (dark, e2) = buildup_step now e in
      case (active_yes_token_id (en_state e2), active_no_token_id (en_state e2)) of
          (Some yes_token, Some no_token) \<Rightarrow>
            (let (early, e3, cs) = (if dark then (False, e2, [])
                   else maker_quotes L yes_ok no_ok min_extreme max_extreme yes_token no_token e2)
             in if early then (e3, cs)
                else let (e4, cs') = taker_rebalance L yes_token no_token e3 in (e4, cs @ cs'))
        | _ \<Rightarrow> (e2, []))"

definition quote_tick :: "'a lib_scheme \<Rightarrow> u64 \<Rightarrow> engine \<Rightarrow> engine \<times> executor_command list" where
  "quote_tick L now e =
     (if \<not> quote_gate now e then (e, [])
      else let stale_ms = rk_stale_book_ms (en_risk e);
               yes_ok = book_healthy stale_ms now (poly_yes_book (en_state e));
               no_ok = book_healthy stale_ms now (poly_no_book (en_state e))
      in if \<not> yes_ok \<and> \<not> no_ok then (e, [])
      else let v = risk_view_of L now e;
               e1 = push_risk_record L now v (e\<lparr> en_last_risk := vw_risk v \<rparr>);
               max_extreme = unwrap_or (d_of_f64 L (vw_dynamic_max v)) (dnew 78 2);
               min_extreme = 1 - max_extreme;
               fv_check = yes_fair_value L (en_fv e1)
      in if max_extreme < fv_check \<or> fv_check < min_extreme then (e1, [])
      else quote_sides L now yes_ok no_ok min_extreme max_extreme e1)"

section \<open>Control\<close>

definition take_pending_commands :: "engine \<Rightarrow> executor_command list \<times> engine" where
  "take_pending_commands e = (en_pending_commands e, e\<lparr> en_pending_commands := [] \<rparr>)"

definition take_tick_size_change :: "engine \<Rightarrow> executor_command option \<times> engine" where
  "take_tick_size_change e = (en_pending_tick_change e, e\<lparr> en_pending_tick_change := None \<rparr>)"

definition set_draining :: "engine \<Rightarrow> engine" where
  "set_draining e = e\<lparr> en_draining := True \<rparr>"

definition set_paused :: "bool \<Rightarrow> engine \<Rightarrow> executor_command list \<times> engine" where
  "set_paused p e =
     (let e1 = e\<lparr> en_paused := p \<rparr> in
      if p then (let (q, cs) = send_cancels (cancel_all_actions (en_quoter e1)) (en_quoter e1)
                 in (cs, e1\<lparr> en_quoter := q \<rparr>))
      else ([], e1))"

definition has_no_open_position :: "engine \<Rightarrow> bool" where
  "has_no_open_position e \<longleftrightarrow> \<not> has_resting_orders (en_quoter e)
     \<and> \<not> is_pending Yes (en_quoter e) \<and> \<not> is_pending No (en_quoter e)"

section \<open>Diagnostics and pending output\<close>

definition show_level :: "'a lib_scheme \<Rightarrow> price_level option \<Rightarrow> string" where
  "show_level L l = unwrap_or (map_option (\<lambda>x. d_fmt L 3 (pl_price x)) l) ''-''"

definition diagnostic_text :: "'a lib_scheme \<Rightarrow> u64 \<Rightarrow> engine \<Rightarrow> string" where
  "diagnostic_text L now e =
     (let p = en_position e; s = en_state e;
          config_max = qc_max_fair_value_extremity (en_quoting e);
          dyn_max = fadd (flit (1 / 2)) (fmul (fsub config_max (flit (1 / 2))) (fsub (flit 1) (en_last_risk e)));
          bid = (\<lambda>b. show_level L (Option.bind b ob_best_bid)); ask = (\<lambda>b. show_level L (Option.bind b ob_best_ask))
      in ''v2 60s | phase='' @ phase_name (en_phase e)
        @ '' | yes_fills='' @ show_u32 (en_diag_yes_fills e) @ '' no_fills='' @ show_u32 (en_diag_no_fills e)
        @ '' requotes='' @ show_u32 (en_diag_requotes e) @ '' darkens='' @ show_u32 (en_diag_darkens e)
        @ '' | yes='' @ d_fmt L 2 (total_shares (yes_pos p)) @ '' no='' @ d_fmt L 2 (total_shares (no_pos p))
        @ '' paired='' @ d_fmt L 2 (paired_shares p) @ '' locked=$'' @ d_fmt L 2 (locked_profit L p)
        @ '' deployed=$'' @ d_fmt L 2 (total_capital_deployed p)
        @ '' | fv_yes='' @ d_fmt L 3 (yes_fair_value L (en_fv e)) @ '' fv_no='' @ d_fmt L 3 (no_fair_value L (en_fv e))
        @ '' book_yes='' @ bid (poly_yes_book s) @ ''/'' @ ask (poly_yes_book s)
        @ '' book_no='' @ bid (poly_no_book s) @ ''/'' @ ask (poly_no_book s)
        @ '' edge='' @ d_fmt L 3 (fv_edge L (en_fv e)) @ '' risk='' @ f_fmt L 2 (en_last_risk e)
        @ '' dyn_max='' @ f_fmt L 2 dyn_max @ '' buildup='' @ f_fmt L 3 (buildup_score now e)
        @ (if en_buildup_active e then '' DARK'' else [])
        @ '' | markets='' @ show_u32 (en_diag_markets_traded e))"

definition check_diagnostic :: "'a lib_scheme \<Rightarrow> u64 \<Rightarrow> engine \<Rightarrow> engine" where
  "check_diagnostic L now e =
     (if saturating_sub now (en_diag_last_ms e) < 60000 then e
      else e\<lparr> en_diag_last_ms := now, en_pending_telegram_diag := Some (diagnostic_text L now e),
              en_diag_yes_fills := 0, en_diag_no_fills := 0, en_diag_requotes := 0 \<rparr>)"

definition take_pending_telegram_diag :: "engine \<Rightarrow> string option \<times> engine" where
  "take_pending_telegram_diag e = (en_pending_telegram_diag e, e\<lparr> en_pending_telegram_diag := None \<rparr>)"

definition take_pending_fill_messages :: "engine \<Rightarrow> string list \<times> engine" where
  "take_pending_fill_messages e = (en_pending_fill_messages e, e\<lparr> en_pending_fill_messages := [] \<rparr>)"

definition take_pending_fill_records :: "engine \<Rightarrow> fill_record list \<times> engine" where
  "take_pending_fill_records e = (en_pending_fill_records e, e\<lparr> en_pending_fill_records := [] \<rparr>)"

definition take_pending_market_summary :: "engine \<Rightarrow> market_summary_record option \<times> engine" where
  "take_pending_market_summary e = (en_pending_market_summary e, e\<lparr> en_pending_market_summary := None \<rparr>)"

definition take_pending_risk_records :: "engine \<Rightarrow> risk_score_record list \<times> engine" where
  "take_pending_risk_records e = (en_pending_risk_records e, e\<lparr> en_pending_risk_records := [] \<rparr>)"

definition take_pending_market_report :: "engine \<Rightarrow> string option \<times> engine" where
  "take_pending_market_report e = (en_pending_market_report e, e\<lparr> en_pending_market_report := None \<rparr>)"

definition take_pending_session_summary :: "engine \<Rightarrow> string option \<times> engine" where
  "take_pending_session_summary e = (en_pending_session_summary e, e\<lparr> en_pending_session_summary := None \<rparr>)"

end
