(* ===== verification/StrategyProtocol.thy ===== *)
theory StrategyProtocol
  imports Strategy
begin

text \<open>
  The conversation between the strategy engine and the executor. \<open>sys_step\<close> is a step of the
  engine together with the commands it has issued and the executor has not answered yet; the
  invariant says that per side at most one post or cancel is open at any time, that no order is
  posted while another rests, and that at most one taker rebalance is open. Market rotation
  resets the quoter without waiting for open answers, so it is not a step of this relation;
  what a late answer does then is shown at the end.
\<close>

section \<open>The quoter per side\<close>

definition pending_post :: "market_side \<Rightarrow> quoter \<Rightarrow> bool" where
  "pending_post sd q = (case sd of Yes \<Rightarrow> yes_pending_post q | No \<Rightarrow> no_pending_post q)"

definition pending_cancel :: "market_side \<Rightarrow> quoter \<Rightarrow> bool" where
  "pending_cancel sd q = (case sd of Yes \<Rightarrow> yes_pending_cancel q | No \<Rightarrow> no_pending_cancel q)"

lemmas side_defs = pending_post_def pending_cancel_def q_order_def

lemma is_pending_iff: "is_pending sd q \<longleftrightarrow> pending_cancel sd q \<or> pending_post sd q"
  by (simp add: is_pending_def side_defs split: market_side.splits)

lemma pending_post_updates [simp]:
  "pending_post sd (on_cancel_sent sd' q) = pending_post sd q"
  "pending_post sd (mark_post_pending sd' q) = (sd = sd' \<or> pending_post sd q)"
  "pending_post sd (on_order_posted sd' o1 q) = (sd \<noteq> sd' \<and> pending_post sd q)"
  "pending_post sd (on_order_failed sd' q) = (sd \<noteq> sd' \<and> pending_post sd q)"
  "pending_post sd (on_cancel_result sd' q) = pending_post sd q"
  "pending_post sd (on_fill sd' full q) = pending_post sd q"
  "pending_post sd (snd (record_ws_fill sd' c q)) = pending_post sd q"
  by (cases sd; cases sd';
      simp add: pending_post_def on_cancel_sent_def mark_post_pending_def on_order_posted_def
        on_order_failed_def on_cancel_result_def on_fill_def record_ws_fill_def Let_def split: option.splits)+

lemma pending_cancel_updates [simp]:
  "pending_cancel sd (on_cancel_sent sd' q) = (sd = sd' \<or> pending_cancel sd q)"
  "pending_cancel sd (mark_post_pending sd' q) = pending_cancel sd q"
  "pending_cancel sd (on_order_posted sd' o1 q) = pending_cancel sd q"
  "pending_cancel sd (on_order_failed sd' q) = pending_cancel sd q"
  "pending_cancel sd (on_cancel_result sd' q) = (sd \<noteq> sd' \<and> pending_cancel sd q)"
  "pending_cancel sd (on_fill sd' full q) = pending_cancel sd q"
  "pending_cancel sd (snd (record_ws_fill sd' c q)) = pending_cancel sd q"
  by (cases sd; cases sd';
      simp add: pending_cancel_def on_cancel_sent_def mark_post_pending_def on_order_posted_def
        on_order_failed_def on_cancel_result_def on_fill_def record_ws_fill_def Let_def split: option.splits)+

lemma q_order_updates [simp]:
  "q_order sd (on_cancel_sent sd' q) = q_order sd q"
  "q_order sd (mark_post_pending sd' q) = q_order sd q"
  "q_order sd (on_order_posted sd' o1 q) = (if sd = sd' then Some o1 else q_order sd q)"
  "q_order sd (on_order_failed sd' q) = q_order sd q"
  "q_order sd (on_cancel_result sd' q) = (if sd = sd' then None else q_order sd q)"
  "q_order sd (on_fill sd' full q) = (if full \<and> sd = sd' then None else q_order sd q)"
  by (cases sd; cases sd';
      simp add: q_order_def on_cancel_sent_def mark_post_pending_def on_order_posted_def
        on_order_failed_def on_cancel_result_def on_fill_def Let_def split: option.splits)+

lemma q_order_record_ws_fill [simp]:
  "(q_order sd (snd (record_ws_fill sd' c q)) = None) = (q_order sd q = None)"
  by (cases sd; cases sd'; simp add: q_order_def record_ws_fill_def split: option.splits)

section \<open>Open commands\<close>

fun is_post :: "market_side \<Rightarrow> executor_command \<Rightarrow> bool" where
  "is_post sd (PostOrder sd' tok price sz) = (sd = sd')"
| "is_post sd c = False"

fun is_cancel :: "market_side \<Rightarrow> executor_command \<Rightarrow> bool" where
  "is_cancel sd (CancelOrder sd' order_id) = (sd = sd')"
| "is_cancel sd c = False"

fun is_rebalance :: "executor_command \<Rightarrow> bool" where
  "is_rebalance (RebalanceTaker sd tok price sz) = True"
| "is_rebalance c = False"

definition num :: "('a \<Rightarrow> bool) \<Rightarrow> 'a list \<Rightarrow> nat" where
  "num P xs = length (filter P xs)"

lemma num_simps [simp]:
  "num P [] = 0" "num P (x # xs) = (if P x then 1 else 0) + num P xs" "num P (xs @ ys) = num P xs + num P ys"
  by (simp_all add: num_def)

text \<open>The flags of the quoter count the open commands of each side.\<close>

definition flags_ok :: "quoter \<Rightarrow> executor_command list \<Rightarrow> bool" where
  "flags_ok q cs \<longleftrightarrow> (\<forall>sd. num (is_post sd) cs = of_bool (pending_post sd q)
     \<and> num (is_cancel sd) cs = of_bool (pending_cancel sd q)
     \<and> (pending_post sd q \<longrightarrow> q_order sd q = None \<and> \<not> pending_cancel sd q))"

lemma flags_ok_cancel:
  assumes "flags_ok q cs" and "q_order sd q \<noteq> None" and "\<not> pending_cancel sd q"
  shows "flags_ok (on_cancel_sent sd q) (cs @ [CancelOrder sd order_id])"
  using assms by (auto simp: flags_ok_def)

lemma flags_ok_post:
  assumes "flags_ok q cs" and "q_order sd q = None" and "\<not> is_pending sd q"
  shows "flags_ok (mark_post_pending sd q) (cs @ [PostOrder sd tok price sz])"
  using assms by (auto simp: flags_ok_def is_pending_iff)

lemma flags_ok_perm: "flags_ok q cs \<Longrightarrow> mset cs = mset cs' \<Longrightarrow> flags_ok q cs'"
proof -
  assume a: "flags_ok q cs" and m: "mset cs = mset cs'"
  have "num P cs = num P cs'" for P unfolding num_def by (metis m mset_filter size_mset)
  with a show ?thesis by (simp add: flags_ok_def)
qed

text \<open>The sources of cancels: each names a side with a resting order and no cancel open.\<close>

lemma cancel_side_actionD:
  "cancel_side_action sd q = Some (QCancel sd' i) \<Longrightarrow>
     sd' = sd \<and> (\<exists>o1. q_order sd q = Some o1 \<and> i = mo_order_id o1) \<and> \<not> pending_cancel sd q"
  by (cases sd) (auto simp: cancel_side_action_def side_defs split: if_splits)

lemma cancel_side_action_not_post: "cancel_side_action sd q \<noteq> Some (QPost sd' tok price sz)"
  by (cases sd) (auto simp: cancel_side_action_def)

lemma flags_ok_zone_cancel:
  assumes "flags_ok q cs" and "zone_cancel sd ok q = (q', c)"
  shows "flags_ok q' (cs @ c)"
  using assms cancel_side_actionD [of sd q]
  by (auto simp: zone_cancel_def intro!: flags_ok_cancel split: if_splits option.splits quote_action.splits)

text \<open>Cancelling everything is cancelling one side after the other.\<close>

lemma cancel_all_zone:
  "send_cancels (cancel_all_actions q) q =
     (let (q1, c1) = zone_cancel Yes False q; (q2, c2) = zone_cancel No False q1 in (q2, c1 @ c2))"
  by (cases "yes_order q"; cases "no_order q"; cases "yes_pending_cancel q"; cases "no_pending_cancel q")
    (simp_all add: cancel_all_actions_def zone_cancel_def cancel_side_action_def on_cancel_sent_def)

lemma flags_ok_cancel_all:
  assumes "flags_ok q cs" and "send_cancels (cancel_all_actions q) q = (q', c)"
  shows "flags_ok q' (cs @ c)"
proof -
  obtain q1 c1 where 1: "zone_cancel Yes False q = (q1, c1)" by fastforce
  obtain q2 c2 where 2: "zone_cancel No False q1 = (q2, c2)" by fastforce
  from assms(2) 1 2 have "q' = q2" "c = c1 @ c2" by (simp_all add: cancel_all_zone)
  with flags_ok_zone_cancel [OF flags_ok_zone_cancel [OF assms(1) 1] 2] show ?thesis by simp
qed

text \<open>A decision of the quoter is safe to carry out.\<close>

lemma evaluate_side_safe:
  assumes "evaluate_side L q sd target fv ask lag tok p qc rk = Some a"
  shows "\<not> is_pending sd q \<and> (case a of
      QPost sd' tok' price sz \<Rightarrow> sd' = sd \<and> q_order sd q = None \<and> price = target \<and> tok' = tok
    | QCancel sd' i \<Rightarrow> sd' = sd \<and> q_order sd q \<noteq> None)"
  using assms by (auto simp: evaluate_side_def quote_fresh_def quote_resting_def Let_def split: if_splits option.splits)

lemma flags_ok_apply_action:
  assumes "flags_ok (en_quoter e) cs" and "apply_action a e = (e', c)" and "\<not> is_pending sd (en_quoter e)"
    and "case a of QPost sd' tok' price sz \<Rightarrow> sd' = sd \<and> q_order sd (en_quoter e) = None
      | QCancel sd' i \<Rightarrow> sd' = sd \<and> q_order sd (en_quoter e) \<noteq> None"
  shows "flags_ok (en_quoter e') (cs @ [c])"
  using assms by (cases a) (auto simp: is_pending_iff intro!: flags_ok_post flags_ok_cancel)

lemma apply_action_other:
  assumes "apply_action a e = (e', c)" and "case a of QPost sd' tok' price sz \<Rightarrow> sd' \<noteq> sd | QCancel sd' i \<Rightarrow> sd' \<noteq> sd"
  shows "is_pending sd (en_quoter e') = is_pending sd (en_quoter e)
    \<and> q_order sd (en_quoter e') = q_order sd (en_quoter e)"
  using assms by (cases a) (auto simp: is_pending_iff)

section \<open>The invariant of the engine\<close>

definition eng_inv :: "engine \<Rightarrow> executor_command list \<Rightarrow> bool" where
  "eng_inv e cs \<longleftrightarrow> flags_ok (en_quoter e) cs \<and> num is_rebalance cs = of_bool (en_pending_rebalance e)"

lemma eng_inv_perm: "eng_inv e cs \<Longrightarrow> mset cs = mset cs' \<Longrightarrow> eng_inv e cs'"
  unfolding eng_inv_def num_def by (metis flags_ok_perm mset_filter size_mset)

lemma zone_cancel_cmds:
  "zone_cancel sd ok q = (q', c) \<Longrightarrow> num is_rebalance c = 0 \<and> (\<forall>x \<in> set c. \<exists>i. x = CancelOrder sd i)"
  using cancel_side_actionD [of sd q]
  by (auto simp: zone_cancel_def split: if_splits option.splits quote_action.splits)

lemma apply_action_rebalance:
  "apply_action a e = (e', c) \<Longrightarrow> \<not> is_rebalance c \<and> en_pending_rebalance e' = en_pending_rebalance e
     \<and> en_pending_commands e' = en_pending_commands e"
  by (cases a) auto

lemma eng_inv_apply:
  assumes "eng_inv e cs" and "apply_action a e = (e', c)" and "\<not> is_pending sd (en_quoter e)"
    and "case a of QPost sd' tok' price sz \<Rightarrow> sd' = sd \<and> q_order sd (en_quoter e) = None
      | QCancel sd' i \<Rightarrow> sd' = sd \<and> q_order sd (en_quoter e) \<noteq> None"
  shows "eng_inv e' (cs @ [c])"
  using assms apply_action_rebalance [OF assms(2)] flags_ok_apply_action [OF _ assms(2,3,4)]
  by (simp add: eng_inv_def)

lemma eng_inv_two_sides:
  assumes inv: "eng_inv e cs" and app: "apply_actions (opt_list a1 @ opt_list a2) e = (e', c)"
    and a1: "\<And>a. a1 = Some a \<Longrightarrow> \<not> is_pending Yes (en_quoter e) \<and> (case a of
      QPost sd' tok' price sz \<Rightarrow> sd' = Yes \<and> q_order Yes (en_quoter e) = None
    | QCancel sd' i \<Rightarrow> sd' = Yes \<and> q_order Yes (en_quoter e) \<noteq> None)"
    and a2: "\<And>a. a2 = Some a \<Longrightarrow> \<not> is_pending No (en_quoter e) \<and> (case a of
      QPost sd' tok' price sz \<Rightarrow> sd' = No \<and> q_order No (en_quoter e) = None
    | QCancel sd' i \<Rightarrow> sd' = No \<and> q_order No (en_quoter e) \<noteq> None)"
  shows "eng_inv e' (cs @ c) \<and> en_pending_commands e' = en_pending_commands e"
proof (cases a1)
  case None
  show ?thesis
  proof (cases a2)
    case None
    with \<open>a1 = None\<close> app inv show ?thesis by (simp add: opt_list_def)
  next
    case (Some b)
    obtain x where x: "apply_action b e = (e', x)" "c = [x]"
      using app Some \<open>a1 = None\<close> by (auto simp: opt_list_def split: prod.splits)
    have "eng_inv e' (cs @ [x])" by (rule eng_inv_apply [OF inv x(1)]) (use a2 [OF Some] in auto)
    then show ?thesis using x apply_action_rebalance [OF x(1)] by simp
  qed
next
  case (Some a)
  obtain e1 x where x: "apply_action a e = (e1, x)" by fastforce
  have 1: "eng_inv e1 (cs @ [x])" by (rule eng_inv_apply [OF inv x]) (use a1 [OF Some] in auto)
  show ?thesis
  proof (cases a2)
    case None
    with Some app x 1 apply_action_rebalance [OF x] show ?thesis by (simp add: opt_list_def)
  next
    case (Some b)
    obtain y where y: "apply_action b e1 = (e', y)" "c = [x, y]"
      using app x Some \<open>a1 = Some a\<close> by (auto simp: opt_list_def split: prod.splits)
    have o: "is_pending No (en_quoter e1) = is_pending No (en_quoter e)"
      "q_order No (en_quoter e1) = q_order No (en_quoter e)"
      using apply_action_other [OF x, of No] a1 [OF \<open>a1 = Some a\<close>] by (auto split: quote_action.splits)
    have "eng_inv e' ((cs @ [x]) @ [y])"
      by (rule eng_inv_apply [OF 1 y(1), of No]) (use a2 [OF Some] o in \<open>auto split: quote_action.splits\<close>)
    then show ?thesis using y apply_action_rebalance [OF x] apply_action_rebalance [OF y(1)] by simp
  qed
qed

lemma side_action_Some:
  "side_action L sd ok tok e = Some a \<Longrightarrow> evaluate_side L (en_quoter e) sd (side_target L sd e)
     (side_fair_value L sd e) (unwrap_or (book_ask (side_book sd (en_state e))) 1) (side_lagging sd e) tok
     (en_position e) (en_quoting e) (en_risk e) = Some a"
  by (simp add: side_action_def split: if_splits)

lemma side_action_safe:
  "side_action L sd ok tok e = Some a \<Longrightarrow> \<not> is_pending sd (en_quoter e) \<and> (case a of
      QPost sd' tok' price sz \<Rightarrow> sd' = sd \<and> q_order sd (en_quoter e) = None
    | QCancel sd' i \<Rightarrow> sd' = sd \<and> q_order sd (en_quoter e) \<noteq> None)"
  by (drule evaluate_side_safe [OF side_action_Some]) (auto split: quote_action.splits)

lemma eng_inv_maker:
  assumes inv: "eng_inv e cs" and m: "maker_quotes L yok nok mn mx ytok ntok e = (early, e', c)"
  shows "eng_inv e' (cs @ c) \<and> en_pending_commands e' = en_pending_commands e"
proof -
  let ?yp = "side_postable L Yes yok mn mx e" and ?np = "side_postable L No nok mn mx e"
  obtain q1 c1 where 1: "zone_cancel Yes ?yp (en_quoter e) = (q1, c1)" by fastforce
  obtain q2 c2 where 2: "zone_cancel No ?np q1 = (q2, c2)" by fastforce
  define e1 where "e1 = e\<lparr> en_quoter := q2 \<rparr>"
  have f: "flags_ok q2 ((cs @ c1) @ c2)"
    using flags_ok_zone_cancel [OF flags_ok_zone_cancel [OF _ 1] 2] inv by (simp add: eng_inv_def)
  have inv1: "eng_inv e1 (cs @ c1 @ c2)"
    using f inv zone_cancel_cmds [OF 1] zone_cancel_cmds [OF 2] by (simp add: eng_inv_def e1_def)
  let ?a1 = "side_action L Yes ?yp ytok e1" and ?a2 = "side_action L No ?np ntok e1"
  obtain e2 d where d: "apply_actions (opt_list ?a1 @ opt_list ?a2) e1 = (e2, d)" by fastforce
  show ?thesis
  proof (cases "c1 @ c2 = []")
    case False
    with m 1 2 have "e' = e1" "c = c1 @ c2" by (auto simp: maker_quotes_def e1_def Let_def)
    with inv1 show ?thesis by (simp add: e1_def)
  next
    case True
    with m 1 2 d have "e' = e2" "c = d" by (auto simp: maker_quotes_def e1_def Let_def)
    moreover have "eng_inv e2 (cs @ d) \<and> en_pending_commands e2 = en_pending_commands e1"
      by (rule eng_inv_two_sides [OF _ d]) (use inv1 True side_action_safe in simp_all)
    ultimately show ?thesis by (simp add: e1_def)
  qed
qed

lemma taker_rebalance_cases:
  assumes "taker_rebalance L ytok ntok e = (e', c)"
  obtains "e' = e" "c = []"
  | ask q d where "taker_will_handle e" "\<not> en_pending_rebalance e"
      "book_ask (side_book (rebalance_side e) (en_state e)) = Some ask"
      "rebalance_feasible L (rebalance_side e) ask e"
      "zone_cancel (rebalance_side e) False (en_quoter e) = (q, d)"
      "e' = e\<lparr> en_quoter := q, en_pending_rebalance := True, en_diag_rebalances := en_diag_rebalances e + 1 \<rparr>"
      "c = d @ [RebalanceTaker (rebalance_side e) (case rebalance_side e of Yes \<Rightarrow> ytok | No \<Rightarrow> ntok) ask
         (rebalance_size_of e)]"
proof (cases "taker_will_handle e \<and> \<not> en_pending_rebalance e")
  case False
  with assms that(1) show ?thesis by (simp add: taker_rebalance_def)
next
  case True
  obtain q d where z: "zone_cancel (rebalance_side e) False (en_quoter e) = (q, d)" by fastforce
  show ?thesis
  proof (cases "book_ask (side_book (rebalance_side e) (en_state e))")
    case None
    with assms that(1) True show ?thesis by (simp add: taker_rebalance_def Let_def)
  next
    case (Some ask)
    show ?thesis
    proof (cases "rebalance_feasible L (rebalance_side e) ask e")
      case False
      with assms that(1) True Some show ?thesis by (simp add: taker_rebalance_def Let_def)
    next
      case T: True
      with assms True Some z that(2) [OF _ _ Some T z] show ?thesis by (simp add: taker_rebalance_def Let_def)
    qed
  qed
qed

lemma eng_inv_rebalance:
  assumes inv: "eng_inv e cs" and r: "taker_rebalance L ytok ntok e = (e', c)"
  shows "eng_inv e' (cs @ c) \<and> en_pending_commands e' = en_pending_commands e"
  using r
proof (cases rule: taker_rebalance_cases)
  case 1
  with inv show ?thesis by simp
next
  case (2 ask q d)
  have "flags_ok q (cs @ d)" by (rule flags_ok_zone_cancel [OF _ 2(5)]) (use inv in \<open>simp add: eng_inv_def\<close>)
  then have "flags_ok q (cs @ c)" by (simp add: 2 flags_ok_def)
  then show ?thesis using inv 2 zone_cancel_cmds [OF 2(5)] by (simp add: eng_inv_def)
qed

lemma check_buildup_guard_frame:
  "check_buildup_guard now e = (dark, e') \<Longrightarrow> en_quoter e' = en_quoter e \<and> en_pending_commands e' = en_pending_commands e
     \<and> en_pending_rebalance e' = en_pending_rebalance e \<and> en_state e' = en_state e \<and> en_fv e' = en_fv e
     \<and> en_position e' = en_position e \<and> en_risk e' = en_risk e \<and> en_quoting e' = en_quoting e
     \<and> dark = en_buildup_active e' \<and> en_phase e' = en_phase e"
  by (auto simp: check_buildup_guard_def Let_def split: if_splits)

lemma buildup_step_frame:
  "buildup_step now e = (dark, e2) \<Longrightarrow> en_pending_rebalance e2 = en_pending_rebalance e
     \<and> en_state e2 = en_state e \<and> en_fv e2 = en_fv e \<and> en_position e2 = en_position e
     \<and> en_risk e2 = en_risk e \<and> en_quoting e2 = en_quoting e \<and> dark = en_buildup_active e2
     \<and> (\<not> dark \<longrightarrow> en_quoter e2 = en_quoter e \<and> en_pending_commands e2 = en_pending_commands e)"
  using check_buildup_guard_frame [of now e]
  by (auto simp: buildup_step_def Let_def split: prod.splits if_splits)

lemma eng_inv_buildup:
  assumes inv: "eng_inv e (cs @ en_pending_commands e)" and b: "buildup_step now e = (dark, e2)"
  shows "eng_inv e2 (cs @ en_pending_commands e2)"
proof -
  obtain dk e1 where 1: "check_buildup_guard now e = (dk, e1)" by fastforce
  obtain q d where d: "send_cancels (cancel_all_actions (en_quoter e1)) (en_quoter e1) = (q, d)" by fastforce
  have inv1: "eng_inv e1 (cs @ en_pending_commands e1)"
    using inv check_buildup_guard_frame [OF 1] by (simp add: eng_inv_def)
  show ?thesis
  proof (cases dk)
    case True
    have "flags_ok q ((cs @ en_pending_commands e1) @ d)"
      by (rule flags_ok_cancel_all [OF _ d]) (use inv1 in \<open>simp add: eng_inv_def\<close>)
    moreover have "num is_rebalance d = 0"
      using d zone_cancel_cmds by (fastforce simp: cancel_all_zone split: prod.splits)
    moreover have "e2 = e1\<lparr> en_quoter := q, en_pending_commands := en_pending_commands e1 @ d \<rparr>"
      using b 1 d True by (simp add: buildup_step_def)
    ultimately show ?thesis using inv1 by (simp add: eng_inv_def)
  next
    case False
    with b 1 inv1 show ?thesis by (simp add: buildup_step_def)
  qed
qed

lemma quote_sides_cases:
  assumes "quote_sides L now yok nok mn mx e = (e', c)"
  obtains dark where "buildup_step now e = (dark, e')" "c = []"
  | e2 yt nt where "buildup_step now e = (False, e2)" "active_yes_token_id (en_state e2) = Some yt"
      "active_no_token_id (en_state e2) = Some nt" "maker_quotes L yok nok mn mx yt nt e2 = (True, e', c)"
  | dark e2 yt nt e3 c3 c4 where "buildup_step now e = (dark, e2)" "active_yes_token_id (en_state e2) = Some yt"
      "active_no_token_id (en_state e2) = Some nt"
      "if dark then e3 = e2 \<and> c3 = [] else maker_quotes L yok nok mn mx yt nt e2 = (False, e3, c3)"
      "taker_rebalance L yt nt e3 = (e', c4)" "c = c3 @ c4"
proof -
  obtain dark e2 where 1: "buildup_step now e = (dark, e2)" by fastforce
  show ?thesis
  proof (cases "active_yes_token_id (en_state e2) = None \<or> active_no_token_id (en_state e2) = None")
    case True
    then have "e' = e2" "c = []" using assms 1 by (auto simp: quote_sides_def split: option.splits)
    with 1 that(1) show ?thesis by simp
  next
    case False
    then obtain yt nt where tok: "active_yes_token_id (en_state e2) = Some yt" "active_no_token_id (en_state e2) = Some nt"
      by auto
    obtain early e3 c3 where 3: "(if dark then (False, e2, []) else maker_quotes L yok nok mn mx yt nt e2) = (early, e3, c3)"
      by (cases "if dark then (False, e2, []) else maker_quotes L yok nok mn mx yt nt e2")
    obtain e4 c4 where 4: "taker_rebalance L yt nt e3 = (e4, c4)" by fastforce
    have r: "(if early then (e3, c3) else (e4, c3 @ c4)) = (e', c)"
      using assms unfolding quote_sides_def 1 Let_def prod.case tok option.case 3 4 by simp
    show ?thesis
    proof (cases early)
      case True
      with 3 have "\<not> dark" by (cases dark) auto
      with True 3 r 1 tok that(2) show ?thesis by simp
    next
      case F: False
      have "if dark then e3 = e2 \<and> c3 = [] else maker_quotes L yok nok mn mx yt nt e2 = (False, e3, c3)"
        using 3 F by (cases dark) auto
      from that(3) [OF 1 tok this] 4 r F show ?thesis by simp
    qed
  qed
qed

lemma eng_inv_sides:
  assumes inv: "eng_inv e (cs @ en_pending_commands e)"
    and t: "quote_sides L now yok nok mn mx e = (e', c)"
  shows "eng_inv e' (cs @ c @ en_pending_commands e')"
  using t
proof (cases rule: quote_sides_cases)
  case (1 dark)
  with eng_inv_buildup [OF inv 1(1)] show ?thesis by simp
next
  case (2 e2 yt nt)
  from eng_inv_maker [OF eng_inv_buildup [OF inv 2(1)] 2(4)]
  show ?thesis by (auto elim!: eng_inv_perm)
next
  case (3 dark e2 yt nt e3 c3 c4)
  have "eng_inv e3 ((cs @ en_pending_commands e2) @ c3) \<and> en_pending_commands e3 = en_pending_commands e2"
  proof (cases dark)
    case True
    with 3(4) eng_inv_buildup [OF inv 3(1)] show ?thesis by simp
  next
    case False
    with 3(4) have "maker_quotes L yok nok mn mx yt nt e2 = (False, e3, c3)" by simp
    from eng_inv_maker [OF eng_inv_buildup [OF inv 3(1)] this] show ?thesis .
  qed
  with eng_inv_rebalance [OF conjunct1 [OF this] 3(5)] 3(6) show ?thesis by (auto elim!: eng_inv_perm)
qed

lemma quote_tick_cases:
  assumes "quote_tick L now e = (e', c)"
  obtains "e' = e" "c = []"
  | "e' = push_risk_record L now (risk_view_of L now e) (e\<lparr> en_last_risk := vw_risk (risk_view_of L now e) \<rparr>)" "c = []"
  | mx e1 yok nok where "quote_gate now e"
      "yok = book_healthy (rk_stale_book_ms (en_risk e)) now (poly_yes_book (en_state e))"
      "nok = book_healthy (rk_stale_book_ms (en_risk e)) now (poly_no_book (en_state e))" "yok \<or> nok"
      "mx = unwrap_or (d_of_f64 L (vw_dynamic_max (risk_view_of L now e))) (dnew 78 2)"
      "e1 = push_risk_record L now (risk_view_of L now e) (e\<lparr> en_last_risk := vw_risk (risk_view_of L now e) \<rparr>)"
      "yes_fair_value L (en_fv e) \<le> mx" "1 - mx \<le> yes_fair_value L (en_fv e)"
      "quote_sides L now yok nok (1 - mx) mx e1 = (e', c)"
proof -
  let ?yok = "book_healthy (rk_stale_book_ms (en_risk e)) now (poly_yes_book (en_state e))"
  let ?nok = "book_healthy (rk_stale_book_ms (en_risk e)) now (poly_no_book (en_state e))"
  let ?e1 = "push_risk_record L now (risk_view_of L now e) (e\<lparr> en_last_risk := vw_risk (risk_view_of L now e) \<rparr>)"
  let ?mx = "unwrap_or (d_of_f64 L (vw_dynamic_max (risk_view_of L now e))) (dnew 78 2)"
  have fv: "en_fv ?e1 = en_fv e" by (simp add: push_risk_record_def)
  consider "\<not> quote_gate now e \<or> \<not> (?yok \<or> ?nok)"
    | "quote_gate now e" "?yok \<or> ?nok" "?mx < yes_fair_value L (en_fv e) \<or> yes_fair_value L (en_fv e) < 1 - ?mx"
    | "quote_gate now e" "?yok \<or> ?nok" "yes_fair_value L (en_fv e) \<le> ?mx" "1 - ?mx \<le> yes_fair_value L (en_fv e)"
    by linarith
  then show ?thesis
  proof cases
    case 1
    with assms that(1) show ?thesis by (cases "quote_gate now e") (auto simp: quote_tick_def Let_def)
  next
    case 2
    then have "(e', c) = (?e1, [])"
      using assms unfolding quote_tick_def Let_def fv by (simp only: if_True if_False simp_thms) auto
    then show ?thesis using that(2) by simp
  next
    case 3
    then have "quote_sides L now ?yok ?nok (1 - ?mx) ?mx ?e1 = (e', c)"
      using assms unfolding quote_tick_def Let_def fv by (auto simp only: if_True if_False simp_thms not_less [symmetric])
    from that(3) [OF 3(1) refl refl 3(2) refl refl 3(3,4) this] show ?thesis .
  qed
qed

lemma push_risk_frame [frame_simps]:
  "eng_inv (push_risk_record L now v (e\<lparr> en_last_risk := r \<rparr>)) xs = eng_inv e xs"
  "en_pending_commands (push_risk_record L now v (e\<lparr> en_last_risk := r \<rparr>)) = en_pending_commands e"
  "en_state (push_risk_record L now v (e\<lparr> en_last_risk := r \<rparr>)) = en_state e"
  "en_fv (push_risk_record L now v (e\<lparr> en_last_risk := r \<rparr>)) = en_fv e"
  "en_quoter (push_risk_record L now v (e\<lparr> en_last_risk := r \<rparr>)) = en_quoter e"
  "en_position (push_risk_record L now v (e\<lparr> en_last_risk := r \<rparr>)) = en_position e"
  "en_risk (push_risk_record L now v (e\<lparr> en_last_risk := r \<rparr>)) = en_risk e"
  "en_quoting (push_risk_record L now v (e\<lparr> en_last_risk := r \<rparr>)) = en_quoting e"
  "en_buildup_active (push_risk_record L now v (e\<lparr> en_last_risk := r \<rparr>)) = en_buildup_active e"
  "en_pending_rebalance (push_risk_record L now v (e\<lparr> en_last_risk := r \<rparr>)) = en_pending_rebalance e"
  by (simp_all add: push_risk_record_def eng_inv_def)

lemma eng_inv_tick:
  assumes inv: "eng_inv e (cs @ en_pending_commands e)" and t: "quote_tick L now e = (e', c)"
  shows "eng_inv e' (cs @ c @ en_pending_commands e')"
  using t
proof (cases rule: quote_tick_cases)
  case 1
  with inv show ?thesis by simp
next
  case 2
  with inv show ?thesis by (simp add: frame_simps)
next
  case (3 mx e1 yok nok)
  show ?thesis by (rule eng_inv_sides [OF _ 3(9)]) (use inv 3(6) in \<open>simp add: frame_simps\<close>)
qed

lemma report_frame [frame_simps]:
  "en_quoter (bump_fills sd e) = en_quoter e" "en_quoter (push_fill_message L sd pr sz tk e) = en_quoter e"
  "en_quoter (push_fill_record L sd pr sz tk fee now e) = en_quoter e"
  "en_position (bump_fills sd e) = en_position e" "en_position (push_fill_message L sd pr sz tk e) = en_position e"
  "en_position (push_fill_record L sd pr sz tk fee now e) = en_position e"
  "en_pending_commands (bump_fills sd e) = en_pending_commands e"
  "en_pending_commands (push_fill_message L sd pr sz tk e) = en_pending_commands e"
  "en_pending_commands (push_fill_record L sd pr sz tk fee now e) = en_pending_commands e"
  "en_pending_rebalance (bump_fills sd e) = en_pending_rebalance e"
  "en_pending_rebalance (push_fill_message L sd pr sz tk e) = en_pending_rebalance e"
  "en_pending_rebalance (push_fill_record L sd pr sz tk fee now e) = en_pending_rebalance e"
  by (simp_all add: bump_fills_def push_fill_message_def push_fill_record_def Let_def split: market_side.splits)

lemma eng_inv_ws_fill:
  "eng_inv e xs \<Longrightarrow> eng_inv (record_ws_delta L sd c now e) xs
     \<and> en_pending_commands (record_ws_delta L sd c now e) = en_pending_commands e"
proof -
  assume inv: "eng_inv e xs"
  obtain d q where q: "record_ws_fill sd c (en_quoter e) = (d, q)" by fastforce
  have p: "pending_post sd' q = pending_post sd' (en_quoter e)" "pending_cancel sd' q = pending_cancel sd' (en_quoter e)"
    "(q_order sd' q = None) = (q_order sd' (en_quoter e) = None)" for sd'
    using pending_post_updates(7) [of sd' sd c "en_quoter e"] pending_cancel_updates(7) [of sd' sd c "en_quoter e"]
      q_order_record_ws_fill [of sd' sd c "en_quoter e"] q by simp_all
  have "flags_ok q xs" "\<And>full. flags_ok (on_fill sd full q) xs" using inv p by (auto simp: eng_inv_def flags_ok_def)
  with inv show ?thesis
    unfolding record_ws_delta_def q by (simp add: Let_def eng_inv_def frame_simps)
qed

lemma eng_inv_heartbeat:
  assumes "eng_inv e (cs @ en_pending_commands e)"
  shows "eng_inv (ev_heartbeat ok lat e) (cs @ en_pending_commands (ev_heartbeat ok lat e))"
proof -
  obtain q d where d: "send_cancels (cancel_all_actions (en_quoter e)) (en_quoter e) = (q, d)" by fastforce
  have "flags_ok q ((cs @ en_pending_commands e) @ d)"
    by (rule flags_ok_cancel_all [OF _ d]) (use assms in \<open>simp add: eng_inv_def\<close>)
  moreover have "num is_rebalance d = 0"
    using d zone_cancel_cmds by (fastforce simp: cancel_all_zone split: prod.splits)
  ultimately show ?thesis using assms d by (simp add: ev_heartbeat_def Let_def eng_inv_def)
qed

section \<open>Steps of the conversation\<close>

text \<open>Which feedback answers which command (\<open>src/src/executor/live.rs\<close> sends exactly one per order command).\<close>

fun answers :: "executor_feedback \<Rightarrow> executor_command \<Rightarrow> bool" where
  "answers (OrderPosted sd i pr sz af) c = is_post sd c"
| "answers (OrderFailed sd) c = is_post sd c"
| "answers (CancelResult sd i m) c = is_cancel sd c"
| "answers (RebalanceResult sd f m pr) c = is_rebalance c"

fun is_rotation :: "ingestor_event \<Rightarrow> bool" where
  "is_rotation (EvMarketRotation cid y n end_ms tick) = True"
| "is_rotation ev = False"

text \<open>The engine and the commands sent and not answered; \<open>L\<close> and the times are free.\<close>

inductive sys_step :: "'a lib_scheme \<Rightarrow> engine \<times> executor_command list \<Rightarrow> engine \<times> executor_command list \<Rightarrow> bool"
  for L where
  tick: "quote_tick L now e = (e', cs) \<Longrightarrow> sys_step L (e, out) (e', out @ cs)"
| drain: "take_pending_commands e = (cs, e') \<Longrightarrow> sys_step L (e, out) (e', out @ cs)"
| event: "on_event L now ev e = Good e' \<Longrightarrow> \<not> is_rotation ev \<Longrightarrow> sys_step L (e, out) (e', out)"
| pause: "set_paused b e = (cs, e') \<Longrightarrow> sys_step L (e, out) (e', out @ cs)"
| draining: "sys_step L (e, out) (set_draining e, out)"
| diagnostic: "sys_step L (e, out) (check_diagnostic L now e, out)"
| reply: "answers fb c \<Longrightarrow> sys_step L (e, xs @ c # ys) (on_feedback L now fb e, xs @ ys)"

inductive_cases sys_stepE: "sys_step L s s'"

inductive sys_reach :: "'a lib_scheme \<Rightarrow> engine \<times> executor_command list \<Rightarrow> engine \<times> executor_command list \<Rightarrow> bool"
  for L where
  start: "sys_reach L s s"
| step: "sys_reach L s s' \<Longrightarrow> sys_step L s' s'' \<Longrightarrow> sys_reach L s s''"

definition sys_inv :: "engine \<times> executor_command list \<Rightarrow> bool" where
  "sys_inv s = eng_inv (fst s) (snd s @ en_pending_commands (fst s))"

lemma eng_inv_fv:
  "eng_inv (e\<lparr> en_fv := fv \<rparr>) xs = eng_inv e xs" "eng_inv (e\<lparr> en_state := st \<rparr>) xs = eng_inv e xs"
  "eng_inv (e\<lparr> en_phase := ph \<rparr>) xs = eng_inv e xs" "eng_inv (e\<lparr> en_strike := sp \<rparr>) xs = eng_inv e xs"
  "eng_inv (touch now e) xs = eng_inv e xs"
  "en_pending_commands (touch now e) = en_pending_commands e"
  by (simp_all add: eng_inv_def touch_def)

definition same_talk :: "engine \<Rightarrow> engine \<Rightarrow> bool" where
  "same_talk e e' \<longleftrightarrow> en_quoter e' = en_quoter e \<and> en_pending_commands e' = en_pending_commands e
     \<and> en_pending_rebalance e' = en_pending_rebalance e"

lemma same_talk_inv: "same_talk e e' \<Longrightarrow> eng_inv e' xs = eng_inv e xs"
  by (simp add: same_talk_def eng_inv_def)

lemma same_talk_trans: "same_talk a b \<Longrightarrow> same_talk b c \<Longrightarrow> same_talk a c"
  by (simp add: same_talk_def)

lemma feed_tick_talk: "feed_tick L now mid m e = Good e' \<Longrightarrow> same_talk e e'"
  by (auto simp: feed_tick_def obind_eq_Good same_talk_def touch_def)

lemma strike_step_talk: "strike_step L m e = Good e' \<Longrightarrow> same_talk e e'"
  by (auto simp: strike_step_def obind_eq_Good same_talk_def split: if_splits)

lemma ev_binance_tick_talk: "ev_binance_tick L now t e = Good e' \<Longrightarrow> same_talk e e'"
  unfolding ev_binance_tick_def Let_def obind_eq_Good
  by (elim exE conjE) (rule same_talk_trans [OF feed_tick_talk strike_step_talk])

lemma ev_binance_depth_talk: "ev_binance_depth L now d e = Good e' \<Longrightarrow> same_talk e e'"
  by (auto simp: ev_binance_depth_def obind_eq_Good Let_def same_talk_def touch_def split: option.splits)

lemma ev_others_talk:
  "same_talk e (ev_book now b e)" "same_talk e (ev_best_bid_ask now i bd ak e)" "same_talk e (ev_tick_size tk e)"
  "same_talk e (touch now e)"
  by (simp_all add: same_talk_def ev_book_def ev_best_bid_ask_def ev_tick_size_def touch_def Let_def split: option.splits)

lemma after_event_talk: "after_event L now e = Good e' \<Longrightarrow> same_talk e e'"
  by (auto simp: after_event_def obind_eq_Good same_talk_def Let_def split: if_splits)

lemma handle_event_inv:
  assumes inv: "eng_inv e (cs @ en_pending_commands e)" and h: "handle_event L now ev e = Good e'"
    and r: "\<not> is_rotation ev"
  shows "eng_inv e' (cs @ en_pending_commands e')"
proof -
  have talk: "eng_inv e' (cs @ en_pending_commands e')" if "same_talk e e'"
    using that inv by (simp add: same_talk_inv) (simp add: same_talk_def)
  show ?thesis
  proof (cases ev)
    case (EvTradeStatus i st m sz)
    with h have "e' = e \<or> (\<exists>sd c. e' = record_ws_delta L sd c now e)"
      by (auto simp: on_trade_status_update_def split: if_splits option.splits)
    then show ?thesis
    proof (elim disjE exE)
      fix sd c assume "e' = record_ws_delta L sd c now e"
      with eng_inv_ws_fill [OF inv, of L sd c now] show ?thesis by simp
    qed (use inv in simp)
  next
    case (EvHeartbeat ok lat)
    with h have "e' = ev_heartbeat ok lat e" by simp
    with eng_inv_heartbeat [OF inv, of ok lat] show ?thesis by simp
  next
    case (EvBinanceTick t)
    with h have "ev_binance_tick L now t e = Good e'" by simp
    from talk [OF ev_binance_tick_talk [OF this]] show ?thesis .
  next
    case (EvBinanceDepth d)
    with h have "ev_binance_depth L now d e = Good e'" by simp
    from talk [OF ev_binance_depth_talk [OF this]] show ?thesis .
  qed (use h r talk ev_others_talk in \<open>auto simp: same_talk_def\<close>)
qed

lemma flags_ok_post_answered:
  assumes "flags_ok q (xs @ c # ys)" and "is_post sd c"
  shows "flags_ok (on_order_posted sd o1 q) (xs @ ys)" and "flags_ok (on_order_failed sd q) (xs @ ys)"
proof -
  have c: "is_post sd' c = (sd' = sd)" "\<not> is_cancel sd' c" for sd' using assms(2) by (cases c; auto)+
  have h: "num (is_post sd') xs + (if sd' = sd then 1 else 0) + num (is_post sd') ys = of_bool (pending_post sd' q)"
    "num (is_cancel sd') xs + num (is_cancel sd') ys = of_bool (pending_cancel sd' q)"
    "pending_post sd' q \<Longrightarrow> q_order sd' q = None \<and> \<not> pending_cancel sd' q" for sd'
    using assms(1) [unfolded flags_ok_def, THEN spec, of sd'] by (simp_all add: c)
  have "num (is_post sd') (xs @ ys) = of_bool (sd' \<noteq> sd \<and> pending_post sd' q)" for sd'
    using h(1) [of sd'] by (cases "pending_post sd' q"; cases "sd' = sd") auto
  then show "flags_ok (on_order_posted sd o1 q) (xs @ ys)" "flags_ok (on_order_failed sd q) (xs @ ys)"
    using h(2,3) by (auto simp: flags_ok_def)
qed

lemma flags_ok_cancel_answered:
  assumes "flags_ok q (xs @ c # ys)" and "is_cancel sd c"
  shows "flags_ok (on_cancel_result sd q) (xs @ ys)"
proof -
  have c: "is_cancel sd' c = (sd' = sd)" "\<not> is_post sd' c" for sd' using assms(2) by (cases c; auto)+
  have h: "num (is_post sd') xs + num (is_post sd') ys = of_bool (pending_post sd' q)"
    "num (is_cancel sd') xs + (if sd' = sd then 1 else 0) + num (is_cancel sd') ys = of_bool (pending_cancel sd' q)"
    "pending_post sd' q \<Longrightarrow> q_order sd' q = None \<and> \<not> pending_cancel sd' q" for sd'
    using assms(1) [unfolded flags_ok_def, THEN spec, of sd'] by (simp_all add: c)
  have "num (is_cancel sd') (xs @ ys) = of_bool (sd' \<noteq> sd \<and> pending_cancel sd' q)" for sd'
    using h(2) [of sd'] by (cases "pending_cancel sd' q"; cases "sd' = sd") auto
  then show ?thesis using h(1,3) by (auto simp: flags_ok_def)
qed

lemma flags_ok_other: "flags_ok q (xs @ c # ys) \<Longrightarrow> is_rebalance c \<Longrightarrow> flags_ok q (xs @ ys)"
  by (cases c) (auto simp: flags_ok_def)

lemma fb_frames:
  "en_quoter (fb_order_posted L now sd i pr sz af e) = (if af then on_order_failed sd (en_quoter e)
     else on_order_posted sd (the (q_order sd (en_quoter (fb_order_posted L now sd i pr sz af e)))) (en_quoter e))"
  "en_quoter (fb_cancel_result L now sd i m e) = on_cancel_result sd (en_quoter e)"
  "en_quoter (fb_rebalance_result L now sd b mt pr e) = en_quoter e"
  "en_pending_commands (fb_order_posted L now sd i pr sz af e) = en_pending_commands e"
  "en_pending_commands (fb_cancel_result L now sd i m e) = en_pending_commands e"
  "en_pending_commands (fb_rebalance_result L now sd b mt pr e) = en_pending_commands e"
  "en_pending_rebalance (fb_order_posted L now sd i pr sz af e) = en_pending_rebalance e"
  "en_pending_rebalance (fb_cancel_result L now sd i m e) = en_pending_rebalance e"
  "en_pending_rebalance (fb_rebalance_result L now sd b mt pr e) = False"
  by (auto simp: fb_order_posted_def fb_cancel_result_def fb_rebalance_result_def Let_def frame_simps split: option.splits)

lemma feedback_inv:
  assumes inv: "eng_inv e (xs @ c # ys)" and a: "answers fb c"
  shows "eng_inv (on_feedback L now fb e) (xs @ ys) \<and> en_pending_commands (on_feedback L now fb e) = en_pending_commands e"
proof -
  have f: "flags_ok (en_quoter e) (xs @ c # ys)"
    and r: "num is_rebalance xs + (if is_rebalance c then 1 else 0) + num is_rebalance ys = of_bool (en_pending_rebalance e)"
    using inv by (auto simp: eng_inv_def)
  have n: "is_post sd c \<Longrightarrow> \<not> is_rebalance c" "is_cancel sd c \<Longrightarrow> \<not> is_rebalance c" for sd by (cases c; simp)+
  show ?thesis
  proof (cases fb)
    case (OrderPosted sd i pr sz af)
    with a have p: "is_post sd c" by simp
    have "flags_ok (en_quoter (fb_order_posted L now sd i pr sz af e)) (xs @ ys)"
      using flags_ok_post_answered [OF f p] by (subst fb_frames(1)) simp
    with OrderPosted r n(1) [OF p] show ?thesis by (simp add: eng_inv_def fb_frames(4,7))
  next
    case (OrderFailed sd)
    with a have p: "is_post sd c" by simp
    with OrderFailed r n(1) [OF p] flags_ok_post_answered [OF f p] show ?thesis by (simp add: eng_inv_def)
  next
    case (CancelResult sd i m)
    with a have p: "is_cancel sd c" by simp
    with CancelResult r n(2) [OF p] flags_ok_cancel_answered [OF f p] show ?thesis
      by (simp add: eng_inv_def fb_frames)
  next
    case (RebalanceResult sd b m pr)
    with a have p: "is_rebalance c" by simp
    with r have "num is_rebalance xs = 0 \<and> num is_rebalance ys = 0" by (cases "en_pending_rebalance e") auto
    with RebalanceResult flags_ok_other [OF f p] show ?thesis by (simp add: eng_inv_def fb_frames(3,6,9))
  qed
qed

lemma sys_inv_step: "sys_step L s s' \<Longrightarrow> sys_inv s \<Longrightarrow> sys_inv s'"
proof (induction rule: sys_step.induct)
  case (tick now e e' cs out)
  then show ?case using eng_inv_tick [of e out L now e' cs] by (simp add: sys_inv_def)
next
  case (drain e cs e' out)
  then show ?case by (auto simp: sys_inv_def take_pending_commands_def eng_inv_def)
next
  case (event now ev e e' out)
  then obtain e1 where e1: "handle_event L now ev e = Good e1" "after_event L now e1 = Good e'"
    by (auto simp: on_event_def obind_eq_Good)
  have "eng_inv e1 (out @ en_pending_commands e1)"
    by (rule handle_event_inv [OF _ e1(1)]) (use event in \<open>simp_all add: sys_inv_def\<close>)
  with after_event_talk [OF e1(2)] show ?case
    by (simp add: sys_inv_def same_talk_inv) (simp add: same_talk_def)
next
  case (pause b e cs e' out)
  obtain q d where d: "send_cancels (cancel_all_actions (en_quoter e)) (en_quoter e) = (q, d)" by fastforce
  have "flags_ok q ((out @ en_pending_commands e) @ d)"
    by (rule flags_ok_cancel_all [OF _ d]) (use pause in \<open>simp add: eng_inv_def sys_inv_def\<close>)
  moreover have "num is_rebalance d = 0"
    using d zone_cancel_cmds by (fastforce simp: cancel_all_zone split: prod.splits)
  ultimately have "eng_inv (e\<lparr> en_paused := True, en_quoter := q \<rparr>) ((out @ en_pending_commands e) @ d)"
    using pause by (simp add: eng_inv_def sys_inv_def)
  from eng_inv_perm [OF this, of "out @ d @ en_pending_commands e"] pause d show ?case
    by (cases b) (auto simp: sys_inv_def set_paused_def eng_inv_def)
next
  case (draining e out)
  then show ?case by (simp add: sys_inv_def set_draining_def eng_inv_def)
next
  case (diagnostic e out now)
  then show ?case by (simp add: sys_inv_def check_diagnostic_def eng_inv_def)
next
  case (reply fb c e xs ys now)
  have "eng_inv e (xs @ c # (ys @ en_pending_commands e))" using reply by (simp add: sys_inv_def)
  from feedback_inv [OF this reply(1), of L now] show ?case by (simp add: sys_inv_def)
qed

lemma sys_inv_reach: "sys_reach L s s' \<Longrightarrow> sys_inv s \<Longrightarrow> sys_inv s'"
  by (induction rule: sys_reach.induct) (auto intro: sys_inv_step)

end
