(* ===== verification/QuoteProps.thy ===== *)
theory QuoteProps
  imports StrategyProtocol
begin

text \<open>
  What the commands of the strategy engine promise: the orders the quoting tick posts, the taker
  rebalances it issues, and the number of commands that may be unanswered at a time. The
  witnesses run the quoting tick on a concrete engine, \<open>demo_engine\<close>.
\<close>

section \<open>A concrete engine for the witnesses\<close>

text \<open>
  An engine that quotes: both books fresh, the model at one half, settings that are exact binary
  fractions, nothing resting.
\<close>

definition demo_config :: bot_config where
  "demo_config = bot_default\<lparr> bc_quoting := quoting_toml_default\<lparr> qt_max_fair_value_extremity := Fin (3 / 4),
       qt_min_edge := Fin (1 / 16), qt_max_order_size := Fin 20, qt_min_order_size := Fin 5 \<rparr>,
     bc_risk_v2 := risk_toml_default\<lparr> rt_max_unpaired_shares := Fin 10, rt_rebalance_threshold := Fin 20,
       rt_rebalance_size := Fin 10, rt_rebalance_max_pair_cost := Fin (15 / 16),
       rt_buildup_go_dark_threshold := Fin (1 / 2), rt_buildup_go_live_threshold := Fin (1 / 4) \<rparr> \<rparr>"

definition demo_book :: "string \<Rightarrow> dec \<Rightarrow> order_book" where
  "demo_book asset ask = \<lparr> ob_asset_id = asset, ob_bids = [],
     ob_asks = [\<lparr> pl_price = ask, pl_size = 10 \<rparr>], ob_timestamp_ms = 1000 \<rparr>"

definition demo_state :: market_state where
  "demo_state = market_state_new\<lparr> active_condition_id := Some ''m'', active_yes_token_id := Some ''y'',
     active_no_token_id := Some ''n'', market_end_timestamp_ms := 301000,
     poly_yes_book := Some (demo_book ''y'' (3 / 5)), poly_no_book := Some (demo_book ''n'' (3 / 5)) \<rparr>"

definition demo_fv :: fair_value_estimator where
  "demo_fv = (fe_new fair_value_default)\<lparr> fe_strike_price := Fin 100, fe_current_btc := Fin 100,
     fe_edge := Fin (1 / 16),
     fe_vol := (rv_new 600 10 (Fin 1) (Fin 20) 500)\<lparr> rv_count := 20, rv_last_update_ms := 1000 \<rparr> \<rparr>"

definition demo_engine :: "bilateral_position \<Rightarrow> engine" where
  "demo_engine p = (engine_new exact_lib demo_config 0)\<lparr> en_phase := Quoting, en_fv := demo_fv,
     en_state := demo_state, en_position := p \<rparr>"

lemma demo_engine_simps [simp]:
  "en_phase (demo_engine p) = Quoting" "en_fv (demo_engine p) = demo_fv" "en_state (demo_engine p) = demo_state"
  "en_position (demo_engine p) = p" "en_draining (demo_engine p) = False" "en_paused (demo_engine p) = False"
  "en_hb_healthy (demo_engine p) = True" "en_quoter (demo_engine p) = quoter_new"
  "en_buildup_active (demo_engine p) = False" "en_pending_rebalance (demo_engine p) = False"
  "en_pending_commands (demo_engine p) = []"
  "rk_stale_book_ms (en_risk (demo_engine p)) = 850" "rk_max_unpaired_shares (en_risk (demo_engine p)) = 10"
  "rk_rebalance_threshold (en_risk (demo_engine p)) = 20" "rk_rebalance_size (en_risk (demo_engine p)) = 10"
  "rk_rebalance_max_pair_cost (en_risk (demo_engine p)) = Fin (15 / 16)"
  "rk_buildup_go_dark_threshold (en_risk (demo_engine p)) = Fin (1 / 2)"
  "qc_max_fair_value_extremity (en_quoting (demo_engine p)) = Fin (3 / 4)"
  "qc_min_edge (en_quoting (demo_engine p)) = Fin (1 / 16)"
  "qc_max_order_size (en_quoting (demo_engine p)) = 20" "qc_min_order_size (en_quoting (demo_engine p)) = 5"
  "qc_max_batches (en_quoting (demo_engine p)) = 3"
  by (simp_all add: demo_engine_def engine_new_def demo_config_def bot_default_def Let_def risk_of_toml_def
      quoting_of_toml_def quoting_toml_default_def risk_toml_default_def)

lemma demo_config_adj: "fv_max_momentum_adj (en_fv_config (demo_engine p)) = flit (8 / 100)"
  by (simp add: demo_engine_def engine_new_def demo_config_def bot_default_def Let_def
      fair_value_of_toml_def fair_value_toml_default_def)

lemma demo_state_simps [simp]:
  "active_yes_token_id demo_state = Some ''y''" "active_no_token_id demo_state = Some ''n''"
  "market_end_timestamp_ms demo_state = 301000" "tick_size demo_state = 1 / 100"
  "poly_yes_book demo_state = Some (demo_book ''y'' (3 / 5))"
  "poly_no_book demo_state = Some (demo_book ''n'' (3 / 5))"
  by (simp_all add: demo_state_def market_state_new_def dnew_def)

lemma demo_fv_simps [simp]:
  "fe_strike_price demo_fv = Fin 100" "fe_current_btc demo_fv = Fin 100" "fe_edge demo_fv = Fin (1 / 16)"
  "fe_yes_fair_value demo_fv = Fin (1 / 2)" "fe_no_fair_value demo_fv = Fin (1 / 2)"
  "fe_last_momentum demo_fv = Fin 0" "fe_is_stale 1000 demo_fv = False" "fe_is_vol_warm demo_fv = True"
  "cvd_signal now demo_fv = (Fin 0, None)" "obi_signal now demo_fv = (Fin 0, None)"
  "basis_signal now demo_fv = (Fin 0, None)"
  by (simp_all add: demo_fv_def fe_new_def fe_is_stale_def fe_is_vol_warm_def rv_is_fresh_def fresh_at_def
      saturating_sub_def rv_is_warm_def rv_new_def cvd_signal_def obi_signal_def basis_signal_def
      ca_normalized_def ca_is_fresh_def ca_new_def ov_normalized_def ov_is_fresh_def ov_new_def
      bx_normalized_def bx_is_fresh_def bx_new_def ca_direction_def ov_direction_def bx_direction_def)

lemma demo_values [simp]:
  "yes_fair_value exact_lib demo_fv = 1 / 2" "no_fair_value exact_lib demo_fv = 1 / 2"
  "fv_edge exact_lib demo_fv = 1 / 16" "fe_is_warm demo_fv"
  by (simp_all add: yes_fair_value_def no_fair_value_def fv_edge_def fe_is_warm_def)

lemma demo_gate: "quote_gate 1000 (demo_engine p)"
  by (simp add: quote_gate_def)

lemma f_of_u64_300000: "f_of_u64 300000 = Fin 300000"
  using rnd_of_int [of 300000] by (simp add: f_of_u64_def)

lemma demo_den: "is_fin (fmax (flit (8 / 100)) (flit (1 / 1000))) \<and> flt (Fin 0) (fmax (flit (8 / 100)) (flit (1 / 1000)))"
  by code_simp

lemma demo_risk: "compute_rebalance_risk (Fin 0) (Fin 0) (Fin 0) = Fin 0"
    "compute_dynamic_max_post (Fin (3 / 4)) (Fin 0) = Fin (3 / 4)"
  by code_simp+

lemma demo_dynamic_max: "vw_dynamic_max (risk_view_of exact_lib 1000 (demo_engine p)) = Fin (3 / 4)"
proof -
  obtain d where d: "fmax (flit (8 / 100)) (flit (1 / 1000)) = Fin d" "d \<noteq> 0"
    using demo_den by (cases "fmax (flit (8 / 100)) (flit (1 / 1000))") auto
  have "flit 300000 = Fin 300000" using rnd_of_int [of 300000] by (simp add: flit_def)
  with d have "fmul (fabs (fsub (Fin (1 / 2)) (flit (1 / 2)))) (flit 2) = Fin 0"
    "fsub (flit 1) (fclamp (fdiv (f_of_u64 300000) (flit 300000)) (flit 0) (flit 1)) = Fin 0"
    "fclamp (fdiv (fmul (Fin 0) (flit 1)) (fmax (flit (8 / 100)) (flit (1 / 1000)))) (flit (- 1)) (flit 1) = Fin 0"
    using rnd_of_int [of "- 1"] rnd_of_int [of 2] by (simp_all add: f_of_u64_300000 fsub_def fclamp_def flit_def)
  then show ?thesis
    by (simp add: risk_view_of_def Let_def demo_config_adj saturating_sub_def demo_risk)
qed

section \<open>Where the commands of a quoting tick come from\<close>

fun action_command :: "quote_action \<Rightarrow> executor_command" where
  "action_command (QPost sd tok price sz) = PostOrder sd tok price sz"
| "action_command (QCancel sd order_id) = CancelOrder sd order_id"

lemma action_command_simps [simp]:
  "(action_command a = PostOrder sd tok price sz) = (a = QPost sd tok price sz)"
  "(action_command a = CancelOrder sd i) = (a = QCancel sd i)"
  "(PostOrder sd tok price sz = action_command a) = (a = QPost sd tok price sz)"
  "(CancelOrder sd i = action_command a) = (a = QCancel sd i)"
  "action_command a \<noteq> RebalanceTaker sd tok price sz" "RebalanceTaker sd tok price sz \<noteq> action_command a"
  by (cases a; auto)+

lemma apply_action_frame:
  "apply_action a e = (e', c) \<Longrightarrow> c = action_command a
     \<and> (\<exists>q n. e' = e\<lparr> en_quoter := q, en_diag_requotes := n \<rparr>)
     \<and> (\<forall>sd. pending_post sd (en_quoter e) \<longrightarrow> pending_post sd (en_quoter e'))
     \<and> (\<forall>sd tok price sz. a = QPost sd tok price sz \<longrightarrow> pending_post sd (en_quoter e'))
     \<and> (\<forall>sd. q_order sd (en_quoter e') = q_order sd (en_quoter e))"
  by (cases a) (auto, rule exI, rule exI [of _ "en_diag_requotes e"], simp)

lemma apply_actions_frame:
  "apply_actions as e = (e', cs) \<Longrightarrow> cs = map action_command as
     \<and> (\<exists>q n. e' = e\<lparr> en_quoter := q, en_diag_requotes := n \<rparr>)
     \<and> (\<forall>sd. pending_post sd (en_quoter e) \<longrightarrow> pending_post sd (en_quoter e'))
     \<and> (\<forall>sd tok price sz. QPost sd tok price sz \<in> set as \<longrightarrow> pending_post sd (en_quoter e'))"
proof (induction as arbitrary: e e' cs)
  case Nil
  then have "e' = e\<lparr> en_quoter := en_quoter e, en_diag_requotes := en_diag_requotes e \<rparr>" by simp
  with Nil show ?case by (metis apply_actions.simps(1) list.map(1) list.set(1) empty_iff prod.inject)
next
  case (Cons a as)
  obtain e1 c1 where 1: "apply_action a e = (e1, c1)" by fastforce
  obtain e2 c2 where 2: "apply_actions as e1 = (e2, c2)" by fastforce
  from Cons.prems 1 2 have "e' = e2" "cs = c1 # c2" by simp_all
  with apply_action_frame [OF 1] Cons.IH [OF 2] show ?case by fastforce
qed

lemma zone_cancel_none: "zone_cancel sd ok q = (q', []) \<Longrightarrow> q' = q"
  by (auto simp: zone_cancel_def split: if_splits option.splits quote_action.splits)

lemma maker_quotes_cases:
  assumes "maker_quotes L yok nok mn mx yt nt e = (early, e', c)"
  obtains q where "early" "e' = e\<lparr> en_quoter := q \<rparr>" "\<And>x. x \<in> set c \<Longrightarrow> \<exists>sd i. x = CancelOrder sd i"
  | "\<not> early" "apply_actions (opt_list (side_action L Yes (side_postable L Yes yok mn mx e) yt e)
       @ opt_list (side_action L No (side_postable L No nok mn mx e) nt e)) e = (e', c)"
proof -
  obtain q1 c1 where 1: "zone_cancel Yes (side_postable L Yes yok mn mx e) (en_quoter e) = (q1, c1)" by fastforce
  obtain q2 c2 where 2: "zone_cancel No (side_postable L No nok mn mx e) q1 = (q2, c2)" by fastforce
  show ?thesis
  proof (cases "c1 @ c2 = []")
    case True
    with 1 2 have "q2 = en_quoter e" by (auto dest!: zone_cancel_none)
    with True assms 1 2 that(2) show ?thesis
      by (simp add: maker_quotes_def Let_def split: prod.splits)
  next
    case False
    with assms 1 2 have "early" "e' = e\<lparr> en_quoter := q2 \<rparr>" "c = c1 @ c2"
      by (auto simp: maker_quotes_def Let_def)
    with that(1) zone_cancel_cmds [OF 1] zone_cancel_cmds [OF 2] show ?thesis by fastforce
  qed
qed

lemma maker_quotes_post:
  assumes m: "maker_quotes L yok nok mn mx yt nt e = (early, e', c)" and p: "PostOrder sd tok price sz \<in> set c"
  shows "\<not> early \<and> pending_post sd (en_quoter e')
    \<and> (\<exists>tk. side_action L sd (side_postable L sd (case sd of Yes \<Rightarrow> yok | No \<Rightarrow> nok) mn mx e) tk e
         = Some (QPost sd tok price sz) \<and> tk = (case sd of Yes \<Rightarrow> yt | No \<Rightarrow> nt))"
  using m
proof (cases rule: maker_quotes_cases)
  case (1 q)
  with p show ?thesis by fastforce
next
  case 2
  let ?a = "\<lambda>s. side_action L s (side_postable L s (case s of Yes \<Rightarrow> yok | No \<Rightarrow> nok) mn mx e)
    (case s of Yes \<Rightarrow> yt | No \<Rightarrow> nt) e"
  have s: "?a s = Some (QPost sd' tk pr z) \<Longrightarrow> s = sd'" for s sd' tk pr z
    using side_action_safe [of L s] by fastforce
  have o: "x \<in> set (opt_list a) \<longleftrightarrow> a = Some x" for a and x :: quote_action by (cases a) (auto simp: opt_list_def)
  have "QPost sd tok price sz \<in> set (opt_list (?a Yes) @ opt_list (?a No))"
    using p apply_actions_frame [OF 2(2)] by auto
  then have m: "?a Yes = Some (QPost sd tok price sz) \<or> ?a No = Some (QPost sd tok price sz)"
    unfolding set_append Un_iff o .
  then have "?a sd = Some (QPost sd tok price sz)" using s by metis
  moreover have "pending_post sd (en_quoter e')"
    using apply_actions_frame [OF 2(2)] m by (auto simp: o)
  ultimately show ?thesis using 2(1) by blast
qed

lemma taker_not_post:
  "taker_rebalance L yt nt e = (e', c) \<Longrightarrow> PostOrder sd tok price sz \<notin> set c
     \<and> (\<forall>sd. pending_post sd (en_quoter e') = pending_post sd (en_quoter e))
     \<and> (en_buildup_active e' = en_buildup_active e)"
proof (erule taker_rebalance_cases, goal_cases)
  case (2 ask q d)
  have "pending_post sd q = pending_post sd (en_quoter e)" for sd
    using 2(5) by (auto simp: zone_cancel_def split: if_splits option.splits quote_action.splits)
  with 2 zone_cancel_cmds [OF 2(5)] show ?case by fastforce
qed simp

lemma quote_sides_post:
  assumes t: "quote_sides L now yok nok mn mx e = (e', c)" and p: "PostOrder sd tok price sz \<in> set c"
  obtains e2 yt nt where "buildup_step now e = (False, e2)" "active_yes_token_id (en_state e2) = Some yt"
    "active_no_token_id (en_state e2) = Some nt" "pending_post sd (en_quoter e')"
    "\<not> en_buildup_active e'"
    "side_action L sd (side_postable L sd (case sd of Yes \<Rightarrow> yok | No \<Rightarrow> nok) mn mx e2)
       (case sd of Yes \<Rightarrow> yt | No \<Rightarrow> nt) e2 = Some (QPost sd tok price sz)"
  using t
proof (cases rule: quote_sides_cases)
  case (1 dark)
  with p show ?thesis by simp
next
  case (2 e2 yt nt)
  from maker_quotes_post [OF 2(4) p] show ?thesis by simp
next
  case (3 dark e2 yt nt e3 c3 c4)
  from p 3(6) taker_not_post [OF 3(5), of sd tok price sz] have c3: "PostOrder sd tok price sz \<in> set c3" by auto
  with 3(4) have d: "\<not> dark" and m: "maker_quotes L yok nok mn mx yt nt e2 = (False, e3, c3)"
    by (cases dark; simp)+
  have "en_buildup_active e3 = en_buildup_active e2"
    using m by (cases rule: maker_quotes_cases) (use apply_actions_frame in fastforce)+
  moreover have "\<not> en_buildup_active e2" using buildup_step_frame [OF 3(1)] d by simp
  ultimately show ?thesis
    using that [of e2 yt nt] 3 d maker_quotes_post [OF m c3] taker_not_post [OF 3(5), of sd tok price sz] by auto
qed

lemma evaluate_side_post:
  "evaluate_side L q sd target fv ask lag tok p qc rk = Some (QPost sd' tok' price sz) \<Longrightarrow>
     sd' = sd \<and> tok' = tok \<and> price = target \<and> qc_min_order_size qc \<le> sz \<and> 1 \<le> price * sz
     \<and> q_order sd q = None \<and> \<not> is_pending sd q \<and> unpaired sd p < rk_max_unpaired_shares rk"
  by (auto simp: evaluate_side_def quote_fresh_def quote_resting_def Let_def dnew_def
      split: if_splits option.splits)

section \<open>What an issued post order promises\<close>

definition side_token :: "market_side \<Rightarrow> market_state \<Rightarrow> string option" where
  "side_token sd s = (case sd of Yes \<Rightarrow> active_yes_token_id s | No \<Rightarrow> active_no_token_id s)"

definition posting_max :: "'a lib_scheme \<Rightarrow> u64 \<Rightarrow> engine \<Rightarrow> dec" where
  "posting_max L now e = unwrap_or (d_of_f64 L (vw_dynamic_max (risk_view_of L now e))) (dnew 78 2)"

text \<open>
  C2. What every order the quoting tick posts promises, on every path to it. The engine is in
  the quoting phase, neither draining nor paused, warm, fresh and with a live heartbeat; the book
  of that side is fresh and the price is below its best ask, so a post-only order does not cross;
  the price lies in the posting zone that the risk of the moment allows; no build-up is on; the
  order is for the active token of that side, worth at least one dollar and of the minimum size;
  nothing rests and nothing is in flight on that side, and afterwards the side is marked as
  having a post in flight.
\<close>

theorem posted_order_is_safe:
  assumes "quote_tick L now e = (e', c)" and "PostOrder sd tok price sz \<in> set c"
  shows "quote_gate now e \<and> book_healthy (rk_stale_book_ms (en_risk e)) now (side_book sd (en_state e))
    \<and> 1 - posting_max L now e \<le> price \<and> price \<le> posting_max L now e
    \<and> (case book_ask (side_book sd (en_state e)) of None \<Rightarrow> True | Some ask \<Rightarrow> price < ask)
    \<and> side_token sd (en_state e) = Some tok \<and> 1 \<le> price * sz \<and> qc_min_order_size (en_quoting e) \<le> sz
    \<and> unpaired sd (en_position e) < rk_max_unpaired_shares (en_risk e)
    \<and> q_order sd (en_quoter e) = None \<and> \<not> is_pending sd (en_quoter e)
    \<and> pending_post sd (en_quoter e') \<and> \<not> en_buildup_active e'"
  using assms(1)
proof (cases rule: quote_tick_cases)
  case 1
  with assms(2) show ?thesis by simp
next
  case 2
  with assms(2) show ?thesis by simp
next
  case (3 mx e1 yok nok)
  have e1: "en_state e1 = en_state e" "en_fv e1 = en_fv e" "en_quoter e1 = en_quoter e"
    "en_position e1 = en_position e" "en_risk e1 = en_risk e" "en_quoting e1 = en_quoting e"
    using 3(6) by (simp_all add: frame_simps)
  from 3(9) assms(2) show ?thesis
  proof (cases rule: quote_sides_post)
    case (1 e2 yt nt)
    have e2: "en_state e2 = en_state e" "en_quoter e2 = en_quoter e" "en_position e2 = en_position e"
      "en_risk e2 = en_risk e" "en_quoting e2 = en_quoting e"
      using buildup_step_frame [OF 1(1)] e1 by simp_all
    have post: "side_postable L sd (case sd of Yes \<Rightarrow> yok | No \<Rightarrow> nok) (1 - mx) mx e2"
      using 1(6) by (simp add: side_action_def split: if_splits)
    note g = evaluate_side_post [OF side_action_Some [OF 1(6)]]
    have pr: "side_target L sd e2 = price" using g by simp
    have g2: "tok = (case sd of Yes \<Rightarrow> yt | No \<Rightarrow> nt)" "qc_min_order_size (en_quoting e) \<le> sz" "1 \<le> price * sz"
      "q_order sd (en_quoter e) = None" "\<not> is_pending sd (en_quoter e)"
      "unpaired sd (en_position e) < rk_max_unpaired_shares (en_risk e)"
      using g unfolding e2 by blast+
    show ?thesis
      using post [unfolded side_postable_def pr] g2 1(2,3,4,5) 3(1,2,3,5)
      by (cases sd) (simp_all add: e2 is_postable_def side_book_def side_token_def posting_max_def)
  qed
qed

lemma demo_push:
  "push_risk_record L 1000 v (demo_engine p\<lparr> en_last_risk := r \<rparr>) = demo_engine p\<lparr> en_last_risk := r \<rparr>"
  by (simp add: push_risk_record_def saturating_sub_def demo_engine_def engine_new_def Let_def)

lemma demo_round: "round_to_tick exact_lib (7 / 16) (1 / 100) = 11 / 25"
  by code_simp

lemma demo_target: "side_target exact_lib sd (demo_engine p\<lparr> en_last_risk := r \<rparr>) = 11 / 25"
  by (cases sd) (simp_all add: side_target_def yes_target_price_def no_target_price_def dnew_def demo_round)

lemma demo_sizes: "max_total_shares exact_lib 20 5 3 = 35" "dynamic_order_size exact_lib 20 5 0 3 = 20"
  by code_simp+

lemma demo_edge: "d_of_f64 exact_lib (Fin (1 / 16)) = Some (1 / 16)"
  by code_simp

lemma demo_post: "evaluate_side exact_lib quoter_new sd (11 / 25) fv (3 / 5) False tok position_new
   (en_quoting (demo_engine p)) (en_risk (demo_engine p)) = Some (QPost sd tok (11 / 25) 20)"
proof -
  have "unpaired sd position_new = 0" "avg_price exact_lib side_new = 0"
    by (cases sd; simp add: unpaired_def unpaired_yes_def unpaired_no_def paired_shares_def position_new_def side_new_def avg_price_def)+
  moreover have "yes_pos position_new = side_new" "no_pos position_new = side_new" "total_shares side_new = 0"
    by (simp_all add: position_new_def side_new_def)
  moreover have "q_order sd quoter_new = None" "\<not> is_pending sd quoter_new"
    by (cases sd; simp add: q_order_def quoter_new_def is_pending_def)+
  ultimately show ?thesis
    by (cases sd) (simp_all add: evaluate_side_def quote_fresh_def demo_sizes demo_edge Let_def dnew_def)
qed

lemma demo_no_buildup: "buildup_step 1000 (demo_engine p\<lparr> en_last_risk := r \<rparr>) = (False, demo_engine p\<lparr> en_last_risk := r \<rparr>)"
proof -
  have "buildup_score_of (Fin 0, None) (Fin 0, None) (Fin 0, None) = Fin 0" by code_simp
  then show ?thesis by (simp add: buildup_step_def check_buildup_guard_def Let_def)
qed

lemma demo_max: "posting_max exact_lib 1000 (demo_engine p) = 3 / 4"
proof -
  have "d_of_f64 exact_lib (Fin (3 / 4)) = Some (3 / 4)" by code_simp
  then show ?thesis by (simp add: posting_max_def demo_dynamic_max)
qed

lemma demo_ask: "book_ask (Some (demo_book a p)) = Some p"
  by (simp add: book_ask_def demo_book_def ob_best_ask_def first_of_def)

lemma demo_healthy: "book_healthy 850 1000 (Some (demo_book a p))"
  by (simp add: book_healthy_def demo_book_def saturating_sub_def)

lemma demo_sides:
  "\<exists>r. quote_tick exact_lib 1000 (demo_engine p) =
     quote_sides exact_lib 1000 True True (1 / 4) (3 / 4) (demo_engine p\<lparr> en_last_risk := r \<rparr>)"
  by (intro exI [of _ "vw_risk (risk_view_of exact_lib 1000 (demo_engine p))"])
    (simp add: quote_tick_def demo_gate demo_healthy Let_def demo_dynamic_max unwrap_or_def demo_push)

lemma demo_tick: "snd (quote_tick exact_lib 1000 (demo_engine position_new)) =
   [PostOrder Yes ''y'' (11 / 25) 20, PostOrder No ''n'' (11 / 25) 20]"
proof -
  obtain r where r: "quote_tick exact_lib 1000 (demo_engine position_new) =
     quote_sides exact_lib 1000 True True (1 / 4) (3 / 4) (demo_engine position_new\<lparr> en_last_risk := r \<rparr>)"
    using demo_sides by blast
  let ?e = "demo_engine position_new\<lparr> en_last_risk := r \<rparr>"
  have p: "side_postable exact_lib sd True (1 / 4) (3 / 4) ?e" for sd
    by (cases sd) (simp_all add: side_postable_def is_postable_def demo_target demo_ask side_book_def)
  have z: "total_shares (yes_pos position_new) = 0" "total_shares (no_pos position_new) = 0"
    by (simp_all add: position_new_def side_new_def)
  have l: "\<not> side_lagging sd ?e" for sd by (cases sd) (simp_all add: side_lagging_def z)
  have t: "\<not> taker_will_handle e'" if "en_position e' = position_new" "en_risk e' = en_risk ?e" for e'
    using that by (simp add: z taker_will_handle_def)
  have a: "side_action exact_lib sd True tok ?e = Some (QPost sd tok (11 / 25) 20)" for sd tok
    by (cases sd) (simp_all add: side_action_def demo_target side_book_def demo_ask l demo_post)
  have q: "?e\<lparr> en_quoter := quoter_new \<rparr> = ?e" by (simp add: demo_engine_def engine_new_def Let_def)
  have a2: "side_action exact_lib sd True tok (?e\<lparr> en_quoter := quoter_new \<rparr>) = Some (QPost sd tok (11 / 25) 20)"
    for sd tok unfolding q by (rule a)
  have "maker_quotes exact_lib True True (1 / 4) (3 / 4) ''y'' ''n'' ?e =
    (False, apply_actions [QPost Yes ''y'' (11 / 25) 20, QPost No ''n'' (11 / 25) 20] ?e)"
    using a2 by (simp add: maker_quotes_def p zone_cancel_def opt_list_def Let_def)
  then show ?thesis unfolding r quote_sides_def demo_no_buildup by (simp add: taker_rebalance_def t)
qed

lemma posted_order_is_safe_witness:
  "1 - posting_max exact_lib 1000 (demo_engine position_new) \<le> 11 / 25
    \<and> book_healthy 850 1000 (side_book No (en_state (demo_engine position_new)))
    \<and> pending_post No (en_quoter (fst (quote_tick exact_lib 1000 (demo_engine position_new))))"
proof -
  let ?t = "quote_tick exact_lib 1000 (demo_engine position_new)"
  have "PostOrder No ''n'' (11 / 25) 20 \<in> set (snd ?t)" by (simp add: demo_tick)
  from posted_order_is_safe [OF surjective_pairing this] show ?thesis by simp
qed

section \<open>One command in flight\<close>

fun is_order_command :: "executor_command \<Rightarrow> bool" where
  "is_order_command (PostOrder sd tok price sz) = True"
| "is_order_command (CancelOrder sd i) = True"
| "is_order_command (RebalanceTaker sd tok price sz) = True"
| "is_order_command c = False"

lemma no_order_commands:
  "list_all (\<lambda>c. \<not> is_order_command c) cs \<Longrightarrow> num (is_post sd) cs = 0 \<and> num (is_cancel sd) cs = 0 \<and> num is_rebalance cs = 0"
proof (induction cs)
  case (Cons c cs)
  then show ?case by (cases c) auto
qed simp

lemma sys_inv_start:
  assumes "has_no_open_position e" and "\<not> en_pending_rebalance e"
    and "list_all (\<lambda>c. \<not> is_order_command c) (out @ en_pending_commands e)"
  shows "sys_inv (e, out)"
  using assms(1,2) no_order_commands [OF assms(3)]
  by (simp add: sys_inv_def eng_inv_def flags_ok_def has_no_open_position_def is_pending_iff)
    (metis market_side.exhaust)


lemma demo_start: "has_no_open_position (demo_engine p)"
  by (simp add: has_no_open_position_def has_resting_orders_def is_pending_def quoter_new_def)


section \<open>The taker rebalance\<close>

lemma maker_not_rebalance:
  "maker_quotes L yok nok mn mx yt nt e = (early, e', c) \<Longrightarrow> RebalanceTaker sd tok price sz \<notin> set c
     \<and> en_pending_rebalance e' = en_pending_rebalance e \<and> en_position e' = en_position e
     \<and> en_state e' = en_state e \<and> en_risk e' = en_risk e \<and> en_fv e' = en_fv e"
proof (erule maker_quotes_cases, goal_cases)
  case (1 q)
  then show ?case by auto
next
  case 2
  then show ?case using apply_actions_frame [OF 2(2)] by auto
qed

lemma quote_sides_rebalance:
  assumes t: "quote_sides L now yok nok mn mx e = (e', c)" and p: "RebalanceTaker sd tok price sz \<in> set c"
  obtains e3 yt nt c4 where "en_position e3 = en_position e" "en_state e3 = en_state e" "en_risk e3 = en_risk e"
    "en_pending_rebalance e3 = en_pending_rebalance e"
    "active_yes_token_id (en_state e) = Some yt" "active_no_token_id (en_state e) = Some nt"
    "taker_rebalance L yt nt e3 = (e', c4)" "RebalanceTaker sd tok price sz \<in> set c4"
  using t
proof (cases rule: quote_sides_cases)
  case (1 dark)
  with p show ?thesis by simp
next
  case (2 e2 yt nt)
  with p maker_not_rebalance [OF 2(4), of sd tok price sz] show ?thesis by simp
next
  case (3 dark e2 yt nt e3 c3 c4)
  have "RebalanceTaker sd tok price sz \<notin> set c3 \<and> en_pending_rebalance e3 = en_pending_rebalance e2
    \<and> en_position e3 = en_position e2 \<and> en_state e3 = en_state e2 \<and> en_risk e3 = en_risk e2"
    using 3(4) maker_not_rebalance [of L yok nok mn mx yt nt e2 False e3 c3 sd tok price sz]
    by (cases dark) auto
  with that [of e3 yt nt c4] 3 p buildup_step_frame [OF 3(1)] show ?thesis by auto
qed

definition imbalance :: "bilateral_position \<Rightarrow> dec" where
  "imbalance p = total_shares (yes_pos p) - total_shares (no_pos p)"

lemma record_fill_imbalance: "imbalance (record_fill sd price sz tk fee p)
   = imbalance p + (case sd of Yes \<Rightarrow> sz | No \<Rightarrow> - sz)"
  by (cases sd) (simp_all add: imbalance_def position_defs Let_def)

text \<open>
  C3. The taker rebalance only ever reduces the imbalance. Whenever a quoting tick issues one,
  the imbalance is at or above the threshold, no rebalance was open and one is now; it buys the
  active token of the side that lags, at that side's best ask, at least five shares and at least
  one dollar's worth; the average price of the other side plus the ask is within the configured
  pair cost; and once it fills completely the imbalance is strictly smaller, provided the
  threshold is above half the exchange minimum (the shipped one is).
\<close>

theorem rebalance_reduces_imbalance:
  assumes "quote_tick L now e = (e', c)" and "RebalanceTaker sd tok price sz \<in> set c"
    and "5 / 2 < rk_rebalance_threshold (en_risk e)"
  shows "rk_rebalance_threshold (en_risk e) \<le> \<bar>imbalance (en_position e)\<bar>
    \<and> \<not> en_pending_rebalance e \<and> en_pending_rebalance e'
    \<and> total_shares (pos_side sd (en_position e)) < total_shares (pos_side (opposite sd) (en_position e))
    \<and> side_token sd (en_state e) = Some tok \<and> book_ask (side_book sd (en_state e)) = Some price
    \<and> 5 \<le> sz \<and> 1 \<le> sz * price
    \<and> avg_price L (pos_side (opposite sd) (en_position e)) + price
        \<le> unwrap_or (d_of_f64 L (rk_rebalance_max_pair_cost (en_risk e))) (dnew 96 2)
    \<and> \<bar>imbalance (record_fill sd price sz True fee (en_position e))\<bar> < \<bar>imbalance (en_position e)\<bar>"
  using assms(1)
proof (cases rule: quote_tick_cases)
  case 1
  with assms(2) show ?thesis by simp
next
  case 2
  with assms(2) show ?thesis by simp
next
  case (3 mx e1 yok nok)
  have e1: "en_state e1 = en_state e" "en_position e1 = en_position e" "en_risk e1 = en_risk e"
    "en_pending_rebalance e1 = en_pending_rebalance e"
    using 3(6) by (simp_all add: frame_simps)
  from 3(9) assms(2) show ?thesis
  proof (cases rule: quote_sides_rebalance)
    case (1 e3 yt nt c4)
    note e3 = 1(1-4) [unfolded e1]
    from 1(7) show ?thesis
    proof (cases rule: taker_rebalance_cases)
      case 1
      with \<open>RebalanceTaker sd tok price sz \<in> set c4\<close> show ?thesis by simp
    next
      case (2 ask q d)
      have "RebalanceTaker sd tok price sz \<notin> set d" using zone_cancel_cmds [OF 2(5)] by auto
      with 1(8) 2(7) have s: "sd = rebalance_side e3" "tok = (case rebalance_side e3 of Yes \<Rightarrow> yt | No \<Rightarrow> nt)"
        "price = ask" "sz = rebalance_size_of e3" by auto
      have th: "rk_rebalance_threshold (en_risk e) \<le> \<bar>imbalance (en_position e)\<bar>"
        using 2(1) by (simp add: taker_will_handle_def e3 imbalance_def)
      have sz: "sz = max (min (rk_rebalance_size (en_risk e)) \<bar>imbalance (en_position e)\<bar>) 5"
        using s(4) by (simp add: rebalance_size_of_def e3 imbalance_def dnew_def Let_def)
      have sd: "sd = (if 0 < imbalance (en_position e) then No else Yes)"
        using s(1) by (simp add: rebalance_side_def e3 imbalance_def)
      have b: "5 \<le> sz" "sz < 2 * \<bar>imbalance (en_position e)\<bar>" using sz th assms(3) by auto
      have im: "\<bar>imbalance (record_fill sd price sz True fee (en_position e))\<bar> < \<bar>imbalance (en_position e)\<bar>"
        using b sd by (auto simp: record_fill_imbalance split: if_splits)
      have lag: "total_shares (pos_side sd (en_position e)) < total_shares (pos_side (opposite sd) (en_position e))"
        using sd b by (auto simp: imbalance_def pos_side_def opposite_def split: if_splits)
      show ?thesis
        using 1(5,6) 2(2,3,4,6) s th b(1) im lag
        by (cases sd) (auto simp: e1 e3 side_token_def rebalance_feasible_def Let_def)
    qed
  qed
qed


definition demo_long :: bilateral_position where
  "demo_long = record_fill Yes (3 / 10) 20 False 0 position_new"

lemma demo_long_simps [simp]:
  "total_shares (yes_pos demo_long) = 20" "total_shares (no_pos demo_long) = 0"
  "avg_price exact_lib (yes_pos demo_long) = 3 / 10" "rebalance_size_of (demo_engine demo_long) = 10"
  "imbalance demo_long = 20"
  by (simp_all add: demo_long_def position_new_def side_new_def position_defs avg_price_def imbalance_def
      rebalance_size_of_def dnew_def Let_def)

lemma demo_rebalance: "RebalanceTaker No ''n'' (3 / 5) 10 \<in> set (snd (quote_tick exact_lib 1000 (demo_engine demo_long)))"
proof -
  obtain r where r: "quote_tick exact_lib 1000 (demo_engine demo_long) =
     quote_sides exact_lib 1000 True True (1 / 4) (3 / 4) (demo_engine demo_long\<lparr> en_last_risk := r \<rparr>)"
    using demo_sides by blast
  let ?e = "demo_engine demo_long\<lparr> en_last_risk := r \<rparr>"
  have p: "side_postable exact_lib sd True (1 / 4) (3 / 4) ?e" for sd
    by (cases sd) (simp_all add: side_postable_def is_postable_def demo_target demo_ask side_book_def)
  obtain e3 c3 where m: "maker_quotes exact_lib True True (1 / 4) (3 / 4) ''y'' ''n'' ?e = (False, e3, c3)"
    by (cases "apply_actions (opt_list (side_action exact_lib Yes True ''y'' (?e\<lparr> en_quoter := quoter_new \<rparr>))
        @ opt_list (side_action exact_lib No True ''n'' (?e\<lparr> en_quoter := quoter_new \<rparr>))) (?e\<lparr> en_quoter := quoter_new \<rparr>)")
      (simp add: maker_quotes_def p zone_cancel_def Let_def)
  have f: "en_position e3 = demo_long" "en_state e3 = demo_state" "en_risk e3 = en_risk (demo_engine demo_long)"
    "\<not> en_pending_rebalance e3" using maker_not_rebalance [OF m] by simp_all
  have s: "rebalance_side e3 = No" "taker_will_handle e3" "rebalance_size_of e3 = 10"
    by (simp_all add: rebalance_side_def taker_will_handle_def rebalance_size_of_def f dnew_def Let_def)
  have x: "d_of_f64 exact_lib (Fin (15 / 16)) = Some (15 / 16)" by code_simp
  have "rebalance_feasible exact_lib No (3 / 5) e3"
    by (simp add: rebalance_feasible_def s f x opposite_def pos_side_def)
  then have "RebalanceTaker No ''n'' (3 / 5) 10 \<in> set (snd (taker_rebalance exact_lib ''y'' ''n'' e3))"
    by (simp add: taker_rebalance_def s f side_book_def demo_ask Let_def split: prod.splits)
  then show ?thesis unfolding r quote_sides_def demo_no_buildup
    by (cases "taker_rebalance exact_lib ''y'' ''n'' e3") (simp add: m)
qed

lemma rebalance_reduces_imbalance_witness:
  "\<bar>imbalance (record_fill No (3 / 5) 10 True 0 demo_long)\<bar> < \<bar>imbalance demo_long\<bar>
    \<and> en_pending_rebalance (fst (quote_tick exact_lib 1000 (demo_engine demo_long)))"
  using rebalance_reduces_imbalance [OF surjective_pairing demo_rebalance, of 0] by simp

end
