(* ===== verification/LifecycleProps.thy ===== *)
theory LifecycleProps
  imports QuoteProps
begin

text \<open>
  The life of a market in the strategy engine: rotation, the heartbeat guard, the posting zone,
  the accounting of fills from the user channel to the position, and what late answers do.
\<close>

section \<open>Market rotation\<close>

lemma side_reset_new: "side_reset s = side_new"
  by (simp add: side_reset_def side_new_def)

lemma reset_simps [simp]: "position_reset p = position_new" "quoter_reset q = quoter_new" "fe_reset c e = fe_new c"
  by (simp_all add: position_reset_def position_new_def side_reset_new quoter_reset_def quoter_new_def fe_reset_def)

lemma fresh_not_warm: "\<not> fe_is_warm (fe_new c)"
  by (simp add: fe_is_warm_def fe_new_def)

lemma gate_needs_warm: "\<not> fe_is_warm (en_fv e) \<Longrightarrow> quote_tick L now e = (e, [])"
  by (simp add: quote_tick_def quote_gate_def)

lemma rotation_fields:
  assumes e': "e' = on_market_rotation L cid y n end_ms tick now e"
  shows "en_position e' = position_new" "en_quoter e' = quoter_new" "en_strike e' = None"
    "en_fv e' = fe_new (en_fv_config e)" "en_phase e' = Quiet" "en_paused e' = en_paused e"
    "en_quiet_until_ms e' = now + rk_rotation_quiet_ms (en_risk e)"
    "\<not> en_buildup_active e'" "\<not> en_pending_rebalance e'" "en_pending_fill_messages e' = []"
    "en_pending_commands e' = en_pending_commands e @ [CmdMarketRotation cid y n tick]"
    "active_condition_id (en_state e') = Some cid" "active_yes_token_id (en_state e') = Some y"
    "active_no_token_id (en_state e') = Some n" "poly_yes_book (en_state e') = None"
    "poly_no_book (en_state e') = None" "market_end_timestamp_ms (en_state e') = end_ms"
    "tick_size (en_state e') = tick"
  unfolding e' on_market_rotation_def send_market_report_def Let_def by simp_all

text \<open>
  C19. A rotation always succeeds and leaves nothing of the old market behind: no position, no
  resting order or open flag, no strike, no book, no model state, no unsent fill message; the new
  market and its tick are active and the executor is told last, after every command already
  queued. The bot is in its quiet phase, unless the configured quiet time is over at once, and
  whatever the phase, every quoting tick is silent, because the model is cold.
\<close>

theorem rotation_clean_slate:
  "\<exists>e'. on_event L now (EvMarketRotation cid y n end_ms tick) e = Good e'
     \<and> en_position e' = position_new \<and> en_quoter e' = quoter_new \<and> en_strike e' = None
     \<and> en_fv e' = fe_new (en_fv_config e) \<and> poly_yes_book (en_state e') = None \<and> poly_no_book (en_state e') = None
     \<and> \<not> en_buildup_active e' \<and> \<not> en_pending_rebalance e' \<and> en_pending_fill_messages e' = []
     \<and> active_condition_id (en_state e') = Some cid \<and> tick_size (en_state e') = tick
     \<and> en_pending_commands e' = en_pending_commands e @ [CmdMarketRotation cid y n tick]
     \<and> en_phase e' = (if now + rk_rotation_quiet_ms (en_risk e) \<le> now \<and> \<not> en_paused e then Quoting else Quiet)
     \<and> (\<forall>t. quote_tick L t e' = (e', []))"
proof -
  let ?c = "now + rk_rotation_quiet_ms (en_risk e) \<le> now \<and> \<not> en_paused e"
  define r where "r = on_market_rotation L cid y n end_ms tick now e"
  define e' where "e' = r\<lparr> en_phase := (if ?c then Quoting else Quiet) \<rparr>"
  note r = rotation_fields [OF r_def]
  have "r\<lparr> en_phase := Quiet \<rparr> = r" using r(5) by (cases r) simp
  then have "on_event L now (EvMarketRotation cid y n end_ms tick) e = Good e'"
    by (cases ?c) (simp_all add: on_event_def after_event_def r_def [symmetric] r fresh_not_warm Let_def e'_def)
  moreover have "quote_tick L t e' = (e', [])" for t
    by (rule gate_needs_warm) (simp add: e'_def r fresh_not_warm)
  ultimately show ?thesis by (intro exI [of _ e'] conjI allI) (simp_all add: e'_def r)
qed

section \<open>The heartbeat\<close>

lemma cancel_all_commands:
  "snd (send_cancels (cancel_all_actions q) q) = map action_command (cancel_all_actions q)"
  by (auto simp: cancel_all_actions_def split: option.splits)

lemma cancel_all_sent:
  "q_order sd (fst (send_cancels (cancel_all_actions q) q)) = q_order sd q
    \<and> (q_order sd q \<noteq> None \<longrightarrow> pending_cancel sd (fst (send_cancels (cancel_all_actions q) q)))"
  by (cases sd) (auto simp: cancel_all_actions_def q_order_def pending_cancel_def on_cancel_sent_def split: option.splits)

definition dead_after :: "nat \<Rightarrow> u64 \<Rightarrow> engine \<Rightarrow> engine" where
  "dead_after k lat e = (ev_heartbeat False lat ^^ k) e"

lemma dead_after_state:
  assumes "en_hb_healthy e" and "en_hb_failures e = 0" and "0 < rk_heartbeat_dead_threshold (en_risk e)"
    and "k < 2 ^ 32"
  shows "en_hb_failures (dead_after k lat e) = of_nat k \<and> en_risk (dead_after k lat e) = en_risk e
    \<and> (if k < unat (rk_heartbeat_dead_threshold (en_risk e))
       then en_hb_healthy (dead_after k lat e) \<and> en_quoter (dead_after k lat e) = en_quoter e
          \<and> en_pending_commands (dead_after k lat e) = en_pending_commands e
       else \<not> en_hb_healthy (dead_after k lat e)
          \<and> en_quoter (dead_after k lat e) = fst (send_cancels (cancel_all_actions (en_quoter e)) (en_quoter e))
          \<and> en_pending_commands (dead_after k lat e) = en_pending_commands e @ map action_command (cancel_all_actions (en_quoter e)))"
  using assms(4)
proof (induction k)
  case 0
  have "0 < unat (rk_heartbeat_dead_threshold (en_risk e))" using assms(3) by (simp add: unat_gt_0 word_neq_0_conv)
  with assms show ?case by (simp add: dead_after_def)
next
  case (Suc k)
  let ?e = "dead_after k lat e" and ?d = "rk_heartbeat_dead_threshold (en_risk e)"
  note IH = Suc.IH [OF Suc_lessD [OF Suc.prems]]
  have s: "dead_after (Suc k) lat e = ev_heartbeat False lat ?e" by (simp add: dead_after_def)
  have le: "?d \<le> of_nat k + 1 \<longleftrightarrow> unat ?d \<le> Suc k"
  proof -
    have "unat (of_nat (Suc k) :: u32) = Suc k" using Suc.prems by (simp only: unsigned_of_nat) (simp add: take_bit_nat_eq_self)
    then have "unat (of_nat k + 1 :: u32) = Suc k" by (simp add: add.commute)
    then show ?thesis by (simp add: word_le_nat_alt)
  qed
  obtain q cs where q: "send_cancels (cancel_all_actions (en_quoter e)) (en_quoter e) = (q, cs)" by fastforce
  then have cs: "cs = map action_command (cancel_all_actions (en_quoter e))" using cancel_all_commands [of "en_quoter e"] by simp
  consider "Suc k < unat ?d" | "Suc k = unat ?d" | "unat ?d < Suc k" by linarith
  then show ?case
  proof cases
    case 1
    with IH le show ?thesis unfolding s by (simp add: ev_heartbeat_def Let_def add.commute)
  next
    case 2
    have "of_nat k + 1 = (of_nat (unat ?d) :: u32)" unfolding 2 [symmetric] by simp
    then have "1 + of_nat k = ?d" by (simp add: add.commute)
    with 2 IH le q cs show ?thesis unfolding s by (simp add: ev_heartbeat_def Let_def add.commute)
  next
    case 3
    with IH le show ?thesis unfolding s by (simp add: ev_heartbeat_def Let_def add.commute)
  qed
qed

text \<open>
  C20. The heartbeat guard. Starting healthy, after \<open>k\<close> failed beats in a row the bot counts as
  healthy exactly while \<open>k\<close> is below the threshold. At the threshold it queues one cancel for
  each resting order without one, every resting order is then being cancelled, further failures
  queue nothing more, and the quoting tick stays silent; the next successful beat makes it
  healthy and sets the count to zero.
\<close>

theorem heartbeat_guard:
  assumes "en_hb_healthy e" and "en_hb_failures e = 0" and "0 < rk_heartbeat_dead_threshold (en_risk e)"
    and "k < 2 ^ 32"
  shows "(en_hb_healthy (dead_after k lat e) \<longleftrightarrow> k < unat (rk_heartbeat_dead_threshold (en_risk e)))
    \<and> en_pending_commands (dead_after k lat e) = en_pending_commands e
        @ (if k < unat (rk_heartbeat_dead_threshold (en_risk e)) then []
           else map action_command (cancel_all_actions (en_quoter e)))
    \<and> (unat (rk_heartbeat_dead_threshold (en_risk e)) \<le> k \<longrightarrow>
        snd (quote_tick L now (dead_after k lat e)) = []
        \<and> (\<forall>sd. q_order sd (en_quoter (dead_after k lat e)) \<noteq> None \<longrightarrow> pending_cancel sd (en_quoter (dead_after k lat e))))
    \<and> en_hb_healthy (ev_heartbeat True l (dead_after k lat e)) \<and> en_hb_failures (ev_heartbeat True l (dead_after k lat e)) = 0"
  using dead_after_state [OF assms, of lat] cancel_all_sent [of _ "en_quoter e"]
  by (auto simp: quote_tick_def quote_gate_def ev_heartbeat_def Let_def)

lemma heartbeat_guard_witness:
  "\<not> en_hb_healthy (dead_after 7 0 (demo_engine position_new))
    \<and> snd (quote_tick exact_lib 1000 (dead_after 7 0 (demo_engine position_new))) = []"
proof -
  have "rk_heartbeat_dead_threshold (en_risk (demo_engine position_new)) = 5"
    "en_hb_failures (demo_engine position_new) = 0"
    by (simp_all add: demo_engine_def engine_new_def demo_config_def bot_default_def Let_def risk_of_toml_def
        risk_toml_default_def)
  then show ?thesis using heartbeat_guard [of "demo_engine position_new" 7 0 exact_lib 1000] by simp
qed

section \<open>The posting zone\<close>

lemma rnd_2 [simp]: "rnd 2 = Fin 2"
  using rnd_of_int [of 2] by simp

lemma rnd_m1 [simp]: "rnd (- 1) = Fin (- 1)"
  using rnd_of_int [of "- 1"] by simp

lemma rnd_m2 [simp]: "rnd (- 2) = Fin (- 2)"
  using rnd_of_int [of "- 2"] by simp

text \<open>Subtracting one half is exact between one half and one.\<close>

lemma sub_half_exact:
  assumes "rnd m = Fin m" and "1 / 2 \<le> m" and "m \<le> 1"
  shows "rnd (m - 1 / 2) = Fin (m - 1 / 2)"
proof (cases "m = 1")
  case False
  have v: "rmag m = m" using assms(1,2) by (simp add: rnd_Fin_iff rval_def)
  have "bexp m < 0" using bexp_le [of m 0] assms False by simp
  moreover have "- 1 \<le> bexp m" using bexp_ge [of "- 1" m] assms by (simp add: power_int_minus)
  ultimately have u: "uexp m = - 53" by (simp add: uexp_def)
  obtain k where k: "m = of_int k * 2 powi (- 53)" "0 \<le> k" "k \<le> 2 ^ 53"
    using rmag_form [of m] assms(2) v u by auto
  have h: "(1 / 2 :: rat) = of_int (2 ^ 52) * 2 powi (- 53)" by (simp add: power_int_minus)
  have "m - 1 / 2 = of_int (k - 2 ^ 52) * 2 powi (- 53)"
    unfolding of_int_diff left_diff_distrib h [symmetric] k(1) [symmetric] ..
  then show ?thesis
  proof (rule rnd_exact)
    show "\<bar>k - 2 ^ 52\<bar> \<le> 2 ^ 53" using k by simp
    show "\<bar>m - 1 / 2\<bar> < pow2 1024" using assms by (intro pow2_limit) simp
  qed simp
qed simp

lemma zone_step:
  assumes m: "rnd m = Fin m" "1 / 2 \<le> m" "m \<le> 1" and r: "fin_in 0 1 r"
  shows "\<exists>v w. fsub (flit 1) r = Fin v \<and> 0 \<le> v \<and> v \<le> 1 \<and> rnd ((m - 1 / 2) * v) = Fin w \<and> 0 \<le> w \<and> w \<le> m - 1 / 2
     \<and> compute_dynamic_max_post (Fin m) r = rnd (1 / 2 + w)"
proof -
  have "fin_in 0 1 (fsub (flit 1) r)" by (rule fin_in_sub [of 1 1 _ 0 1]) (use r in simp_all)
  then obtain v where v: "fsub (flit 1) r = Fin v" "0 \<le> v" "v \<le> 1" by (auto simp: fin_in_iff)
  have s: "fsub (Fin m) (flit (1 / 2)) = Fin (m - 1 / 2)" using sub_half_exact [OF m] by (simp add: fsub_def)
  have "(m - 1 / 2) * v \<le> m - 1 / 2" using m v by (intro mult_left_le) simp_all
  then have "fin_in 0 (m - 1 / 2) (rnd ((m - 1 / 2) * v))"
    using sub_half_exact [OF m] m v by (intro fin_in_rnd) simp_all
  with v s show ?thesis by (auto simp: fin_in_iff compute_dynamic_max_post_def)
qed

lemma zone_bounds:
  assumes m: "rnd m = Fin m" "1 / 2 \<le> m" "m \<le> 1" and r: "fin_in 0 1 r"
  shows "fin_in (1 / 2) m (compute_dynamic_max_post (Fin m) r)"
proof -
  obtain w where "0 \<le> w" "w \<le> m - 1 / 2" "compute_dynamic_max_post (Fin m) r = rnd (1 / 2 + w)"
    using zone_step [OF assms] by blast
  then show ?thesis using m(1) by (auto intro!: fin_in_rnd)
qed

lemma zone_antitone:
  assumes m: "rnd m = Fin m" "1 / 2 \<le> m" "m \<le> 1" and r: "fin_in 0 1 r" and s: "fin_in 0 1 s" and le: "fle r s"
  shows "fle (compute_dynamic_max_post (Fin m) s) (compute_dynamic_max_post (Fin m) r)"
proof -
  obtain v w where 1: "fsub (flit 1) r = Fin v" "0 \<le> v" "rnd ((m - 1 / 2) * v) = Fin w"
    "compute_dynamic_max_post (Fin m) r = rnd (1 / 2 + w)" using zone_step [OF m r] by blast
  obtain v' w' where 2: "fsub (flit 1) s = Fin v'" "0 \<le> v'" "rnd ((m - 1 / 2) * v') = Fin w'"
    "compute_dynamic_max_post (Fin m) s = rnd (1 / 2 + w')" using zone_step [OF m s] by blast
  obtain a b where ab: "r = Fin a" "s = Fin b" "a \<le> b" using r s le by (auto simp: fin_in_iff)
  have "v' \<le> v" using 1(1) 2(1) ab rval_mono [of "1 - b" "1 - a"] by (auto simp: fsub_def rnd_Fin_iff)
  then have "(m - 1 / 2) * v' \<le> (m - 1 / 2) * v" using m by (intro mult_left_mono) simp_all
  then have "w' \<le> w" using 1(3) 2(3) rval_mono by (auto simp: rnd_Fin_iff)
  then have le: "rval (1 / 2 + w') \<le> rval (1 / 2 + w)" by (intro rval_mono) simp
  obtain p q where "rnd (1 / 2 + w) = Fin p" "rnd (1 / 2 + w') = Fin q"
    using 1(4) 2(4) zone_bounds [OF m r] zone_bounds [OF m s] by (auto simp: fin_in_iff)
  with le 1(4) 2(4) show ?thesis by (auto simp: rnd_Fin_iff)
qed

lemma risk_unit:
  assumes "fin_in 0 1 c" and "fin_in 0 1 t" and "fin_in (- 1) 1 a"
  shows "fin_in 0 1 (compute_rebalance_risk c t a)"
proof -
  have l: "fin_in 0 1 (flit (3 / 10))" "fin_in 0 1 (flit (7 / 10))" "fin_in 0 1 (flit (1 / 2))"
    by (auto simp: flit_def intro!: fin_in_rnd)
  have "fin_in 0 1 (fmul (flit (7 / 10)) t)" by (rule fin_in_mul [OF l(2) assms(2)]) simp_all
  then have "fin_in 0 2 (fadd (flit (3 / 10)) (fmul (flit (7 / 10)) t))" by (rule fin_in_add [OF l(1)]) simp_all
  then have "fin_in 0 2 (fmul c (fadd (flit (3 / 10)) (fmul (flit (7 / 10)) t)))"
    by (rule fin_in_mul [OF assms(1)]) simp_all
  moreover have "is_fin (fadd (flit 1) (fmul (flit (1 / 2)) a))"
  proof -
    obtain v where v: "a = Fin v" "- 1 \<le> v" "v \<le> 1" using assms(3) by (auto simp: fin_in_iff)
    then have "fin_in (- 1) 1 (fmul (flit (1 / 2)) a)" by (auto intro!: fin_in_rnd)
    then have "fin_in (- 2) 2 (fadd (flit 1) (fmul (flit (1 / 2)) a))" by (intro fin_in_add [of 1 1 _ "- 1" 1 _ "- 2" 2]) simp_all
    then show ?thesis by (auto simp: fin_in_iff)
  qed
  ultimately have "fmul (fmul c (fadd (flit (3 / 10)) (fmul (flit (7 / 10)) t))) (fadd (flit 1) (fmul (flit (1 / 2)) a)) \<noteq> NaN"
    by (cases "fadd (flit 1) (fmul (flit (1 / 2)) a)") (auto simp: fin_in_iff)
  then show ?thesis unfolding compute_rebalance_risk_def by (simp add: fin_in_clamp)
qed

lemma view_parts:
  assumes "fin_in 0 1 (vw_fv_yes (risk_view_of L now e))" and "fin_in (- 1) 1 (fe_last_momentum (en_fv e))"
  shows "fin_in 0 1 (vw_conviction (risk_view_of L now e))" "fin_in 0 1 (vw_time_pressure (risk_view_of L now e))"
    "fin_in (- 1) 1 (vw_alignment (risk_view_of L now e))"
proof -
  let ?fv = "vw_fv_yes (risk_view_of L now e)" and ?m = "fe_last_momentum (en_fv e)"
  obtain x where x: "?fv = Fin x" "0 \<le> x" "x \<le> 1" using assms(1) by (auto simp: fin_in_iff)
  have "rnd (- (1 / 2)) = Fin (- (1 / 2))" by code_simp
  then have "\<exists>y. fsub ?fv (flit (1 / 2)) = Fin y \<and> - (1 / 2) \<le> y \<and> y \<le> 1 / 2"
    using rnd_between [OF _ rnd_half, of "- (1 / 2)" "x - 1 / 2"] x by (simp add: fsub_def)
  then obtain y where y: "fsub ?fv (flit (1 / 2)) = Fin y" "\<bar>y\<bar> \<le> 1 / 2" by (auto simp: abs_le_iff)
  then have "fin_in 0 1 (fmul (fabs (fsub ?fv (flit (1 / 2)))) (flit 2))" by (auto intro!: fin_in_rnd)
  then show "fin_in 0 1 (vw_conviction (risk_view_of L now e))" by (simp add: risk_view_of_def Let_def)
  let ?t = "fdiv (f_of_u64 (saturating_sub (market_end_timestamp_ms (en_state e)) now)) (flit 300000)"
  have "fin_in 0 1 (fclamp ?t (Fin 0) (Fin 1))"
    by (rule fin_in_clamp) (cases "f_of_u64 (saturating_sub (market_end_timestamp_ms (en_state e)) now)"; simp add: f_of_u64_def)+
  then have "fin_in 0 1 (fsub (flit 1) (fclamp ?t (flit 0) (flit 1)))" by (intro fin_in_sub [of 1 1 _ 0 1]) simp_all
  then show "fin_in 0 1 (vw_time_pressure (risk_view_of L now e))" by (simp add: risk_view_of_def Let_def)
  let ?d = "if fle (flit (1 / 2)) ?fv then flit 1 else flit (- 1)" and ?a = "fmax (fv_max_momentum_adj (en_fv_config e)) (flit (1 / 1000))"
  obtain u where u: "?m = Fin u" "- 1 \<le> u" "u \<le> 1" using assms(2) by (auto simp: fin_in_iff)
  have n: "fin_in (- 1) 1 (fmul ?m ?d)" using u by (auto simp: flit_def intro!: fin_in_rnd)
  have k: "is_fin (flit (1 / 1000)) \<and> flt (Fin 0) (flit (1 / 1000))" by code_simp
  have p: "flt (Fin 0) ?a"
    using k by (cases "fv_max_momentum_adj (en_fv_config e)"; cases "flit (1 / 1000)") (auto simp: fmax_def)
  have "fdiv (fmul ?m ?d) ?a \<noteq> NaN"
    using n p by (cases ?a; cases "fmul ?m ?d") auto
  then have "fin_in (- 1) 1 (fclamp (fdiv (fmul ?m ?d) ?a) (flit (- 1)) (flit 1))"
    by (simp add: flit_def fin_in_clamp)
  then show "fin_in (- 1) 1 (vw_alignment (risk_view_of L now e))" by (simp add: risk_view_of_def Let_def)
qed

text \<open>
  The posting zone. With a fair value between zero and one, a momentum within one and a
  configured extremity \<open>m\<close> between one half and one, the rebalance risk of the moment lies between
  zero and one and the largest price to post lies between one half and \<open>m\<close>, in binary64
  arithmetic with its roundings: it is exactly \<open>m\<close> without risk and exactly one half at full
  risk, and more risk never widens the zone.
\<close>

theorem posting_zone_narrows:
  assumes "fin_in 0 1 (vw_fv_yes (risk_view_of L now e))" and "fin_in (- 1) 1 (fe_last_momentum (en_fv e))"
    and "qc_max_fair_value_extremity (en_quoting e) = Fin m" and "rnd m = Fin m" and "1 / 2 \<le> m" and "m \<le> 1"
    and "fin_in 0 1 r" and "fin_in 0 1 s" and "fle r s"
  shows "fin_in 0 1 (vw_risk (risk_view_of L now e)) \<and> fin_in (1 / 2) m (vw_dynamic_max (risk_view_of L now e))
    \<and> compute_dynamic_max_post (Fin m) (Fin 0) = Fin m \<and> compute_dynamic_max_post (Fin m) (Fin 1) = Fin (1 / 2)
    \<and> fle (compute_dynamic_max_post (Fin m) s) (compute_dynamic_max_post (Fin m) r)"
proof -
  let ?v = "risk_view_of L now e"
  have v: "vw_risk ?v = compute_rebalance_risk (vw_conviction ?v) (vw_time_pressure ?v) (vw_alignment ?v)"
    "vw_dynamic_max ?v = compute_dynamic_max_post (Fin m) (vw_risk ?v)"
    by (simp_all add: risk_view_of_def Let_def assms(3))
  have r: "fin_in 0 1 (vw_risk ?v)" unfolding v(1) by (rule risk_unit [OF view_parts [OF assms(1,2)]])
  have "compute_dynamic_max_post (Fin m) (Fin 0) = Fin m" "compute_dynamic_max_post (Fin m) (Fin 1) = Fin (1 / 2)"
    using sub_half_exact [OF assms(4-6)] assms(4) by (simp_all add: compute_dynamic_max_post_def fsub_def)
  with r zone_bounds [OF assms(4-6) r] zone_antitone [OF assms(4-9)] v(2) show ?thesis by simp
qed

lemma posting_zone_narrows_witness:
  "fin_in (1 / 2) (3 / 4) (vw_dynamic_max (risk_view_of exact_lib 1000 (demo_engine position_new)))"
proof -
  have "rnd (3 / 4) = Fin (3 / 4)" by code_simp
  moreover have "vw_fv_yes (risk_view_of exact_lib 1000 (demo_engine position_new)) = Fin (1 / 2)"
    by (simp add: risk_view_of_def Let_def rnd_half)
  ultimately show ?thesis
    using posting_zone_narrows [of exact_lib 1000 "demo_engine position_new" "3 / 4" "Fin 0" "Fin 1"] by simp
qed

section \<open>Fills are counted once, through the whole engine\<close>

definition last_cleared :: "market_side \<Rightarrow> quoter \<Rightarrow> cleared_order option" where
  "last_cleared sd q = (case sd of Yes \<Rightarrow> yes_last_cleared q | No \<Rightarrow> no_last_cleared q)"

text \<open>
  The quoter has seen \<open>f\<close> shares of order \<open>i\<close>: the order still rests with that figure, or it is
  cleared with at least its size.
\<close>

definition seen_shares :: "market_side \<Rightarrow> string \<Rightarrow> dec \<Rightarrow> dec \<Rightarrow> dec \<Rightarrow> quoter \<Rightarrow> bool" where
  "seen_shares sd i price sz f q \<longleftrightarrow> (case q_order sd q of
      Some o1 \<Rightarrow> mo_order_id o1 = i \<and> mo_price o1 = price \<and> mo_size o1 = sz \<and> mo_size_filled o1 = f
    | None \<Rightarrow> last_cleared sd q = Some \<lparr> co_order_id = i, co_price = price, co_size_filled = f \<rparr> \<and> sz \<le> f)"

definition foreign_id :: "market_side \<Rightarrow> string \<Rightarrow> quoter \<Rightarrow> bool" where
  "foreign_id sd i q \<longleftrightarrow> (case q_order (opposite sd) q of None \<Rightarrow> True | Some o2 \<Rightarrow> mo_order_id o2 \<noteq> i)"

definition ws_report :: "'a lib_scheme \<Rightarrow> string \<Rightarrow> u64 \<Rightarrow> engine \<Rightarrow> dec \<Rightarrow> engine" where
  "ws_report L i now e c = on_trade_status_update L i Matched (Some c) now e"

lemma pos_side_record_fill [simp]:
  "total_shares (pos_side sd (record_fill sd' price sz tk fee p)) = total_shares (pos_side sd p) + (if sd = sd' then sz else 0)"
  by (cases sd; cases sd') (simp_all add: position_defs Let_def)

lemma match_order_seen:
  assumes "seen_shares sd i price sz f q" and "foreign_id sd i q"
  shows "match_order i q = (if q_order sd q = None then None else Some sd)"
  using assms by (cases sd) (auto simp: match_order_def seen_shares_def foreign_id_def q_order_def Let_def split: option.splits)

lemma seen_after_report:
  assumes "q_order sd q = Some o1" and "record_ws_fill sd c q = (d, q1)"
  shows "d = max (c - mo_size_filled o1) 0"
    and "q_order sd q1 = Some (o1\<lparr> mo_size_filled := max (mo_size_filled o1) c \<rparr>)"
    and "q_order (opposite sd) q1 = q_order (opposite sd) q"
    and "last_cleared sd (on_fill sd True q1) = Some (cleared_of (o1\<lparr> mo_size_filled := max (mo_size_filled o1) c \<rparr>))"
  using assms by (cases sd; auto simp: record_ws_fill_def q_order_def on_fill_def last_cleared_def opposite_def)+

lemma ws_report_step:
  assumes s: "seen_shares sd i price sz f (en_quoter e)" and o: "foreign_id sd i (en_quoter e)"
    and c: "c \<le> sz" and f: "0 \<le> f"
  shows "seen_shares sd i price sz (max f c) (en_quoter (ws_report L i now e c))
    \<and> foreign_id sd i (en_quoter (ws_report L i now e c))
    \<and> total_shares (pos_side sd (en_position (ws_report L i now e c)))
        = total_shares (pos_side sd (en_position e)) + (max f c - f)
    \<and> total_shares (pos_side (opposite sd) (en_position (ws_report L i now e c)))
        = total_shares (pos_side (opposite sd) (en_position e))"
proof (cases "q_order sd (en_quoter e)")
  case None
  then have "sz \<le> f" using s by (simp add: seen_shares_def)
  then have "max f c = f" using c by simp
  moreover have "ws_report L i now e c = e"
    using match_order_seen [OF s o] None by (simp add: ws_report_def on_trade_status_update_def)
  ultimately show ?thesis using s o by simp
next
  case (Some o1)
  then have o1: "mo_order_id o1 = i" "mo_price o1 = price" "mo_size o1 = sz" "mo_size_filled o1 = f"
    using s by (simp_all add: seen_shares_def)
  have m: "match_order i (en_quoter e) = Some sd" using match_order_seen [OF s o] Some by simp
  obtain d q1 where q1: "record_ws_fill sd c (en_quoter e) = (d, q1)" by fastforce
  note q = seen_after_report [OF Some q1, unfolded o1]
  have sd: "opposite sd \<noteq> sd" by (cases sd) (simp_all add: opposite_def)
  have foreign: "foreign_id sd i q1" "foreign_id sd i (on_fill sd b q1)" for b
    using o sd q(3) by (simp_all add: foreign_id_def)
  show ?thesis
  proof (cases "f < c")
    case False
    then have "max f c = f" by simp
    moreover have "ws_report L i now e c = (if 0 < c then e\<lparr> en_quoter := q1 \<rparr> else e)"
      using m False q1 q(1) by (simp add: ws_report_def on_trade_status_update_def record_ws_delta_def)
    ultimately show ?thesis using s o foreign q(2) o1 Some by (simp add: seen_shares_def)
  next
    case True
    then have mx: "max f c = c" "d = c - f" "0 < d" "0 < c" using q(1) f by simp_all
    have eq: "en_quoter (ws_report L i now e c) = on_fill sd (sz \<le> c) q1"
      "en_position (ws_report L i now e c) = record_fill sd price d False 0 (en_position e)"
      using m mx q1 q(2) o1
      by (simp_all add: ws_report_def on_trade_status_update_def record_ws_delta_def Let_def frame_simps)
    have "seen_shares sd i price sz c (on_fill sd (sz \<le> c) q1)"
      using q(2,4) mx o1 by (simp add: seen_shares_def cleared_of_def)
    with eq foreign mx sd show ?thesis by simp
  qed
qed

lemma ws_reports:
  assumes "seen_shares sd i price sz f (en_quoter e)" and "foreign_id sd i (en_quoter e)"
    and "list_all (\<lambda>c. c \<le> sz) cs" and "0 \<le> f"
  shows "seen_shares sd i price sz (foldl max f cs) (en_quoter (foldl (ws_report L i now) e cs))
    \<and> total_shares (pos_side sd (en_position (foldl (ws_report L i now) e cs)))
        = total_shares (pos_side sd (en_position e)) + (foldl max f cs - f)
    \<and> total_shares (pos_side (opposite sd) (en_position (foldl (ws_report L i now) e cs)))
        = total_shares (pos_side (opposite sd) (en_position e))"
  using assms
proof (induction cs arbitrary: e f)
  case (Cons c cs)
  have c: "c \<le> sz" using Cons.prems(3) by simp
  note s = ws_report_step [OF Cons.prems(1,2) c Cons.prems(4), of L now]
  from Cons.IH [of "max f c" "ws_report L i now e c"] s Cons.prems show ?case by simp
qed simp

lemma lookup_seen:
  "seen_shares sd i price sz f q \<Longrightarrow> lookup_order_for_cancel sd i q = Some (price, f)"
  by (cases "q_order sd q"; cases sd)
    (simp_all add: seen_shares_def lookup_order_for_cancel_def lookup_cleared_def last_cleared_def)

lemma foldl_max_ge: "a \<le> foldl max (a :: dec) xs"
  by (induction xs arbitrary: a) (auto intro: order_trans [OF max.cobounded1])

text \<open>
  C17. Fills are counted once, from the wire to the position. A just posted order rests on a side.
  The user channel reports its matched total any number of times, in any order, with repeats,
  out-of-date figures and zeros, never above the order's size; then the executor answers the
  cancel with its own figure. Afterwards nothing rests on that side, its shares have grown by
  exactly the largest figure anyone reported, and the other side has not changed.
\<close>

theorem engine_counts_fills_once:
  assumes "q_order sd (en_quoter e) = Some o1" and "mo_size_filled o1 = 0"
    and "foreign_id sd (mo_order_id o1) (en_quoter e)" and "list_all (\<lambda>c. c \<le> mo_size o1) cs"
    and "e' = on_feedback L t (CancelResult sd (mo_order_id o1) (Some m)) (foldl (ws_report L (mo_order_id o1) now) e cs)"
  shows "total_shares (pos_side sd (en_position e'))
      = total_shares (pos_side sd (en_position e)) + foldl max 0 (cs @ [m])
    \<and> total_shares (pos_side (opposite sd) (en_position e')) = total_shares (pos_side (opposite sd) (en_position e))
    \<and> q_order sd (en_quoter e') = None"
proof -
  let ?i = "mo_order_id o1" and ?r = "foldl (ws_report L (mo_order_id o1) now) e cs" and ?f = "foldl max 0 cs"
  have s: "seen_shares sd ?i (mo_price o1) (mo_size o1) 0 (en_quoter e)" using assms(1,2) by (simp add: seen_shares_def)
  note r = ws_reports [OF s assms(3,4), of L now]
  have l: "lookup_order_for_cancel sd ?i (en_quoter ?r) = Some (mo_price o1, ?f)" by (rule lookup_seen [OF conjunct1 [OF r [OF order_refl]]])
  have f0: "0 \<le> ?f" by (rule foldl_max_ge)
  have sd: "opposite sd \<noteq> sd" by (cases sd) (simp_all add: opposite_def)
  have "q_order sd (en_quoter e') = None" by (simp add: assms(5) fb_frames)
  moreover have "en_position e' = (if 0 < m \<and> ?f < m
      then record_fill sd (mo_price o1) (m - ?f) False 0 (en_position ?r) else en_position ?r)"
    using l f0 by (simp add: assms(5) fb_cancel_result_def Let_def frame_simps)
  ultimately show ?thesis using r [OF order_refl] f0 sd by (auto simp: max_def)
qed

lemma engine_counts_fills_once_witness:
  "let e = on_feedback exact_lib 1000 (OrderPosted Yes ''o'' (2 / 5) 20 False) (demo_engine position_new);
       r = foldl (ws_report exact_lib ''o'' 1001) e [5, 3, 5, 0]
   in total_shares (yes_pos (en_position (on_feedback exact_lib 1002 (CancelResult Yes ''o'' (Some 12)) r))) = 12"
proof -
  let ?e = "on_feedback exact_lib 1000 (OrderPosted Yes ''o'' (2 / 5) 20 False) (demo_engine position_new)"
  obtain o1 where o1: "q_order Yes (en_quoter ?e) = Some o1" "mo_size_filled o1 = 0" "mo_order_id o1 = ''o''" "mo_size o1 = 20"
    by (simp add: fb_order_posted_def)
  have "foreign_id Yes (mo_order_id o1) (en_quoter ?e)" "en_position ?e = position_new"
    by (simp_all add: foreign_id_def fb_order_posted_def q_order_def on_order_posted_def quoter_new_def)
  then show ?thesis
    using engine_counts_fills_once [OF o1(1,2) _ _ refl, of "[5, 3, 5, 0]" exact_lib 1002 12 1001] o1(3,4)
    by (simp add: side_new_def)
qed

section \<open>What a late answer does\<close>

text \<open>
  C39. A rotation does not wait for the executor. When the answer to a post of the old market
  arrives after the rotation, its order rests in the quoter of the new market, under the old
  order id, although it was placed for the old token: the resting side blocks posts of the new
  market until a cancel of that id is answered.
\<close>

theorem stale_post_rests_in_new_market:
  "q_order sd (en_quoter (on_feedback L t (OrderPosted sd i price sz False)
       (on_market_rotation L cid y n end_ms tick now e)))
     = Some \<lparr> mo_order_id = i, mo_price = price, mo_size = sz, mo_posted_ms = t,
         mo_fair_value_at_post = unwrap_or (d_of_f64 L (Fin (1 / 2))) (dnew 50 2),
         mo_ask_at_post = 1, mo_size_filled = 0 \<rparr>
   \<and> (\<forall>target fv ask lag tok p qc rk tok' price' sz'. evaluate_side L (en_quoter (on_feedback L t (OrderPosted sd i price sz False)
       (on_market_rotation L cid y n end_ms tick now e))) sd target fv ask lag tok p qc rk \<noteq> Some (QPost sd tok' price' sz'))"
proof -
  let ?r = "on_market_rotation L cid y n end_ms tick now e"
  let ?q = "en_quoter (on_feedback L t (OrderPosted sd i price sz False) ?r)"
  have b: "side_book sd (en_state ?r) = None" for sd
    by (cases sd) (simp_all add: side_book_def rotation_fields [OF refl])
  have f: "(case sd of Yes \<Rightarrow> yes_fair_value L (en_fv ?r) | No \<Rightarrow> no_fair_value L (en_fv ?r))
    = unwrap_or (d_of_f64 L (Fin (1 / 2))) (dnew 50 2)"
    by (cases sd) (simp_all add: rotation_fields [OF refl] yes_fair_value_def no_fair_value_def fe_new_def)
  have q: "q_order sd ?q = Some \<lparr> mo_order_id = i, mo_price = price, mo_size = sz, mo_posted_ms = t,
         mo_fair_value_at_post = unwrap_or (d_of_f64 L (Fin (1 / 2))) (dnew 50 2),
         mo_ask_at_post = 1, mo_size_filled = 0 \<rparr>"
    by (simp add: fb_order_posted_def b f book_ask_def unwrap_or_def Let_def del: split_paired_All)
  then show ?thesis using evaluate_side_post by fastforce
qed

text \<open>
  With a requote threshold of zero or below, such as the shipped \<open>0.0\<close>, a resting order is
  never held: when the decision about a resting order is reached it is cancelled, whatever the
  fair value and the ask do, as long as the drift reads back as a number that is not negative.
\<close>

theorem zero_threshold_never_holds:
  assumes "fle (qc_requote_threshold qc) (Fin 0)"
    and "fle (Fin 0) (dec_text_f64 L \<bar>fv - mo_fair_value_at_post o1\<bar>)"
  shows "quote_resting L sd fv ask o1 qc = Some (QCancel sd (mo_order_id o1))"
  using fle_trans [OF assms] by (simp add: quote_resting_def Let_def)

lemma zero_threshold_never_holds_witness:
  "quote_resting exact_lib Yes (1 / 2) (3 / 5) \<lparr> mo_order_id = ''o'', mo_price = 2 / 5, mo_size = 20, mo_posted_ms = 0,
     mo_fair_value_at_post = 1 / 2, mo_ask_at_post = 3 / 5, mo_size_filled = 0 \<rparr>
     (quoting_default\<lparr> qc_requote_threshold := Fin 0 \<rparr>) = Some (QCancel Yes ''o'')"
proof -
  have "dec_text_f64 exact_lib 0 = Fin 0" by code_simp
  then show ?thesis by (subst zero_threshold_never_holds) simp_all
qed

end
