(* ===== verification/ExecutorProps.thy ===== *)
theory ExecutorProps
  imports Executor LifecycleProps
begin

text \<open>
  What the executor promises: sizes the exchange accepts, exactly one answer per order command,
  no order while the caches are cold; and what happens when a cancel fails.
\<close>

section \<open>Fill-or-kill sizes\<close>

lemma two_dp_grid: "round_dp_law L \<Longrightarrow> two_dp L n \<longleftrightarrow> grid 2 n"
  unfolding two_dp_def round_dp_law_def by metis

lemma grid_int: "grid n (of_int k)"
  by (simp add: grid_def)

lemma grid2_iff: "grid 2 x \<longleftrightarrow> (\<exists>m. x = of_int m / 100)"
  by (auto simp: grid_def Ints_def divide_eq_eq eq_divide_eq)

text \<open>A size that satisfies the rules of the exchange at a price.\<close>

definition fok_valid :: "dec \<Rightarrow> dec \<Rightarrow> bool" where
  "fok_valid price t \<longleftrightarrow> 0 < t \<and> grid 2 t \<and> grid 2 (price * t) \<and> 1 \<le> price * t"

lemma grid2_step: "grid 2 s \<Longrightarrow> grid 2 (s - 1 / 100)" "grid 2 s \<Longrightarrow> grid 2 (s + 1 / 100)"
  unfolding grid2_iff
  by (metis diff_divide_distrib of_int_1 of_int_diff) (metis add_divide_distrib of_int_1 of_int_add)

lemma grid2_less: "grid 2 t \<Longrightarrow> grid 2 s \<Longrightarrow> t < s \<Longrightarrow> t \<le> s - 1 / 100"
proof -
  assume "grid 2 t" "grid 2 s" "t < s"
  then obtain a b where "t = of_int a / 100" "s = of_int b / 100" by (auto simp: grid2_iff)
  with \<open>t < s\<close> have "a < b" by (simp add: divide_less_cancel)
  then have "of_int a \<le> (of_int b - 1 :: rat)" by (metis of_int_1 of_int_diff of_int_le_iff zle_diff1_eq)
  with \<open>t = _\<close> \<open>s = _\<close> show ?thesis by simp
qed

lemma search_down_sound:
  assumes "round_dp_law L" and "grid 2 s" and "search_down L price s = Some r"
  shows "fok_valid price r \<and> r \<le> s"
  using assms
proof (induction L price s rule: search_down.induct)
  case (1 L price s)
  show ?case
  proof (cases "0 < s \<and> 1 \<le> price * s")
    case False
    with 1(4) show ?thesis by (subst (asm) search_down.simps) (auto simp: Let_def not_less split: if_splits)
  next
    case True
    show ?thesis
    proof (cases "two_dp L (price * s)")
      case T: True
      have "r = s" using 1(4) True T by (subst (asm) search_down.simps) (simp add: Let_def)
      with True T 1(2,3) show ?thesis by (simp add: fok_valid_def two_dp_grid)
    next
      case F: False
      have "search_down L price (s - dnew 1 2) = Some r"
        using 1(4) True F by (subst (asm) search_down.simps) (simp add: Let_def)
      from 1(1) [OF _ refl _ F 1(2) _ this] True grid2_step [OF 1(3)] show ?thesis by (simp add: dnew_def)
    qed
  qed
qed

lemma search_down_largest:
  assumes "round_dp_law L" and "grid 2 s" and "0 < price" and "fok_valid price t" and "t \<le> s"
  shows "\<exists>r. search_down L price s = Some r \<and> t \<le> r"
  using assms
proof (induction L price s rule: search_down.induct)
  case (1 L price s)
  have "price * t \<le> price * s" using 1(4,6) by (intro mult_left_mono) simp_all
  then have s: "0 < s" "1 \<le> price * s" using 1(5,6) by (auto simp: fok_valid_def)
  show ?case
  proof (cases "two_dp L (price * s)")
    case True
    with s 1(6) show ?thesis by (subst search_down.simps) (simp add: Let_def)
  next
    case False
    have "t \<noteq> s" using False 1(2,5) by (auto simp: fok_valid_def two_dp_grid)
    then have "t \<le> s - dnew 1 2" using 1(3,5,6) grid2_less [of t s] by (simp add: fok_valid_def dnew_def)
    from 1(1) [OF _ refl _ False 1(2) _ 1(4,5) this] s grid2_step [OF 1(3)]
    obtain r where "search_down L price (s - dnew 1 2) = Some r \<and> t \<le> r" by (auto simp: dnew_def)
    with s False show ?thesis by (subst search_down.simps) (simp add: Let_def)
  qed
qed

lemma search_up_sound:
  assumes "round_dp_law L" and "grid 2 s" and "search_up L price cap s = Some r"
  shows "grid 2 r \<and> grid 2 (price * r) \<and> s \<le> r \<and> r \<le> cap"
  using assms
proof (induction L price cap s rule: search_up.induct)
  case (1 L price cap s)
  show ?case
  proof (cases "s \<le> cap \<and> \<not> two_dp L (price * s)")
    case True
    then have "search_up L price cap (s + dnew 1 2) = Some r" using 1(4) by (subst (asm) search_up.simps) simp
    from 1(1) [OF _ _ 1(2) _ this] True grid2_step(2) [OF 1(3)] show ?thesis by (simp add: dnew_def)
  next
    case False
    with 1(4) have "s \<le> cap" "two_dp L (price * s)" "r = s"
      by (subst (asm) search_up.simps; auto split: if_splits)+
    with 1(2,3) show ?thesis by (simp add: two_dp_grid)
  qed
qed

text \<open>The smallest whole size worth a dollar, at a price on a tick of one thousandth or coarser.\<close>

lemma ceil_inverse:
  assumes "div_law L" and "div_exact_law L" and k: "0 < k" "k \<le> 1000"
  shows "dec_ceil (d_div L 1 (of_int k / 1000)) = of_int \<lceil>1000 / of_int k :: rat\<rceil>"
proof -
  let ?x = "1000 / of_int k :: rat" and ?d = "d_div L 1 (of_int k / 1000)"
  define m where "m = \<lceil>?x\<rceil>"
  have kp: "0 < (of_int k :: rat)" "of_int k \<le> (1000 :: rat)" using k by (simp_all add: of_int_le_iff [of k 1000, simplified])
  have xb: "1 \<le> ?x" "?x \<le> 1000" using kp k by (simp_all add: le_divide_eq divide_le_eq)
  have eq: "1 / (of_int k / 1000) = ?x" by simp
  have m: "of_int (m - 1) < ?x" "?x \<le> of_int m" unfolding m_def by linarith+
  have "\<lceil>?d\<rceil> = m"
  proof (cases "?x = of_int m")
    case True
    then have "grid 20 ?x" using grid_int by metis
    moreover have "\<bar>?x\<bar> < 10 ^ 8" using xb by simp
    moreover have "of_int k / 1000 \<noteq> (0 :: rat)" using kp by simp
    ultimately have "?d = ?x" using assms(2) unfolding div_exact_law_def by (metis eq)
    then show ?thesis by (simp add: m_def)
  next
    case False
    have 1: "(m - 1) * k < 1000" 
    proof -
      have "of_int ((m - 1) * k) < (1000 :: rat)" using m(1) kp by (simp add: less_divide_eq)
      then show ?thesis by (metis of_int_less_iff of_int_numeral)
    qed
    have 2: "1000 < m * k"
    proof -
      have "?x < of_int m" using m(2) False by simp
      then have "(1000 :: rat) < of_int (m * k)" using kp by (simp add: divide_less_eq)
      then show ?thesis by (metis of_int_less_iff of_int_numeral)
    qed
    have l: "of_int (m - 1) + 1 / of_int k \<le> ?x"
    proof -
      have "of_int ((m - 1) * k + 1) \<le> (1000 :: rat)" using 1 by (metis add1_zle_eq of_int_le_iff of_int_numeral)
      then have "of_int (m - 1) \<le> 999 / (of_int k :: rat)" using kp by (simp add: le_divide_eq)
      moreover have "?x - 1 / of_int k = 999 / of_int k" by (simp add: diff_divide_distrib [symmetric])
      ultimately show ?thesis by simp
    qed
    have u: "?x \<le> of_int m - 1 / of_int k"
    proof -
      have "of_int 1001 \<le> (of_int (m * k) :: rat)" unfolding of_int_le_iff using 2 by simp
      then have "1001 / (of_int k :: rat) \<le> of_int m" using kp by (simp add: divide_le_eq)
      moreover have "?x + 1 / of_int k = 1001 / of_int k" by (simp add: add_divide_distrib [symmetric])
      ultimately show ?thesis by simp
    qed
    have e: "dec_eps * max 1 ?x < 1 / of_int k"
    proof -
      have "dec_eps * max 1 ?x \<le> dec_eps * 1000" using xb dec_eps_pos by (intro mult_left_mono) (simp_all add: less_imp_le)
      also have "\<dots> < 1 / 1000" by (simp add: dec_eps_def)
      also have "\<dots> \<le> 1 / of_int k" using kp by (intro divide_left_mono) simp_all
      finally show ?thesis .
    qed
    have "\<bar>?d - ?x\<bar> < 1 / of_int k"
      using div_lawD [OF assms(1), of 1 "of_int k / 1000"] kp e by (simp add: eq)
    then have "of_int (m - 1) < ?d" "?d \<le> of_int m" using l u by (simp_all add: abs_less_iff)
    then show ?thesis by (simp add: ceiling_eq_iff)
  qed
  then show ?thesis by (simp add: dec_ceil_def m_def)
qed

lemma fok_size_cases:
  assumes L: "round_dp_law L" "div_exact_law L" "0 < price" and sz: "0 \<le> sz" "grid 18 sz" "sz < 10 ^ 5"
  obtains r where "clob_safe_fok_size L price sz = r" "fok_valid price r" "r \<le> sz" "\<And>t. fok_valid price t \<Longrightarrow> t \<le> sz \<Longrightarrow> t \<le> r"
  | "\<And>t. fok_valid price t \<Longrightarrow> \<not> t \<le> sz"
    "clob_safe_fok_size L price sz = unwrap_or (search_up L price (dec_ceil (d_div L 1 price) + 100) (dec_ceil (d_div L 1 price))) 0"
proof -
  define tr where "tr = (of_int \<lfloor>sz * 100\<rfloor> / 100 :: dec)"
  have "grid 20 (sz * 100)"
  proof -
    have "sz * 100 * 10 ^ 20 = sz * 10 ^ 18 * of_int 10000" by simp
    with sz(2) show ?thesis unfolding grid_def by (metis Ints_mult Ints_of_int)
  qed
  moreover have "\<bar>sz * 100\<bar> < 10 ^ 8" using sz by simp
  ultimately have "d_div L sz (1 / 100) = sz * 100" using L(2) [unfolded div_exact_law_def, THEN spec, THEN spec, of "1 / 100" sz] by simp
  then have trunc: "dec_floor (d_div L sz (dnew 1 2)) * dnew 1 2 = tr" by (simp add: dnew_def dec_floor_def tr_def)
  have tg: "grid 2 tr" unfolding grid2_iff tr_def by blast
  have "of_int \<lfloor>sz * 100\<rfloor> \<le> sz * 100" by linarith
  then have tle: "tr \<le> sz" by (simp add: tr_def)
  have tmax: "t \<le> tr" if h: "grid 2 t" "t \<le> sz" for t
  proof -
    obtain m where m: "t = of_int m / 100" using h(1) unfolding grid2_iff by blast
    have "of_int m \<le> sz * 100" using h(2) unfolding m by simp
    then have "m \<le> \<lfloor>sz * 100\<rfloor>" unfolding le_floor_iff .
    then have "(of_int m :: rat) \<le> of_int \<lfloor>sz * 100\<rfloor>" unfolding of_int_le_iff .
    then show ?thesis unfolding m tr_def by (intro divide_right_mono) simp_all
  qed
  show ?thesis
  proof (cases "two_dp L (price * tr) \<and> 1 \<le> price * tr")
    case True
    have r: "clob_safe_fok_size L price sz = tr" using True L(3) by (simp add: clob_safe_fok_size_def trunc Let_def)
    have "0 < tr" using True L(3) by (metis less_le_trans mult_le_0_iff not_le zero_less_one order_less_imp_le)
    with True tg L(1) have "fok_valid price tr" by (simp add: fok_valid_def two_dp_grid)
    from that(1) [OF r this tle] tmax show ?thesis by (simp add: fok_valid_def)
  next
    case False
    define s where "s = (if dnew 1 2 \<le> tr then tr - dnew 1 2 else 0)"
    have sg: "grid 2 s" using tg grid2_step(1) [OF tg] by (simp add: s_def dnew_def grid_def)
    have sle: "s \<le> sz" using tle sz(1) by (simp add: s_def dnew_def)
    have smax: "t \<le> s" if v: "fok_valid price t" "t \<le> sz" for t
    proof -
      have t: "grid 2 t" "t \<le> tr" using v tmax by (simp_all add: fok_valid_def)
      have "t \<noteq> tr" using v False L(1) by (auto simp: fok_valid_def two_dp_grid)
      then have "t \<le> tr - 1 / 100" using grid2_less [OF t(1) tg] t(2) by simp
      moreover have "0 < t" using v by (simp add: fok_valid_def)
      ultimately show ?thesis by (simp add: s_def dnew_def)
    qed
    have r: "clob_safe_fok_size L price sz = (case search_down L price s of Some r \<Rightarrow> r
       | None \<Rightarrow> unwrap_or (search_up L price (dec_ceil (d_div L 1 price) + 100) (dec_ceil (d_div L 1 price))) 0)"
    proof -
      have d: "dnew 100 0 = 100" by (simp add: dnew_def)
      have p: "price \<noteq> 0" using L(3) by simp
      show ?thesis unfolding clob_safe_fok_size_def Let_def trunc d s_def [symmetric] if_not_P [OF p] if_not_P [OF False] ..
    qed
    show ?thesis
    proof (cases "search_down L price s")
      case None
      have "\<not> t \<le> sz" if "fok_valid price t" for t
        using search_down_largest [OF L(1) sg L(3) that] smax [OF that] None by auto
      with that(2) r None show ?thesis by simp
    next
      case (Some q)
      from search_down_sound [OF L(1) sg Some] have q: "fok_valid price q" "q \<le> sz" using sle by auto
      have "t \<le> q" if "fok_valid price t" "t \<le> sz" for t
        using search_down_largest [OF L(1) sg L(3) that(1) smax [OF that]] Some by auto
      with that(1) [OF _ q] r Some show ?thesis by simp
    qed
  qed
qed

lemma min_size_worth:
  assumes "0 < k" and "k \<le> 1000"
  shows "1 \<le> of_int k / 1000 * (of_int \<lceil>1000 / of_int k :: rat\<rceil> :: rat)" "0 < \<lceil>1000 / of_int k :: rat\<rceil>"
proof -
  have k: "0 < (of_int k :: rat)" using assms by simp
  have "1000 / of_int k \<le> (of_int \<lceil>1000 / of_int k :: rat\<rceil> :: rat)" by linarith
  then show "1 \<le> of_int k / 1000 * (of_int \<lceil>1000 / of_int k :: rat\<rceil> :: rat)"
    using k by (subst (asm) pos_divide_le_eq) (simp_all add: mult.commute)
  show "0 < \<lceil>1000 / of_int k :: rat\<rceil>" using k by simp
qed

text \<open>
  C28. The size of a fill-or-kill order. For a price on a tick of a thousandth or coarser and a
  size the engine can ask for, the result is zero or satisfies every rule of the exchange: two
  decimal places, a notional of two decimal places and at least one dollar. If any size up to the
  requested one satisfies them, the result is the largest such size. At a price in whole cents
  the result is never zero, and when the whole part of the request is worth a dollar, less than
  one share is given up and nothing is added.
\<close>

theorem fok_size_largest_valid:
  assumes "round_dp_law L" and "div_law L" and "div_exact_law L" and "price = of_int k / 1000" and "0 < k" and "k \<le> 1000"
    and "0 \<le> sz" and "grid 18 sz" and "sz < 10 ^ 5"
  shows "(clob_safe_fok_size L price sz = 0 \<or> fok_valid price (clob_safe_fok_size L price sz))
    \<and> (\<forall>t. fok_valid price t \<longrightarrow> t \<le> sz \<longrightarrow> t \<le> clob_safe_fok_size L price sz \<and> clob_safe_fok_size L price sz \<le> sz)
    \<and> (grid 2 price \<longrightarrow> 0 < clob_safe_fok_size L price sz
        \<and> (1 \<le> price * dec_floor sz \<longrightarrow> dec_floor sz \<le> clob_safe_fok_size L price sz \<and> clob_safe_fok_size L price sz \<le> sz))"
proof -
  let ?r = "clob_safe_fok_size L price sz"
  have p: "0 < price" using assms(4,5) by simp
  have fl: "fok_valid price (dec_floor sz) \<and> dec_floor sz \<le> sz" if "grid 2 price" "1 \<le> price * dec_floor sz"
  proof -
    have "0 < dec_floor sz" using that(2) p by (metis less_le_trans mult_le_0_iff not_le zero_less_one order_less_imp_le)
    moreover have "grid 2 (price * of_int n)" for n
      using that(1) unfolding grid_def by (metis Ints_mult Ints_of_int mult.assoc mult.commute)
    moreover have "dec_floor sz \<le> sz" unfolding dec_floor_def by linarith
    ultimately show ?thesis using that(2) by (simp add: fok_valid_def dec_floor_def grid_int)
  qed
  from assms(1,3) p assms(7-9) show ?thesis
  proof (cases rule: fok_size_cases)
    case (1 r)
    with fl show ?thesis by (auto simp: fok_valid_def)
  next
    case 2
    let ?m = "\<lceil>1000 / of_int k :: rat\<rceil>"
    have c: "dec_ceil (d_div L 1 price) = of_int ?m" unfolding assms(4) by (rule ceil_inverse [OF assms(2,3,5,6)])
    have w: "1 \<le> price * of_int ?m" "0 < ?m" unfolding assms(4) using min_size_worth [OF assms(5,6)] .
    have valid: "?r = 0 \<or> fok_valid price ?r"
    proof (cases "search_up L price (of_int ?m + 100) (of_int ?m)")
      case None
      with 2 c show ?thesis by simp
    next
      case (Some r)
      note u = search_up_sound [OF assms(1) grid_int Some]
      then have "price * of_int ?m \<le> price * r" using p by (intro mult_left_mono) simp_all
      moreover have "0 < r" using u w(2) by (meson less_le_trans of_int_0_less_iff)
      ultimately have "fok_valid price r" using u w(1) by (simp add: fok_valid_def)
      with Some 2 c show ?thesis by simp
    qed
    have "0 < ?r" if "grid 2 price"
    proof -
      have "grid 2 (price * of_int ?m)"
        using that unfolding grid_def by (metis Ints_mult Ints_of_int mult.assoc mult.commute)
      then have "search_up L price (of_int ?m + 100) (of_int ?m) = Some (of_int ?m)"
        using assms(1) by (subst search_up.simps) (simp add: two_dp_grid)
      with 2 c w(2) show ?thesis by simp
    qed
    with valid 2(1) fl show ?thesis by auto
  qed
qed

lemma fok_size_largest_valid_witness:
  "fok_valid (53 / 100) (clob_safe_fok_size exact_lib (53 / 100) (1037 / 100)) \<and> 10 \<le> clob_safe_fok_size exact_lib (53 / 100) (1037 / 100)"
proof -
  have "grid 18 (1037 / 100)" "grid 2 (53 / 100)" unfolding grid_def by simp_all
  moreover have "dec_floor (1037 / 100) = 10" by code_simp
  ultimately show ?thesis
    using fok_size_largest_valid [of exact_lib "53 / 100" 530 "1037 / 100"] by auto
qed

end
