(* ===== verification/Sbe.thy ===== *)
theory Sbe
  imports Channels
begin

text \<open>
  The spot gateway of \<open>src/src/gateway/binance/ws.rs\<close>: the decoder of Binance's binary (SBE)
  messages, the dispatch to engine events, the frame loop and the reconnect loop. A message is a
  list of bytes. The TLS connection is a parameter: a session is the list of frames read until
  the connection is lost, each with the clock, the free slots of the channel and whether a pong
  can be written. Arithmetic on machine integers wraps, as it does in the release profile.
\<close>

section \<open>Reading\<close>

type_synonym bytes = "u8 list"

definition le_nat :: "bytes \<Rightarrow> nat" where
  "le_nat bs = foldr (\<lambda>b n. unat b + 256 * n) bs 0"

definition read_i64 :: "bytes \<Rightarrow> nat \<Rightarrow> int outcome" where
  "read_i64 buf offset = (if offset + 8 \<le> length buf
     then Good (sint (of_nat (le_nat (take 8 (drop offset buf))) :: u64))
     else Err ''SBE i64 read out of bounds'')"

definition read_u16 :: "bytes \<Rightarrow> nat \<Rightarrow> nat outcome" where
  "read_u16 buf offset = (if offset + 2 \<le> length buf
     then Good (le_nat (take 2 (drop offset buf))) else Err ''SBE u16 read out of bounds'')"

text \<open>\<open>body[i] as i8\<close>; every use is behind a check of the length.\<close>

definition byte_i8 :: "bytes \<Rightarrow> nat \<Rightarrow> int" where
  "byte_i8 buf i = sint (buf ! i)"

text \<open>
  \<open>Decimal::new\<close> panics when the scale exceeds 28, and a product panics when it exceeds 96 bits;
  the power of ten wraps at 64 bits.
\<close>

definition sbe_to_decimal :: "int \<Rightarrow> int \<Rightarrow> dec outcome" where
  "sbe_to_decimal mantissa exponent =
     (if exponent \<le> 0
      then (if - exponent \<le> 28 then Good (dnew mantissa (nat (- exponent))) else Panic)
      else let p = sint (of_int (10 ^ nat exponent) :: u64) in
        if \<bar>mantissa * p\<bar> < 2 ^ 96 then Good (of_int (mantissa * p)) else Panic)"

text \<open>\<open>(event_time_us / 1000) as u64\<close>: truncated towards zero, then wrapped.\<close>

definition us_to_ms :: "int \<Rightarrow> u64" where
  "us_to_ms t = of_int (if t < 0 then - (- t div 1000) else t div 1000)"

section \<open>Messages\<close>

fun parse_levels :: "bytes \<Rightarrow> nat \<Rightarrow> int \<Rightarrow> int \<Rightarrow> nat \<Rightarrow> nat \<Rightarrow> (price_level list \<times> nat) outcome" where
  "parse_levels body group_block_length price_exp qty_exp 0 offset = Good ([], offset)"
| "parse_levels body group_block_length price_exp qty_exp (Suc n) offset =
     obind (read_i64 body offset) (\<lambda>price_mantissa.
     obind (read_i64 body (offset + 8)) (\<lambda>qty_mantissa.
     obind (sbe_to_decimal price_mantissa price_exp) (\<lambda>price.
     obind (sbe_to_decimal qty_mantissa qty_exp) (\<lambda>sz.
     obind (parse_levels body group_block_length price_exp qty_exp n (offset + group_block_length)) (\<lambda>(ls, end_offset).
     Good (\<lparr> pl_price = price, pl_size = sz \<rparr> # ls, end_offset))))))"

definition parse_sbe_price_levels :: "bytes \<Rightarrow> nat \<Rightarrow> int \<Rightarrow> int \<Rightarrow> (price_level list \<times> nat) outcome" where
  "parse_sbe_price_levels body offset price_exp qty_exp =
     obind (read_u16 body offset) (\<lambda>group_block_length.
     obind (read_u16 body (offset + 2)) (\<lambda>num_in_group.
     parse_levels body group_block_length price_exp qty_exp num_in_group (offset + 4)))"

definition parse_sbe_depth :: "bytes \<Rightarrow> nat \<Rightarrow> binance_depth outcome" where
  "parse_sbe_depth body block_length =
     (if length body < 18 then Err ''SBE depth body too short'' else
      obind (read_i64 body 0) (\<lambda>event_time_us.
      let price_exp = byte_i8 body 16; qty_exp = byte_i8 body 17 in
      obind (octx ''SBE bids group parse error'' (parse_sbe_price_levels body block_length price_exp qty_exp)) (\<lambda>(bids, offset).
      obind (octx ''SBE asks group parse error'' (parse_sbe_price_levels body offset price_exp qty_exp)) (\<lambda>(asks, end_offset).
      Good \<lparr> bd_symbol = ''BTCUSDT'', bd_bids = bids, bd_asks = asks, bd_timestamp_ms = us_to_ms event_time_us \<rparr>))))"

definition parse_sbe_best_bid_ask :: "bytes \<Rightarrow> nat \<Rightarrow> binance_tick outcome" where
  "parse_sbe_best_bid_ask body block_length =
     (if length body < block_length \<or> block_length < 50 then Err ''SBE bestBidAsk body too short'' else
      obind (read_i64 body 0) (\<lambda>event_time_us.
      let price_exp = byte_i8 body 16; qty_exp = byte_i8 body 17 in
      obind (read_i64 body 18) (\<lambda>bid_price.
      obind (read_i64 body 26) (\<lambda>bid_qty.
      obind (read_i64 body 34) (\<lambda>ask_price.
      obind (read_i64 body 42) (\<lambda>ask_qty.
      obind (sbe_to_decimal bid_price price_exp) (\<lambda>bp.
      obind (sbe_to_decimal bid_qty qty_exp) (\<lambda>bq.
      obind (sbe_to_decimal ask_price price_exp) (\<lambda>ap.
      obind (sbe_to_decimal ask_qty qty_exp) (\<lambda>aq.
      Good \<lparr> bt_symbol = ''BTCUSDT'', bt_bid_price = bp, bt_bid_qty = bq, bt_ask_price = ap, bt_ask_qty = aq,
        bt_timestamp_ms = us_to_ms event_time_us \<rparr>))))))))))"

fun parse_trades :: "bytes \<Rightarrow> nat \<Rightarrow> int \<Rightarrow> int \<Rightarrow> u64 \<Rightarrow> nat \<Rightarrow> nat \<Rightarrow> spot_trade list outcome" where
  "parse_trades body trade_block_length price_exp qty_exp ts 0 offset = Good []"
| "parse_trades body trade_block_length price_exp qty_exp ts (Suc n) offset =
     (if length body < offset + 26 then Err ''SBE trade entry too short'' else
      obind (read_i64 body (offset + 8)) (\<lambda>price.
      obind (read_i64 body (offset + 16)) (\<lambda>qty.
      obind (sbe_to_decimal price price_exp) (\<lambda>p.
      obind (sbe_to_decimal qty qty_exp) (\<lambda>q.
      obind (parse_trades body trade_block_length price_exp qty_exp ts n (offset + trade_block_length)) (\<lambda>rest.
      Good (\<lparr> st_price = p, st_quantity = q, st_is_buyer_maker = (body ! (offset + 24) \<noteq> 0),
        st_timestamp_ms = ts \<rparr> # rest)))))))"

definition parse_sbe_trade :: "bytes \<Rightarrow> nat \<Rightarrow> spot_trade list outcome" where
  "parse_sbe_trade body block_length =
     (if length body < 18 then Err ''SBE trade root block too short'' else
      obind (read_i64 body 0) (\<lambda>event_time_us.
      let price_exp = byte_i8 body 16; qty_exp = byte_i8 body 17; timestamp_ms = us_to_ms event_time_us in
      if length body < 22 then Err ''SBE trade group header too short'' else
      let trade_block_length = le_nat [body ! 18, body ! 19]; num_trades = le_nat [body ! 20, body ! 21];
          expected_len = 22 + num_trades * trade_block_length in
      if length body < expected_len then Err ''SBE trade body too short''
      else parse_trades body trade_block_length price_exp qty_exp timestamp_ms num_trades 22))"

section \<open>Dispatch\<close>

definition sbe_header_size :: nat where
  "sbe_header_size = 8"

definition sbe_template_best_bid_ask :: nat where
  "sbe_template_best_bid_ask = 10001"

definition sbe_template_depth_snapshot :: nat where
  "sbe_template_depth_snapshot = 10002"

definition sbe_template_trade :: nat where
  "sbe_template_trade = 10000"

text \<open>The events that reach a channel with \<open>free\<close> slots.\<close>

definition handle_sbe_message :: "u64 \<Rightarrow> u64 \<Rightarrow> nat \<Rightarrow> bytes \<Rightarrow> ingestor_event list outcome" where
  "handle_sbe_message stale_threshold_ms now_ms free payload =
     (if length payload < sbe_header_size then Err ''SBE payload too short'' else
      let block_length = le_nat [payload ! 0, payload ! 1]; template_id = le_nat [payload ! 2, payload ! 3];
          body = drop sbe_header_size payload in
      if template_id = sbe_template_depth_snapshot then
        obind (octx ''SBE depth snapshot parse error'' (parse_sbe_depth body block_length)) (\<lambda>depth.
        if is_stale (bd_timestamp_ms depth) now_ms stale_threshold_ms then Good []
        else Good (try_send free (EvBinanceDepth depth) []))
      else if template_id = sbe_template_best_bid_ask then
        obind (octx ''SBE bestBidAsk parse error'' (parse_sbe_best_bid_ask body block_length)) (\<lambda>tick.
        if is_stale (bt_timestamp_ms tick) now_ms stale_threshold_ms then Good []
        else Good (try_send free (EvBinanceTick tick) []))
      else if template_id = sbe_template_trade then
        (case parse_sbe_trade body block_length of
           Good trades \<Rightarrow> Good (foldl (\<lambda>ch t. if is_stale (st_timestamp_ms t) now_ms stale_threshold_ms then ch
                                     else try_send free (EvSpotTrade t) ch) [] trades)
         | Err e \<Rightarrow> Good []
         | Panic \<Rightarrow> Panic)
      else Good [])"

section \<open>The frame loop and the reconnect loop\<close>

datatype frame = BinaryFrame bytes | TextFrame bytes | PingFrame bytes | CloseFrame | OtherFrame

record frame_io =
  fi_now :: u64
  fi_free :: nat
  fi_pong_ok :: bool

text \<open>Whether the stream ended with a close frame, and the events it sent.\<close>

fun sbe_stream :: "u64 \<Rightarrow> (frame \<times> frame_io) list \<Rightarrow> (bool \<times> ingestor_event list) outcome" where
  "sbe_stream thr [] = Good (False, [])"
| "sbe_stream thr ((BinaryFrame p, i) # fs) =
     (case handle_sbe_message thr (fi_now i) (fi_free i) p of
        Good evs \<Rightarrow> obind (sbe_stream thr fs) (\<lambda>(c, rest). Good (c, evs @ rest))
      | Err e \<Rightarrow> sbe_stream thr fs
      | Panic \<Rightarrow> Panic)"
| "sbe_stream thr ((TextFrame p, i) # fs) = sbe_stream thr fs"
| "sbe_stream thr ((PingFrame p, i) # fs) = (if fi_pong_ok i then sbe_stream thr fs else Good (False, []))"
| "sbe_stream thr ((CloseFrame, i) # fs) = Good (True, [])"
| "sbe_stream thr ((OtherFrame, i) # fs) = sbe_stream thr fs"

record sbe_session =
  ss_connects :: bool
  ss_free_up :: nat
  ss_frames :: "(frame \<times> frame_io) list"
  ss_free_down :: nat

definition sbe_connect_and_stream :: "u64 \<Rightarrow> sbe_session \<Rightarrow> (bool \<times> ingestor_event list) outcome" where
  "sbe_connect_and_stream thr s =
     (if \<not> ss_connects s then Good (False, [])
      else obind (sbe_stream thr (ss_frames s)) (\<lambda>(c, evs).
        Good (c, try_send (ss_free_up s) (EvWsStatus Binance True) [] @ evs)))"

text \<open>The loop never returns; this is its run over the first sessions, with the delays it sleeps.\<close>

fun sbe_run_from :: "u64 \<Rightarrow> u64 \<Rightarrow> sbe_session list \<Rightarrow> (ingestor_event list \<times> u64 list) outcome" where
  "sbe_run_from thr backoff_ms [] = Good ([], [])"
| "sbe_run_from thr backoff_ms (s # ss) =
     obind (sbe_connect_and_stream thr s) (\<lambda>(c, evs).
     obind (sbe_run_from thr (next_backoff backoff_ms) ss) (\<lambda>(evs', delays).
     Good (evs @ try_send (ss_free_down s) (EvWsStatus Binance False) [] @ evs', backoff_ms # delays)))"

definition sbe_run :: "u64 \<Rightarrow> sbe_session list \<Rightarrow> (ingestor_event list \<times> u64 list) outcome" where
  "sbe_run thr ss = sbe_run_from thr backoff_initial_ms ss"

end
