(* ===== verification/SbeProps.thy ===== *)
theory SbeProps
  imports Sbe
begin

text \<open>
  Properties of the spot gateway. The wire format of the three messages is written down as an
  encoder, \<open>sbe_encode\<close>, from the layout the comments of the source give; the decoder is its
  inverse. \<open>stands buf off bs\<close> says that \<open>bs\<close> stands at offset \<open>off\<close> of \<open>buf\<close>.
\<close>

section \<open>Bytes at an offset\<close>

definition stands :: "bytes \<Rightarrow> nat \<Rightarrow> bytes \<Rightarrow> bool" where
  "stands buf off bs \<longleftrightarrow> (\<exists>a b. buf = a @ bs @ b \<and> length a = off)"

lemma at_append: "stands buf off (x @ y) \<longleftrightarrow> stands buf off x \<and> stands buf (off + length x) y"
proof
  assume "stands buf off (x @ y)"
  then obtain a b where h: "buf = a @ (x @ y) @ b" "length a = off" by (auto simp: stands_def)
  then have "buf = a @ x @ (y @ b)" "buf = (a @ x) @ y @ b" "length (a @ x) = off + length x" by simp_all
  with h(2) show "stands buf off x \<and> stands buf (off + length x) y" unfolding stands_def by blast
next
  assume h: "stands buf off x \<and> stands buf (off + length x) y"
  then obtain a b where 1: "buf = a @ x @ b" "length a = off" unfolding stands_def by blast
  obtain c d where 2: "buf = c @ y @ d" "length c = off + length x" using h unfolding stands_def by blast
  have "(a @ x) @ b = c @ (y @ d)" using 1 2 by simp
  then have "c = a @ x" using append_eq_append_conv [of "a @ x" c b "y @ d"] 1(2) 2(2) by simp
  with 2 have "buf = a @ (x @ y) @ d" by simp
  with 1(2) show "stands buf off (x @ y)" unfolding stands_def by blast
qed

lemma at_take: "stands buf off bs \<Longrightarrow> take (length bs) (drop off buf) = bs \<and> off + length bs \<le> length buf"
  by (auto simp: stands_def)

lemma at_nth: "stands buf off [b] \<Longrightarrow> buf ! off = b \<and> off < length buf"
  by (auto simp: stands_def nth_append)

lemma at_Cons: "stands buf off (b # bs) \<longleftrightarrow> stands buf off [b] \<and> stands buf (Suc off) bs"
  using at_append [of buf off "[b]" bs] by simp

lemma at_refl: "stands (x @ y) 0 x"
  unfolding stands_def by (rule exI [of _ "[]"]) simp

section \<open>Little-endian numbers\<close>

fun le_bytes :: "nat \<Rightarrow> nat \<Rightarrow> bytes" where
  "le_bytes 0 k = []"
| "le_bytes (Suc n) k = of_nat (k mod 256) # le_bytes n (k div 256)"

lemma length_le_bytes [simp]: "length (le_bytes n k) = n"
  by (induction n arbitrary: k) simp_all

lemma le_nat_Cons: "le_nat (b # bs) = unat b + 256 * le_nat bs"
  by (simp add: le_nat_def)

lemma le_nat_bytes: "le_nat (le_bytes n k) = k mod 256 ^ n"
proof (induction n arbitrary: k)
  case 0
  show ?case by (simp add: le_nat_def)
next
  case (Suc n)
  have "unat (of_nat (k mod 256) :: u8) = k mod 256"
    by (simp add: unsigned_of_nat take_bit_nat_eq_self)
  moreover have "k mod 256 + 256 * (k div 256 mod 256 ^ n) = k mod (256 * 256 ^ n)"
    by (simp add: mod_mult2_eq)
  ultimately show ?case by (simp add: le_nat_Cons Suc)
qed

definition i64_bytes :: "int \<Rightarrow> bytes" where
  "i64_bytes m = le_bytes 8 (nat (m mod 2 ^ 64))"

definition i64 :: "int \<Rightarrow> bool" where
  "i64 m \<longleftrightarrow> - (2 ^ 63) \<le> m \<and> m < 2 ^ 63"

lemma length_i64_bytes [simp]: "length (i64_bytes m) = 8"
  by (simp add: i64_bytes_def)

lemma sint_i64: "i64 m \<Longrightarrow> sint (of_int m :: u64) = m"
  by (simp add: i64_def signed_of_int signed_take_bit_int_eq_self)

lemma read_i64_at:
  assumes "stands buf off (i64_bytes m)" and "i64 m"
  shows "read_i64 buf off = Good m"
proof -
  from at_take [OF assms(1)] have t: "take 8 (drop off buf) = i64_bytes m" "off + 8 \<le> length buf" by simp_all
  have "le_nat (i64_bytes m) = nat (m mod 2 ^ 64)"
    by (simp add: i64_bytes_def le_nat_bytes nat_mod_distrib)
  then have "(of_nat (le_nat (i64_bytes m)) :: u64) = of_int (m mod 2 ^ 64)" by simp
  also have "\<dots> = of_int m" by (simp add: word_of_int_eq_iff take_bit_eq_mod)
  finally show ?thesis using t sint_i64 [OF assms(2)] by (simp add: read_i64_def)
qed

lemma read_u16_at:
  assumes "stands buf off (le_bytes 2 k)" and "k < 2 ^ 16"
  shows "read_u16 buf off = Good k"
  using at_take [OF assms(1)] assms(2) by (simp add: read_u16_def le_nat_bytes)

lemma u16_bytes_at:
  assumes "stands buf off (le_bytes 2 k)" and "k < 2 ^ 16"
  shows "le_nat [buf ! off, buf ! Suc off] = k" and "Suc off < length buf"
proof -
  have "le_bytes 2 k = [of_nat (k mod 256), of_nat (k div 256 mod 256)]" by (simp add: numeral_2_eq_2)
  with assms(1) have "stands buf off [of_nat (k mod 256)]" "stands buf (Suc off) [of_nat (k div 256 mod 256)]"
    by (simp_all add: at_Cons [of _ _ _ "[_]"])
  then have "[buf ! off, buf ! Suc off] = le_bytes 2 k" "Suc off < length buf"
    by (auto dest: at_nth simp: numeral_2_eq_2)
  then show "le_nat [buf ! off, buf ! Suc off] = k" "Suc off < length buf" using assms(2) by (simp_all add: le_nat_bytes)
qed


section \<open>The wire format\<close>

datatype wire =
    WireDepth int int nat nat "(int \<times> int) list" "(int \<times> int) list"
  | WireTick int int nat nat int int int int
  | WireTrades int int nat nat "(int \<times> int \<times> int \<times> bool \<times> bool) list"

definition exp_byte :: "nat \<Rightarrow> u8" where
  "exp_byte d = of_int (- int d)"

definition root_block :: "int \<Rightarrow> int \<Rightarrow> nat \<Rightarrow> nat \<Rightarrow> bytes" where
  "root_block t u pd qd = i64_bytes t @ i64_bytes u @ [exp_byte pd, exp_byte qd]"

definition level_bytes :: "int \<times> int \<Rightarrow> bytes" where
  "level_bytes l = i64_bytes (fst l) @ i64_bytes (snd l)"

definition group_bytes :: "(int \<times> int) list \<Rightarrow> bytes" where
  "group_bytes ls = le_bytes 2 16 @ le_bytes 2 (length ls) @ concat (map level_bytes ls)"

definition bool_byte :: "bool \<Rightarrow> u8" where
  "bool_byte b = (if b then 1 else 0)"

fun trade_bytes :: "int \<times> int \<times> int \<times> bool \<times> bool \<Rightarrow> bytes" where
  "trade_bytes (i, p, q, maker, best) = i64_bytes i @ i64_bytes p @ i64_bytes q @ [bool_byte maker, bool_byte best]"

definition sbe_header :: "nat \<Rightarrow> nat \<Rightarrow> bytes" where
  "sbe_header block template = le_bytes 2 block @ le_bytes 2 template @ le_bytes 2 1 @ le_bytes 2 0"

fun sbe_encode :: "wire \<Rightarrow> bytes" where
  "sbe_encode (WireDepth t u pd qd bids asks) =
     sbe_header 18 10002 @ root_block t u pd qd @ group_bytes bids @ group_bytes asks"
| "sbe_encode (WireTick t u pd qd bp bq ap aq) =
     sbe_header 50 10001 @ root_block t u pd qd @ i64_bytes bp @ i64_bytes bq @ i64_bytes ap @ i64_bytes aq"
| "sbe_encode (WireTrades t u pd qd ts) =
     sbe_header 18 10000 @ root_block t u pd qd @ le_bytes 2 26 @ le_bytes 2 (length ts) @ concat (map trade_bytes ts)"

definition level_ok :: "int \<times> int \<Rightarrow> bool" where
  "level_ok l \<longleftrightarrow> i64 (fst l) \<and> i64 (snd l)"

fun wire_ok :: "wire \<Rightarrow> bool" where
  "wire_ok (WireDepth t u pd qd bids asks) \<longleftrightarrow> i64 t \<and> 0 \<le> t \<and> pd \<le> 28 \<and> qd \<le> 28
     \<and> length bids < 2 ^ 16 \<and> length asks < 2 ^ 16 \<and> list_all level_ok bids \<and> list_all level_ok asks"
| "wire_ok (WireTick t u pd qd bp bq ap aq) \<longleftrightarrow> i64 t \<and> 0 \<le> t \<and> pd \<le> 28 \<and> qd \<le> 28
     \<and> i64 bp \<and> i64 bq \<and> i64 ap \<and> i64 aq"
| "wire_ok (WireTrades t u pd qd ts) \<longleftrightarrow> i64 t \<and> 0 \<le> t \<and> pd \<le> 28 \<and> qd \<le> 28 \<and> length ts < 2 ^ 16
     \<and> list_all (\<lambda>(i, p, q, maker, best). i64 p \<and> i64 q) ts"

fun wire_time :: "wire \<Rightarrow> int" where
  "wire_time (WireDepth t u pd qd bids asks) = t"
| "wire_time (WireTick t u pd qd bp bq ap aq) = t"
| "wire_time (WireTrades t u pd qd ts) = t"

definition wire_level :: "nat \<Rightarrow> nat \<Rightarrow> int \<times> int \<Rightarrow> price_level" where
  "wire_level pd qd l = \<lparr> pl_price = dnew (fst l) pd, pl_size = dnew (snd l) qd \<rparr>"

definition wire_trade :: "nat \<Rightarrow> nat \<Rightarrow> u64 \<Rightarrow> int \<times> int \<times> int \<times> bool \<times> bool \<Rightarrow> spot_trade" where
  "wire_trade pd qd ts = (\<lambda>(i, p, q, maker, best). \<lparr> st_price = dnew p pd, st_quantity = dnew q qd,
     st_is_buyer_maker = maker, st_timestamp_ms = ts \<rparr>)"

fun wire_events :: "wire \<Rightarrow> ingestor_event list" where
  "wire_events (WireDepth t u pd qd bids asks) = [EvBinanceDepth \<lparr> bd_symbol = ''BTCUSDT'',
     bd_bids = map (wire_level pd qd) bids, bd_asks = map (wire_level pd qd) asks, bd_timestamp_ms = of_int (t div 1000) \<rparr>]"
| "wire_events (WireTick t u pd qd bp bq ap aq) = [EvBinanceTick \<lparr> bt_symbol = ''BTCUSDT'', bt_bid_price = dnew bp pd,
     bt_bid_qty = dnew bq qd, bt_ask_price = dnew ap pd, bt_ask_qty = dnew aq qd, bt_timestamp_ms = of_int (t div 1000) \<rparr>]"
| "wire_events (WireTrades t u pd qd ts) = map (\<lambda>x. EvSpotTrade (wire_trade pd qd (of_int (t div 1000)) x)) ts"

section \<open>The decoder inverts it\<close>

lemma byte_i8_exp: "stands buf off [exp_byte d] \<Longrightarrow> d \<le> 28 \<Longrightarrow> byte_i8 buf off = - int d"
  unfolding byte_i8_def exp_byte_def
  by (drule at_nth) (simp del: of_int_minus of_int_of_nat_eq add: signed_of_int signed_take_bit_int_eq_self)

lemma sbe_to_decimal_exp: "d \<le> 28 \<Longrightarrow> sbe_to_decimal m (- int d) = Good (dnew m d)"
  by (simp add: sbe_to_decimal_def)

lemma root_at:
  assumes "stands buf off (root_block t u pd qd)" and "i64 t" and "pd \<le> 28" and "qd \<le> 28"
  shows "read_i64 buf off = Good t" "byte_i8 buf (off + 16) = - int pd" "byte_i8 buf (off + 17) = - int qd"
    "off + 18 \<le> length buf"
proof -
  from assms(1) have "stands buf off (i64_bytes t)" "stands buf (off + 16) [exp_byte pd]" "stands buf (off + 17) [exp_byte qd]"
    by (auto simp: root_block_def at_append at_Cons [of _ _ _ "[_]"] eval_nat_numeral)
  with assms show "read_i64 buf off = Good t" "byte_i8 buf (off + 16) = - int pd" "byte_i8 buf (off + 17) = - int qd"
    by (auto intro: read_i64_at byte_i8_exp)
  show "off + 18 \<le> length buf" using at_take [OF assms(1)] by (simp add: root_block_def)
qed

lemma length_level_bytes [simp]: "length (level_bytes l) = 16"
  by (simp add: level_bytes_def)

lemma parse_levels_at:
  assumes "stands body off (concat (map level_bytes ls))" and "list_all level_ok ls" and "pd \<le> 28" and "qd \<le> 28"
  shows "parse_levels body 16 (- int pd) (- int qd) (length ls) off = Good (map (wire_level pd qd) ls, off + 16 * length ls)"
  using assms(1,2)
proof (induction ls arbitrary: off)
  case (Cons l ls)
  then have "stands body off (level_bytes l)" "stands body (off + 16) (concat (map level_bytes ls))"
    "i64 (fst l)" "i64 (snd l)" "list_all level_ok ls" by (simp_all add: at_append level_ok_def [of l])
  moreover from this(1) have "stands body off (i64_bytes (fst l))" "stands body (off + 8) (i64_bytes (snd l))"
    by (simp_all add: at_append level_bytes_def)
  ultimately show ?case using Cons.IH [of "off + 16"]
    by (simp add: read_i64_at sbe_to_decimal_exp assms(3,4) wire_level_def)
qed simp

lemma parse_group_at:
  assumes "stands body off (group_bytes ls)" and "list_all level_ok ls" and "length ls < 2 ^ 16" and "pd \<le> 28" and "qd \<le> 28"
  shows "parse_sbe_price_levels body off (- int pd) (- int qd) = Good (map (wire_level pd qd) ls, off + length (group_bytes ls))"
proof -
  from assms(1) have "stands body off (le_bytes 2 16)" "stands body (off + 2) (le_bytes 2 (length ls))"
    "stands body (off + 2 + 2) (concat (map level_bytes ls))"
    unfolding group_bytes_def at_append length_le_bytes by blast+
  then have "stands body off (le_bytes 2 16)" "stands body (off + 2) (le_bytes 2 (length ls))"
    "stands body (off + 4) (concat (map level_bytes ls))" by (simp_all only: add.assoc numeral_plus_numeral) simp_all
  moreover have "length (concat (map level_bytes ls)) = 16 * length ls" by (induction ls) simp_all
  ultimately show ?thesis using assms(2-5)
    by (simp add: parse_sbe_price_levels_def read_u16_at [of _ _ 16] read_u16_at parse_levels_at group_bytes_def)
qed

lemma us_to_ms_nonneg: "0 \<le> t \<Longrightarrow> us_to_ms t = of_int (t div 1000)"
  by (simp add: us_to_ms_def)

lemma parse_depth_at:
  assumes "stands body 0 (root_block t u pd qd @ group_bytes bids @ group_bytes asks)" and "wire_ok (WireDepth t u pd qd bids asks)"
  shows "parse_sbe_depth body 18 = Good \<lparr> bd_symbol = ''BTCUSDT'', bd_bids = map (wire_level pd qd) bids,
    bd_asks = map (wire_level pd qd) asks, bd_timestamp_ms = of_int (t div 1000) \<rparr>"
proof -
  have l: "length (root_block t u pd qd) = 18" by (simp add: root_block_def)
  from assms(1) have s: "stands body 0 (root_block t u pd qd)" "stands body 18 (group_bytes bids)"
    "stands body (18 + length (group_bytes bids)) (group_bytes asks)" by (auto simp: at_append l)
  from assms(2) have w: "i64 t" "0 \<le> t" "pd \<le> 28" "qd \<le> 28" "length bids < 2 ^ 16" "length asks < 2 ^ 16"
    "list_all level_ok bids" "list_all level_ok asks" by simp_all
  note r = root_at [OF s(1) w(1,3,4), simplified]
  show ?thesis
    by (simp add: parse_sbe_depth_def r(1-3) r(4) [unfolded not_less [symmetric]] parse_group_at [OF s(2) w(7,5,3,4)]
        parse_group_at [OF s(3) w(8,6,3,4)] us_to_ms_nonneg [OF w(2)] Let_def)
qed


lemma parse_tick_at:
  assumes "stands body 0 (root_block t u pd qd @ i64_bytes bp @ i64_bytes bq @ i64_bytes ap @ i64_bytes aq)"
    and "wire_ok (WireTick t u pd qd bp bq ap aq)"
  shows "parse_sbe_best_bid_ask body 50 = Good \<lparr> bt_symbol = ''BTCUSDT'', bt_bid_price = dnew bp pd,
     bt_bid_qty = dnew bq qd, bt_ask_price = dnew ap pd, bt_ask_qty = dnew aq qd, bt_timestamp_ms = of_int (t div 1000) \<rparr>"
proof -
  have l: "length (root_block t u pd qd) = 18" by (simp add: root_block_def)
  from assms(1) have s: "stands body 0 (root_block t u pd qd)" "stands body 18 (i64_bytes bp)" "stands body 26 (i64_bytes bq)"
    "stands body 34 (i64_bytes ap)" "stands body 42 (i64_bytes aq)" by (auto simp: at_append l)
  from at_take [OF s(5)] have n: "\<not> length body < 50" by simp
  from assms(2) have w: "i64 t" "0 \<le> t" "pd \<le> 28" "qd \<le> 28" "i64 bp" "i64 bq" "i64 ap" "i64 aq" by simp_all
  note r = root_at [OF s(1) w(1,3,4), simplified]
  show ?thesis
    by (simp add: parse_sbe_best_bid_ask_def n r(1-3) read_i64_at [OF s(2) w(5)] read_i64_at [OF s(3) w(6)]
        read_i64_at [OF s(4) w(7)] read_i64_at [OF s(5) w(8)] sbe_to_decimal_exp w(3,4) us_to_ms_nonneg [OF w(2)] Let_def)
qed

lemma length_trade_bytes [simp]: "length (trade_bytes x) = 26"
  by (cases x) simp

lemma bool_byte_iff [simp]: "bool_byte b \<noteq> 0 \<longleftrightarrow> b"
  by (simp add: bool_byte_def)

lemma parse_trades_at:
  assumes "stands body off (concat (map trade_bytes ts))" and "list_all (\<lambda>(i, p, q, maker, best). i64 p \<and> i64 q) ts"
    and "pd \<le> 28" and "qd \<le> 28"
  shows "parse_trades body 26 (- int pd) (- int qd) time (length ts) off = Good (map (wire_trade pd qd time) ts)"
  using assms(1,2)
proof (induction ts arbitrary: off)
  case (Cons x ts)
  obtain i p q maker best where x: "x = (i, p, q, maker, best)" by (cases x)
  from Cons.prems have s: "stands body off (trade_bytes x)" "stands body (off + 26) (concat (map trade_bytes ts))"
    by (simp_all add: at_append)
  from Cons.prems have w: "i64 p" "i64 q" "list_all (\<lambda>(i, p, q, maker, best). i64 p \<and> i64 q) ts" by (simp_all add: x)
  from s(1) have t: "stands body (off + 8) (i64_bytes p)" "stands body (off + 16) (i64_bytes q)"
    "stands body (off + 24) [bool_byte maker]"
    by (simp_all add: x at_append at_Cons [of _ _ _ "[_]"] add.assoc)
  have n: "\<not> length body < off + 26" using at_take [OF s(1)] by simp
  have m: "body ! (off + 24) \<noteq> 0 \<longleftrightarrow> maker" using at_nth [OF t(3)] by simp
  show ?case using Cons.IH [OF s(2) w(3)] n m
    by (simp add: read_i64_at [OF t(1) w(1)] read_i64_at [OF t(2) w(2)] sbe_to_decimal_exp assms(3,4) x wire_trade_def)
qed simp

lemma parse_trade_at:
  assumes "stands body 0 (root_block t u pd qd @ le_bytes 2 26 @ le_bytes 2 (length ts) @ concat (map trade_bytes ts))"
    and "wire_ok (WireTrades t u pd qd ts)"
  shows "parse_sbe_trade body 18 = Good (map (wire_trade pd qd (of_int (t div 1000))) ts)"
proof -
  have l: "length (root_block t u pd qd) = 18" by (simp add: root_block_def)
  from assms(1) have s: "stands body 0 (root_block t u pd qd)" "stands body 18 (le_bytes 2 26)"
    "stands body 20 (le_bytes 2 (length ts))" "stands body 22 (concat (map trade_bytes ts))" by (auto simp: at_append l)
  from assms(2) have w: "i64 t" "0 \<le> t" "pd \<le> 28" "qd \<le> 28" "length ts < 2 ^ 16"
    "list_all (\<lambda>(i, p, q, maker, best). i64 p \<and> i64 q) ts" by simp_all
  note r = root_at [OF s(1) w(1,3,4), simplified]
  have n: "le_nat [body ! 18, body ! 19] = 26" "le_nat [body ! 20, body ! 21] = length ts" "\<not> length body < 22"
    using u16_bytes_at [OF s(2)] u16_bytes_at [OF s(3) w(5)] by simp_all
  have "length (concat (map trade_bytes ts)) = 26 * length ts" by (induction ts) simp_all
  then have "\<not> length body < 22 + length ts * 26" "\<not> length body < 18"
    using at_take [OF s(4)] at_take [OF s(1)] by (simp_all add: l)
  then show ?thesis
    by (simp add: parse_sbe_trade_def n r(1-3) parse_trades_at [OF s(4) w(6,3,4)] us_to_ms_nonneg [OF w(2)] Let_def)
qed

lemma header_at:
  assumes "stands payload 0 (sbe_header block template @ rest)" and "block < 2 ^ 16" and "template < 2 ^ 16"
  shows "le_nat [payload ! 0, payload ! 1] = block" "le_nat [payload ! 2, payload ! 3] = template"
    "\<not> length payload < 8" "stands (drop 8 payload) 0 rest"
proof -
  have l: "length (sbe_header block template) = 8" by (simp add: sbe_header_def)
  from assms(1) have "stands payload 0 (le_bytes 2 block)" "stands payload 2 (le_bytes 2 template)" "stands payload 8 rest"
    by (auto simp: sbe_header_def at_append simp del: add_2_eq_Suc add_2_eq_Suc' One_nat_def)
  with assms(2,3) u16_bytes_at [of payload 0 block] u16_bytes_at [of payload 2 template]
  show "le_nat [payload ! 0, payload ! 1] = block" "le_nat [payload ! 2, payload ! 3] = template"
    by simp_all
  from at_take [OF assms(1)] l show "\<not> length payload < 8" by simp
  from \<open>stands payload 8 rest\<close> obtain a b where "payload = a @ rest @ b" "length a = 8" unfolding stands_def by blast
  then show "stands (drop 8 payload) 0 rest" by (simp add: at_refl)
qed

lemma send_trades:
  "foldl (\<lambda>ch t. if is_stale (st_timestamp_ms t) now thr then ch else try_send free (EvSpotTrade t) ch) [] (map (wire_trade pd qd time) ts)
    = (if is_stale time now thr then [] else take free (map (\<lambda>x. EvSpotTrade (wire_trade pd qd time x)) ts))"
proof -
  have t: "st_timestamp_ms (wire_trade pd qd time x) = time" for x by (simp add: wire_trade_def split: prod.splits)
  have k: "foldl (\<lambda>ch x. ch) c xs = c" for c :: "'a list" and xs :: "'b list" by (induction xs) simp_all
  have "foldl (\<lambda>ch x. try_send free (EvSpotTrade (wire_trade pd qd time x)) ch) [] ts
      = try_send_all free (map (\<lambda>x. EvSpotTrade (wire_trade pd qd time x)) ts) []"
    by (simp add: try_send_all_def foldl_map)
  then show ?thesis by (simp add: foldl_map t k try_send_all_eq)
qed

lemma handle_at:
  assumes "stands payload 0 (sbe_encode w)" and "wire_ok w"
  shows "handle_sbe_message thr now free payload
    = Good (if is_stale (of_int (wire_time w div 1000)) now thr then [] else take free (wire_events w))"
proof (cases w)
  case (WireDepth t u pd qd bids asks)
  have "stands payload 0 (sbe_header 18 10002 @ root_block t u pd qd @ group_bytes bids @ group_bytes asks)"
    using assms(1) by (simp add: WireDepth)
  note h = header_at [OF this]
  from parse_depth_at [OF h(4)] assms(2) h(1-3) show ?thesis
    by (simp add: WireDepth handle_sbe_message_def sbe_header_size_def sbe_template_depth_snapshot_def try_send_def take_Cons' Let_def)
next
  case (WireTick t u pd qd bp bq ap aq)
  have "stands payload 0
    (sbe_header 50 10001 @ root_block t u pd qd @ i64_bytes bp @ i64_bytes bq @ i64_bytes ap @ i64_bytes aq)"
    using assms(1) by (simp add: WireTick)
  note h = header_at [OF this]
  from parse_tick_at [OF h(4)] assms(2) h(1-3) show ?thesis
    by (simp add: WireTick handle_sbe_message_def sbe_header_size_def sbe_template_depth_snapshot_def
        sbe_template_best_bid_ask_def try_send_def take_Cons' Let_def)
next
  case (WireTrades t u pd qd ts)
  have "stands payload 0
    (sbe_header 18 10000 @ root_block t u pd qd @ le_bytes 2 26 @ le_bytes 2 (length ts) @ concat (map trade_bytes ts))"
    using assms(1) by (simp add: WireTrades)
  note h = header_at [OF this]
  from parse_trade_at [OF h(4)] assms(2) h(1-3) show ?thesis
    by (simp add: WireTrades handle_sbe_message_def sbe_header_size_def sbe_template_depth_snapshot_def
        sbe_template_best_bid_ask_def sbe_template_trade_def send_trades Let_def)
qed

text \<open>
  C22. The decoder inverts the wire format. For every depth snapshot, best bid and ask, and batch
  of trades within the format, whatever bytes follow it, the handler sends exactly the events it
  stands for, with the mantissas scaled by the exponents and the time in milliseconds, as far as
  the channel has room, or nothing when the message is older than the threshold.
\<close>

theorem sbe_roundtrip:
  assumes "wire_ok w"
  shows "handle_sbe_message thr now free (sbe_encode w @ junk)
    = Good (if is_stale (of_int (wire_time w div 1000)) now thr then [] else take free (wire_events w))"
  by (rule handle_at [OF at_refl assms])

lemma sbe_roundtrip_witness:
  "handle_sbe_message 500 1700000000100 8 (sbe_encode (WireTrades 1700000000000000 0 2 5 [(7, 4200050, 1500, True, True)]) @ [9])
    = Good [EvSpotTrade \<lparr> st_price = 84001 / 2, st_quantity = 3 / 200, st_is_buyer_maker = True, st_timestamp_ms = 1700000000000 \<rparr>]"
proof -
  have "\<not> is_stale (1700000000000 :: u64) 1700000000100 500" unfolding is_stale_iff by simp
  then show ?thesis by (subst sbe_roundtrip) (simp_all add: i64_def wire_trade_def dnew_def)
qed


section \<open>What can stop the gateway\<close>

text \<open>The two exponent bytes of a message, if it has them, are at most zero and at least \<open>-28\<close>.\<close>

definition exponents_ok :: "bytes \<Rightarrow> bool" where
  "exponents_ok payload \<longleftrightarrow> length payload < 26
     \<or> (byte_i8 payload 24 \<in> {-28..0} \<and> byte_i8 payload 25 \<in> {-28..0})"

lemma sbe_to_decimal_total: "e \<in> {-28..0} \<Longrightarrow> sbe_to_decimal m e \<noteq> Panic"
  by (simp add: sbe_to_decimal_def)

lemma read_total [simp]: "read_i64 buf off \<noteq> Panic" "read_u16 buf off \<noteq> Panic"
  by (simp_all add: read_i64_def read_u16_def)

lemma parse_levels_total:
  "pe \<in> {-28..0} \<Longrightarrow> qe \<in> {-28..0} \<Longrightarrow> parse_levels body g pe qe n off \<noteq> Panic"
  by (induction n arbitrary: off) (auto simp del: atLeastAtMost_iff simp: sbe_to_decimal_total obind_eq_Panic)

lemma parse_group_total:
  "pe \<in> {-28..0} \<Longrightarrow> qe \<in> {-28..0} \<Longrightarrow> parse_sbe_price_levels body off pe qe \<noteq> Panic"
  by (auto simp: parse_levels_total obind_eq_Panic parse_sbe_price_levels_def simp del: atLeastAtMost_iff)

lemma parse_trades_total:
  "pe \<in> {-28..0} \<Longrightarrow> qe \<in> {-28..0} \<Longrightarrow> parse_trades body g pe qe ts n off \<noteq> Panic"
  by (induction n arbitrary: off) (auto simp del: atLeastAtMost_iff simp: sbe_to_decimal_total obind_eq_Panic)

lemma handle_total:
  assumes "exponents_ok payload"
  shows "handle_sbe_message thr now free payload \<noteq> Panic"
proof -
  let ?b = "drop 8 payload"
  have e: "byte_i8 ?b 16 \<in> {-28..0} \<and> byte_i8 ?b 17 \<in> {-28..0}" if "\<not> length ?b < 18"
    using assms that by (auto simp: exponents_ok_def byte_i8_def)
  have d: "parse_sbe_depth ?b k \<noteq> Panic" for k
    using e by (auto simp: parse_sbe_depth_def Let_def obind_eq_Panic parse_group_total simp del: atLeastAtMost_iff)
  have t: "parse_sbe_best_bid_ask ?b k \<noteq> Panic" for k
    using e by (cases "length ?b < 50")
      (auto simp: parse_sbe_best_bid_ask_def Let_def sbe_to_decimal_total obind_eq_Panic simp del: atLeastAtMost_iff)
  have r: "parse_sbe_trade ?b k \<noteq> Panic" for k
    using e by (auto simp: parse_sbe_trade_def Let_def obind_eq_Panic parse_trades_total simp del: atLeastAtMost_iff)
  show ?thesis using d t r
    by (auto simp: handle_sbe_message_def sbe_header_size_def Let_def obind_eq_Panic split: outcome.splits)
qed

text \<open>
  Only the exponents can bring the gateway down. Whatever the bytes of a message are,
  truncated, of a wrong length or of an unknown template, the handler returns, unless one of the
  two exponent bytes is positive or below \<open>-28\<close>: no index is out of bounds and no loop overruns.
\<close>

theorem sbe_handler_total:
  assumes "exponents_ok payload"
  shows "handle_sbe_message thr now free payload \<noteq> Panic"
  by (rule handle_total [OF assms])

text \<open>
  An exponent below \<open>-28\<close> panics. A best bid and ask of the right layout whose price has
  more than 28 decimals takes the ingestor thread, and every gateway on it, down.
\<close>

theorem sbe_deep_exponent_panics:
  assumes "28 < pd" and "pd \<le> 128" and "i64 bp" and "i64 bq" and "i64 ap" and "i64 aq" and "i64 t"
  shows "handle_sbe_message thr now free (sbe_encode (WireTick t u pd qd bp bq ap aq)) = Panic"
proof -
  let ?w = "sbe_encode (WireTick t u pd qd bp bq ap aq)"
  have "stands ?w 0 (sbe_header 50 10001 @ root_block t u pd qd @ i64_bytes bp @ i64_bytes bq @ i64_bytes ap @ i64_bytes aq)"
    using at_refl [of ?w "[]"] by simp
  note h = header_at [OF this]
  let ?b = "drop 8 ?w"
  have l: "length (root_block t u pd qd) = 18" by (simp add: root_block_def)
  from h(4) have s: "stands ?b 0 (root_block t u pd qd)" "stands ?b 18 (i64_bytes bp)" "stands ?b 26 (i64_bytes bq)"
    "stands ?b 34 (i64_bytes ap)" "stands ?b 42 (i64_bytes aq)" by (auto simp: at_append l simp del: sbe_encode.simps)
  from s(1) have r: "stands ?b 0 (i64_bytes t)" "stands ?b 16 [exp_byte pd]"
    by (auto simp: root_block_def at_append at_Cons [of _ _ _ "[_]"] simp del: sbe_encode.simps)
  have "byte_i8 ?b 16 = - int pd"
    unfolding byte_i8_def exp_byte_def using at_nth [OF r(2)] assms(2)
    by (simp del: of_int_minus of_int_of_nat_eq sbe_encode.simps
        add: exp_byte_def signed_of_int signed_take_bit_int_eq_self)
  moreover from at_take [OF s(5)] have "\<not> length ?b < 50" by simp
  ultimately have "parse_sbe_best_bid_ask ?b 50 = Panic"
    using assms(1) by (simp del: sbe_encode.simps add: parse_sbe_best_bid_ask_def read_i64_at [OF r(1) assms(7)]
      read_i64_at [OF s(2) assms(3)] read_i64_at [OF s(3) assms(4)] read_i64_at [OF s(4) assms(5)]
      read_i64_at [OF s(5) assms(6)] sbe_to_decimal_def Let_def)
  with h(1-3) show ?thesis
    by (simp del: sbe_encode.simps add: handle_sbe_message_def sbe_header_size_def sbe_template_depth_snapshot_def
        sbe_template_best_bid_ask_def Let_def)
qed

lemma sbe_deep_exponent_panics_witness:
  "handle_sbe_message 500 0 8 (sbe_encode (WireTick 0 0 29 0 1 1 1 1)) = Panic"
  by (rule sbe_deep_exponent_panics) (simp_all add: i64_def)

lemma sbe_handler_total_witness:
  "handle_sbe_message 500 0 8 (sbe_header 50 10001 @ root_block 0 0 28 28) \<noteq> Panic"
proof (rule sbe_handler_total)
  let ?p = "sbe_header 50 10001 @ root_block 0 0 28 28"
  have l: "length (sbe_header 50 10001) = 8" by (simp add: sbe_header_def)
  have "stands ?p 8 (root_block 0 0 28 28)" using at_append [of ?p 0] at_refl [of ?p "[]"] l by simp
  from root_at(2,3) [OF this] have "byte_i8 ?p 24 = -28" "byte_i8 ?p 25 = -28" by (simp_all add: i64_def)
  then show "exponents_ok (sbe_header 50 10001 @ root_block 0 0 28 28)" by (simp add: exponents_ok_def)
qed

section \<open>Reconnecting\<close>

definition session_safe :: "sbe_session \<Rightarrow> bool" where
  "session_safe s = list_all (\<lambda>(f, i). case f of BinaryFrame p \<Rightarrow> exponents_ok p | _ \<Rightarrow> True) (ss_frames s)"

lemma stream_total:
  "list_all (\<lambda>(f, i). case f of BinaryFrame p \<Rightarrow> exponents_ok p | _ \<Rightarrow> True) fs \<Longrightarrow> \<exists>r. sbe_stream thr fs = Good r"
proof (induction thr fs rule: sbe_stream.induct)
  case (2 thr p i fs)
  have n: "handle_sbe_message thr (fi_now i) (fi_free i) p \<noteq> Panic"
    using 2 handle_total [of p thr "fi_now i" "fi_free i"] by simp
  show ?case
  proof (cases "handle_sbe_message thr (fi_now i) (fi_free i) p")
    case (Good evs)
    then show ?thesis using 2 by fastforce
  next
    case (Err e)
    then show ?thesis using 2 by simp
  next
    case Panic
    with n show ?thesis by simp
  qed
qed auto

lemma run_from_total:
  "list_all session_safe ss \<Longrightarrow> \<exists>evs. sbe_run_from thr (backoff_after k) ss = Good (evs, map backoff_after [k ..< k + length ss])"
proof (induction ss arbitrary: k)
  case (Cons s ss)
  obtain c evs where 1: "sbe_connect_and_stream thr s = Good (c, evs)"
    using stream_total [of "ss_frames s" thr] Cons.prems
    by (cases "ss_connects s") (auto simp: sbe_connect_and_stream_def session_safe_def)
  have "next_backoff (backoff_after k) = backoff_after (Suc k)" by (simp add: backoff_after_def)
  moreover obtain evs' where "sbe_run_from thr (backoff_after (Suc k)) ss = Good (evs', map backoff_after [Suc k ..< Suc k + length ss])"
    using Cons.IH [of "Suc k"] Cons.prems by auto
  ultimately show ?case using 1 by (simp add: upt_conv_Cons del: upt_Suc)
qed simp

text \<open>
  C40. The gateway keeps reconnecting. Through any sequence of sessions, refused, cut or closed,
  whose messages keep to the exponents, the loop goes on; the delay after the \<open>n\<close>-th session is
  \<open>1000 * 2 ^ n\<close> milliseconds, never above \<open>30000\<close>. It never shrinks again, however long a
  session was healthy.
\<close>

theorem sbe_keeps_reconnecting:
  assumes "list_all session_safe ss"
  shows "\<exists>evs delays. sbe_run thr ss = Good (evs, delays)
    \<and> map unat delays = map (\<lambda>n. min (1000 * 2 ^ n) 30000) [0 ..< length ss]"
  using run_from_total [OF assms, of thr 0]
  by (auto simp: sbe_run_def backoff_after_def [of 0] backoff_bound)

lemma sbe_keeps_reconnecting_witness:
  "\<exists>evs delays. sbe_run 500 (replicate 7 \<lparr> ss_connects = True, ss_free_up = 1,
       ss_frames = [(BinaryFrame [1, 2, 3], \<lparr> fi_now = 0, fi_free = 1, fi_pong_ok = True \<rparr>)], ss_free_down = 0 \<rparr>) = Good (evs, delays)
    \<and> map unat delays = [1000, 2000, 4000, 8000, 16000, 30000, 30000]"
proof -
  let ?s = "\<lparr> ss_connects = True, ss_free_up = 1,
       ss_frames = [(BinaryFrame [1, 2, 3], \<lparr> fi_now = 0, fi_free = 1, fi_pong_ok = True \<rparr>)], ss_free_down = 0 \<rparr>"
  have "list_all session_safe (replicate 7 ?s)" by (simp add: list_all_iff session_safe_def exponents_ok_def)
  moreover have "map (\<lambda>n. min (1000 * 2 ^ n) 30000) [0 ..< length (replicate 7 ?s)] = [1000, 2000, 4000, 8000, 16000, 30000, 30000 :: nat]"
    by (simp add: upt_rec)
  ultimately show ?thesis using sbe_keeps_reconnecting [of "replicate 7 ?s" 500] by simp
qed

end
