(* ===== verification/Json.thy ===== *)
theory Json
  imports Channels
begin

text \<open>
  A parsed JSON document (\<open>serde_json::Value\<close>) and its accessors. Parsing text is the library's:
  it is a parameter of the definitions that need it. An object is the list of its members, the
  keys distinct. A number is an unsigned or negative integer or a float.
\<close>

datatype json =
    JNull
  | JBool bool
  | JPos u64
  | JNeg int
  | JFloat f64
  | JStr string
  | JArr "json list"
  | JObj "(string \<times> json) list"

fun jget :: "string \<Rightarrow> json \<Rightarrow> json option" where
  "jget k (JObj kvs) = map_of kvs k"
| "jget k v = None"

fun as_str :: "json \<Rightarrow> string option" where
  "as_str (JStr s) = Some s"
| "as_str v = None"

fun as_u64 :: "json \<Rightarrow> u64 option" where
  "as_u64 (JPos n) = Some n"
| "as_u64 v = None"

fun as_i64 :: "json \<Rightarrow> int option" where
  "as_i64 (JPos n) = (if unat n < 2 ^ 63 then Some (int (unat n)) else None)"
| "as_i64 (JNeg i) = Some i"
| "as_i64 v = None"

fun as_array :: "json \<Rightarrow> json list option" where
  "as_array (JArr xs) = Some xs"
| "as_array v = None"

fun as_bool :: "json \<Rightarrow> bool option" where
  "as_bool (JBool b) = Some b"
| "as_bool v = None"

fun as_f64 :: "json \<Rightarrow> f64 option" where
  "as_f64 (JPos n) = Some (rnd (of_nat (unat n)))"
| "as_f64 (JNeg i) = Some (rnd (of_int i))"
| "as_f64 (JFloat f) = Some f"
| "as_f64 v = None"

text \<open>\<open>or_else\<close> and \<open>and_then\<close> of options.\<close>

definition or_else :: "'a option \<Rightarrow> 'a option \<Rightarrow> 'a option" where
  "or_else a b = (case a of None \<Rightarrow> b | Some x \<Rightarrow> Some x)"

lemma or_else_simps [simp]: "or_else None b = b" "or_else (Some x) b = Some x"
  by (simp_all add: or_else_def)

definition get_str :: "string \<Rightarrow> json \<Rightarrow> string option" where
  "get_str k v = Option.bind (jget k v) as_str"

text \<open>A \<open>Result\<close> without panics, for parsers: \<open>map\<close> with \<open>collect\<close> stops at the first error.\<close>

fun collect :: "('a \<Rightarrow> 'b outcome) \<Rightarrow> 'a list \<Rightarrow> 'b list outcome" where
  "collect f [] = Good []"
| "collect f (x # xs) = obind (f x) (\<lambda>y. obind (collect f xs) (\<lambda>ys. Good (y # ys)))"

lemma collect_Good: "collect f xs = Good ys \<longleftrightarrow> list_all2 (\<lambda>x y. f x = Good y) xs ys"
  by (induction xs arbitrary: ys) (auto simp: obind_eq_Good list_all2_Cons1)

text \<open>\<open>unwrap_or\<close> of a \<open>Result\<close>.\<close>

fun good_or :: "'a outcome \<Rightarrow> 'a \<Rightarrow> 'a" where
  "good_or (Good x) d = x"
| "good_or r d = d"

end
