(* ===== verification/MarketFeed.thy ===== *)
theory MarketFeed
  imports Json "HOL-Library.Multiset"
begin

text \<open>
  The public market feed of \<open>src/src/gateway/polymarket/market_ws.rs\<close>: the parsers of its events,
  the dispatch, the session and the reconnect loop.
\<close>

section \<open>Shared JSON helpers\<close>

definition parse_decimal_field :: "'a lib_scheme \<Rightarrow> json \<Rightarrow> string \<Rightarrow> dec outcome" where
  "parse_decimal_field L obj field =
     obind (oget (get_str field obj) ''missing field'') (\<lambda>s. oget (d_parse L s) ''field is not a valid Decimal'')"

text \<open>Text or number; up to ten digits are seconds. Without a value it is the time of the call.\<close>

definition parse_timestamp_field :: "u64 \<Rightarrow> json \<Rightarrow> string \<Rightarrow> u64" where
  "parse_timestamp_field now obj field = (case jget field obj of
      None \<Rightarrow> now
    | Some val \<Rightarrow>
        (case (case as_str val of Some s \<Rightarrow> parse_u64 s | None \<Rightarrow> as_u64 val) of
           Some t \<Rightarrow> if t < 10000000000 then t * 1000 else t
         | None \<Rightarrow> now))"

definition parse_price_level :: "'a lib_scheme \<Rightarrow> json \<Rightarrow> price_level outcome" where
  "parse_price_level L entry = (case entry of
      JObj kvs \<Rightarrow>
        obind (oget (get_str ''price'' entry) ''price level missing price'') (\<lambda>p.
        obind (oget (d_parse L p) ''price level price Decimal'') (\<lambda>price.
        obind (oget (d_parse L (unwrap_or (get_str ''size'' entry) ''0'')) ''price level size Decimal'') (\<lambda>sz.
        Good \<lparr> pl_price = price, pl_size = sz \<rparr>)))
    | JArr arr \<Rightarrow>
        obind (oget (Option.bind (first_of arr) as_str) ''price level array[0] price'') (\<lambda>p.
        obind (oget (d_parse L p) ''price level array price Decimal'') (\<lambda>price.
        obind (oget (d_parse L (unwrap_or (Option.bind (first_of (drop 1 arr)) as_str) ''0''))
          ''price level array size Decimal'') (\<lambda>sz.
        Good \<lparr> pl_price = price, pl_size = sz \<rparr>)))
    | _ \<Rightarrow> Err ''unexpected price level format'')"

definition parse_price_levels :: "'a lib_scheme \<Rightarrow> json option \<Rightarrow> price_level list outcome" where
  "parse_price_levels L val = (case Option.bind val as_array of
      None \<Rightarrow> Good []
    | Some arr \<Rightarrow> collect (parse_price_level L) arr)"

section \<open>Event parsers\<close>

text \<open>The two stable sorts: bids with the highest first, asks with the lowest first.\<close>

definition sort_bids :: "price_level list \<Rightarrow> price_level list" where
  "sort_bids ls = sort_key (\<lambda>l. - pl_price l) ls"

definition sort_asks :: "price_level list \<Rightarrow> price_level list" where
  "sort_asks ls = sort_key pl_price ls"

definition parse_book_event :: "'a lib_scheme \<Rightarrow> u64 \<Rightarrow> json \<Rightarrow> order_book outcome" where
  "parse_book_event L now event =
     obind (parse_price_levels L (jget ''bids'' event)) (\<lambda>bids.
     obind (parse_price_levels L (jget ''asks'' event)) (\<lambda>asks.
     Good \<lparr> ob_asset_id = unwrap_or (get_str ''asset_id'' event) [], ob_bids = sort_bids bids,
       ob_asks = sort_asks asks, ob_timestamp_ms = parse_timestamp_field now event ''timestamp'' \<rparr>))"

definition parse_change :: "'a lib_scheme \<Rightarrow> json \<Rightarrow> ingestor_event outcome" where
  "parse_change L change =
     obind (parse_decimal_field L change ''price'') (\<lambda>price.
     Good (EvPriceChange (unwrap_or (get_str ''asset_id'' change) []) price
       (good_or (parse_decimal_field L change ''size'') 0)
       (if to_lowercase (unwrap_or (get_str ''side'' change) ''BUY'') = ''sell'' then Sell else Buy)
       (good_or (parse_decimal_field L change ''best_bid'') 0)
       (good_or (parse_decimal_field L change ''best_ask'') 0)))"

definition parse_price_change_event :: "'a lib_scheme \<Rightarrow> json \<Rightarrow> ingestor_event list outcome" where
  "parse_price_change_event L event =
     collect (parse_change L) (unwrap_or (Option.bind (jget ''changes'' event) as_array) [])"

definition either_field :: "'a lib_scheme \<Rightarrow> json \<Rightarrow> string \<Rightarrow> string \<Rightarrow> dec outcome" where
  "either_field L event f g = (case parse_decimal_field L event f of
      Good d \<Rightarrow> Good d | _ \<Rightarrow> parse_decimal_field L event g)"

definition parse_best_bid_ask_event :: "'a lib_scheme \<Rightarrow> json \<Rightarrow> ingestor_event outcome" where
  "parse_best_bid_ask_event L event = Good (EvBestBidAsk (unwrap_or (get_str ''asset_id'' event) [])
     (good_or (either_field L event ''bid'' ''best_bid'') 0) (good_or (either_field L event ''ask'' ''best_ask'') 0))"

definition parse_tick_size_change_event :: "'a lib_scheme \<Rightarrow> json \<Rightarrow> ingestor_event outcome" where
  "parse_tick_size_change_event L event =
     (let old_tick_size = good_or (parse_decimal_field L event ''old_tick_size'') (dnew 1 2) in
      obind (either_field L event ''new_tick_size'' ''tick_size'') (\<lambda>new_tick_size.
      Good (EvTickSizeChange (unwrap_or (get_str ''asset_id'' event) []) old_tick_size new_tick_size)))"

definition parse_market_resolved_event :: "json \<Rightarrow> ingestor_event outcome" where
  "parse_market_resolved_event event = Good (EvMarketResolved (unwrap_or (get_str ''market'' event) [])
     (unwrap_or (Option.bind (or_else (jget ''winner'' event) (jget ''winning_asset_id'' event)) as_str) []))"

section \<open>Dispatch\<close>

definition event_type_of :: "json \<Rightarrow> string" where
  "event_type_of event = unwrap_or (Option.bind (or_else (jget ''event_type'' event) (jget ''type'' event)) as_str) []"

text \<open>The events an event object stands for, in the order they are sent.\<close>

definition market_event :: "'a lib_scheme \<Rightarrow> u64 \<Rightarrow> json \<Rightarrow> ingestor_event list outcome" where
  "market_event L now event =
     (let ty = event_type_of event in
      if ty = ''book'' then obind (parse_book_event L now event) (\<lambda>b. Good [EvBook b])
      else if ty = ''price_change'' then parse_price_change_event L event
      else if ty = ''best_bid_ask'' then obind (parse_best_bid_ask_event L event) (\<lambda>ev. Good [ev])
      else if ty = ''tick_size_change'' then obind (parse_tick_size_change_event L event) (\<lambda>ev. Good [ev])
      else if ty = ''market_resolved'' then obind (parse_market_resolved_event event) (\<lambda>ev. Good [ev])
      else Good [])"

definition dispatch_market_event :: "'a lib_scheme \<Rightarrow> u64 \<Rightarrow> nat \<Rightarrow> json \<Rightarrow> ingestor_event list
    \<Rightarrow> ingestor_event list outcome" where
  "dispatch_market_event L now cap event ch =
     obind (market_event L now event) (\<lambda>evs. Good (try_send_all cap evs ch))"

text \<open>A failed event is logged and skipped. \<open>json_parse\<close> is the parser of the library.\<close>

definition handle_market_message :: "'a lib_scheme \<Rightarrow> (string \<Rightarrow> json option) \<Rightarrow> u64 \<Rightarrow> nat \<Rightarrow> string
    \<Rightarrow> ingestor_event list \<Rightarrow> ingestor_event list outcome" where
  "handle_market_message L json_parse now cap payload ch =
     obind (oget (json_parse payload) ''Market WS JSON parse error'') (\<lambda>value.
     Good (case value of
        JArr events \<Rightarrow> foldl (\<lambda>ch event. good_or (dispatch_market_event L now cap event ch) ch) ch events
      | JObj kvs \<Rightarrow> good_or (dispatch_market_event L now cap value ch) ch
      | _ \<Rightarrow> ch))"

definition build_market_subscribe_msg :: "string list \<Rightarrow> json" where
  "build_market_subscribe_msg token_ids = JObj [(''type'', JStr ''market''),
     (''assets_ids'', JArr (map JStr token_ids)), (''custom_feature_enabled'', JBool True)]"

section \<open>Session\<close>

text \<open>
  What a text session reads: a text or binary frame (None: not valid UTF-8), a ping with whether
  the pong can be written, the keepalive timeout with whether the \<open>PING\<close> can be written, a close
  frame, another frame, or the shutdown flag at the head of the loop. The list ends where the
  connection is lost. Each input has the clock and the free slots of the channel.
\<close>

datatype ws_input = WsText "string option" | WsPing bool | WsTimeout bool | WsClose | WsOther | WsShutdown

fun text_session :: "(u64 \<Rightarrow> nat \<Rightarrow> string \<Rightarrow> ingestor_event list) \<Rightarrow> (ws_input \<times> u64 \<times> nat) list
    \<Rightarrow> bool \<times> ingestor_event list" where
  "text_session handle [] = (False, [])"
| "text_session handle ((WsText None, i) # ins) = (False, [])"
| "text_session handle ((WsText (Some payload), now, free) # ins) =
     (if payload = ''PONG'' then text_session handle ins
      else let (clean, evs) = text_session handle ins in (clean, handle now free payload @ evs))"
| "text_session handle ((WsPing ok, i) # ins) = (if ok then text_session handle ins else (False, []))"
| "text_session handle ((WsTimeout ok, i) # ins) = (if ok then text_session handle ins else (False, []))"
| "text_session handle ((WsClose, i) # ins) = (True, [])"
| "text_session handle ((WsOther, i) # ins) = text_session handle ins"
| "text_session handle ((WsShutdown, i) # ins) = (True, [])"

record ws_session =
  ws_connects :: bool
  ws_free_up :: nat
  ws_subscribed :: bool
  ws_inputs :: "(ws_input \<times> u64 \<times> nat) list"
  ws_free_down :: nat

definition market_ws_session :: "'a lib_scheme \<Rightarrow> (string \<Rightarrow> json option) \<Rightarrow> ws_session \<Rightarrow> bool \<times> ingestor_event list" where
  "market_ws_session L json_parse s =
     (if \<not> ws_connects s then (False, [])
      else let up = try_send (ws_free_up s) (EvWsStatus PolymarketMarket True) [] in
        if \<not> ws_subscribed s then (False, up)
        else let (clean, evs) = text_session (\<lambda>now free p. good_or (handle_market_message L json_parse now free p []) [])
                                  (ws_inputs s)
             in (clean, up @ evs))"

section \<open>The reconnect loop\<close>

text \<open>
  One turn of the loop: the shutdown flag, then a wait for the first tokens (None: the sender is
  gone), or a session that ends by itself, or one that is dropped because the tokens changed.
\<close>

datatype market_turn =
    TurnShutdown
  | TurnWait "string list option"
  | TurnEnds ws_session
  | TurnTokens ws_session "string list"

record market_run =
  mr_tokens :: "string list"
  mr_backoff_ms :: u64
  mr_events :: "ingestor_event list"
  mr_delays :: "u64 list"
  mr_subscriptions :: "string list list"
  mr_stopped :: bool

definition market_run_new :: market_run where
  "market_run_new = \<lparr> mr_tokens = [], mr_backoff_ms = backoff_initial_ms, mr_events = [], mr_delays = [],
     mr_subscriptions = [], mr_stopped = False \<rparr>"

definition market_step :: "'a lib_scheme \<Rightarrow> (string \<Rightarrow> json option) \<Rightarrow> market_turn \<Rightarrow> market_run \<Rightarrow> market_run" where
  "market_step L json_parse t r =
     (if mr_stopped r then r else
      (case t of
        TurnShutdown \<Rightarrow> r\<lparr> mr_stopped := True \<rparr>
      | TurnWait ts \<Rightarrow>
          if mr_tokens r \<noteq> [] then r
          else (case ts of None \<Rightarrow> r\<lparr> mr_stopped := True \<rparr> | Some tokens \<Rightarrow> r\<lparr> mr_tokens := tokens \<rparr>)
      | TurnEnds s \<Rightarrow>
          if mr_tokens r = [] then r
          else r\<lparr> mr_events := mr_events r @ snd (market_ws_session L json_parse s)
                      @ try_send (ws_free_down s) (EvWsStatus PolymarketMarket False) [],
                  mr_subscriptions := mr_subscriptions r @ [mr_tokens r],
                  mr_delays := mr_delays r @ [mr_backoff_ms r], mr_backoff_ms := next_backoff (mr_backoff_ms r) \<rparr>
      | TurnTokens s tokens \<Rightarrow>
          if mr_tokens r = [] then r
          else r\<lparr> mr_events := mr_events r @ snd (market_ws_session L json_parse s),
                  mr_subscriptions := mr_subscriptions r @ [mr_tokens r],
                  mr_tokens := tokens, mr_backoff_ms := backoff_initial_ms \<rparr>))"

definition run_market_ws :: "'a lib_scheme \<Rightarrow> (string \<Rightarrow> json option) \<Rightarrow> market_turn list \<Rightarrow> market_run" where
  "run_market_ws L json_parse ts = foldl (\<lambda>r t. market_step L json_parse t r) market_run_new ts"

section \<open>Properties\<close>

lemma collect_not_Panic: "(\<And>x. x \<in> set xs \<Longrightarrow> f x \<noteq> Panic) \<Longrightarrow> collect f xs \<noteq> Panic"
  by (induction xs) (auto simp: obind_eq_Panic)

lemma parse_decimal_field_total [simp]: "parse_decimal_field L obj f \<noteq> Panic"
  by (auto simp: parse_decimal_field_def obind_eq_Panic)

lemma sort_bids_first:
  assumes "sort_bids ls = l # rest" and "m \<in> set ls"
  shows "pl_price m \<le> pl_price l"
proof -
  have "sorted (map (\<lambda>l. - pl_price l) (l # rest))" by (metis assms(1) sort_bids_def sorted_sort_key)
  moreover have "m \<in> set (l # rest)" using assms by (metis set_sort sort_bids_def)
  ultimately show ?thesis by auto
qed

lemma sort_asks_first:
  assumes "sort_asks ls = l # rest" and "m \<in> set ls"
  shows "pl_price l \<le> pl_price m"
proof -
  have "sorted (map pl_price (l # rest))" by (metis assms(1) sort_asks_def sorted_sort_key)
  moreover have "m \<in> set (l # rest)" using assms by (metis set_sort sort_asks_def)
  ultimately show ?thesis by auto
qed

lemma best_level_Max:
  fixes f :: "'b \<Rightarrow> rat"
  assumes "\<And>l rest m. xs = l # rest \<Longrightarrow> m \<in> set ys \<Longrightarrow> f m \<le> f l" and "mset xs = mset ys"
  shows "case first_of xs of None \<Rightarrow> ys = [] | Some l \<Rightarrow> l \<in> set ys \<and> f l = Max (f ` set ys)"
proof (cases xs)
  case Nil
  then show ?thesis using assms(2) by simp
next
  case (Cons l rest)
  have "l \<in> set ys" using assms(2) Cons by (metis list.set_intros(1) set_mset_mset)
  moreover from this have "f l = Max (f ` set ys)" using assms(1) [OF Cons] by (intro Max_eqI [symmetric]) auto
  ultimately show ?thesis by (simp add: Cons)
qed

lemma best_level_Min:
  fixes f :: "'b \<Rightarrow> rat"
  assumes "\<And>l rest m. xs = l # rest \<Longrightarrow> m \<in> set ys \<Longrightarrow> f l \<le> f m" and "mset xs = mset ys"
  shows "case first_of xs of None \<Rightarrow> ys = [] | Some l \<Rightarrow> l \<in> set ys \<and> f l = Min (f ` set ys)"
proof (cases xs)
  case Nil
  then show ?thesis using assms(2) by simp
next
  case (Cons l rest)
  have "l \<in> set ys" using assms(2) Cons by (metis list.set_intros(1) set_mset_mset)
  moreover from this have "f l = Min (f ` set ys)" using assms(1) [OF Cons] by (intro Min_eqI [symmetric]) auto
  ultimately show ?thesis by (simp add: Cons)
qed

text \<open>
  A parsed book is the message's levels, best prices first. If a book event parses, its bids
  and asks are the levels of the message and nothing else, with their multiplicities, and the
  best bid and ask the engine reads off the book are the highest bid and the lowest ask.
\<close>

theorem book_best_prices:
  assumes "parse_book_event L now event = Good b"
  shows "\<exists>bids asks. parse_price_levels L (jget ''bids'' event) = Good bids \<and> mset (ob_bids b) = mset bids
    \<and> parse_price_levels L (jget ''asks'' event) = Good asks \<and> mset (ob_asks b) = mset asks
    \<and> (case ob_best_bid b of None \<Rightarrow> bids = [] | Some l \<Rightarrow> l \<in> set bids \<and> pl_price l = Max (pl_price ` set bids))
    \<and> (case ob_best_ask b of None \<Rightarrow> asks = [] | Some l \<Rightarrow> l \<in> set asks \<and> pl_price l = Min (pl_price ` set asks))"
proof -
  obtain bids asks where p: "parse_price_levels L (jget ''bids'' event) = Good bids"
    "parse_price_levels L (jget ''asks'' event) = Good asks" "ob_bids b = sort_bids bids" "ob_asks b = sort_asks asks"
    using assms by (auto simp: parse_book_event_def obind_eq_Good)
  have m: "mset (sort_bids bids) = mset bids" "mset (sort_asks asks) = mset asks"
    by (simp_all add: sort_bids_def sort_asks_def)
  have bid: "case first_of (sort_bids bids) of None \<Rightarrow> bids = [] | Some l \<Rightarrow> l \<in> set bids \<and> pl_price l = Max (pl_price ` set bids)"
    by (rule best_level_Max [OF sort_bids_first m(1)])
  have ask: "case first_of (sort_asks asks) of None \<Rightarrow> asks = [] | Some l \<Rightarrow> l \<in> set asks \<and> pl_price l = Min (pl_price ` set asks)"
    by (rule best_level_Min [OF sort_asks_first m(2)])
  with p m bid ask show ?thesis by (auto simp: ob_best_bid_def ob_best_ask_def)
qed

lemma book_best_prices_witness:
  "let L = exact_lib\<lparr> d_parse := (\<lambda>s. if s = ''0.4'' then Some (2 / 5) else if s = ''0.45'' then Some (9 / 20) else Some 7) \<rparr>;
     event = JObj [(''bids'', JArr [JArr [JStr ''0.4''], JArr [JStr ''0.45'', JStr ''3'']])]
   in \<exists>b. parse_book_event L 9 event = Good b \<and> (case ob_best_bid b of None \<Rightarrow> False | Some l \<Rightarrow> pl_price l = 9 / 20)"
proof -
  let ?L = "exact_lib\<lparr> d_parse := (\<lambda>s. if s = ''0.4'' then Some (2 / 5) else if s = ''0.45'' then Some (9 / 20) else Some 7) \<rparr>"
  let ?e = "JObj [(''bids'', JArr [JArr [JStr ''0.4''], JArr [JStr ''0.45'', JStr ''3'']])]"
  have l: "parse_price_levels ?L (jget ''bids'' ?e) = Good [\<lparr> pl_price = 2 / 5, pl_size = 7 \<rparr>, \<lparr> pl_price = 9 / 20, pl_size = 7 \<rparr>]"
    "parse_price_levels ?L (jget ''asks'' ?e) = Good []"
    by (simp_all add: parse_price_levels_def parse_price_level_def get_str_def)
  then obtain b where b: "parse_book_event ?L 9 ?e = Good b" by (simp add: parse_book_event_def)
  from book_best_prices [OF b] l b show ?thesis unfolding Let_def by (auto split: option.splits)
qed

lemma try_send_all_append: "try_send_all cap (xs @ ys) ch = try_send_all cap ys (try_send_all cap xs ch)"
  by (simp add: try_send_all_def)

lemma dispatch_all:
  "foldl (\<lambda>ch event. good_or (dispatch_market_event L now cap event ch) ch) ch events
    = try_send_all cap (concat (map (\<lambda>event. good_or (market_event L now event) []) events)) ch"
proof (induction events arbitrary: ch)
  case Nil
  show ?case by (simp add: try_send_all_def)
next
  case (Cons e es)
  have "good_or (dispatch_market_event L now cap e ch) ch = try_send_all cap (good_or (market_event L now e) []) ch"
    by (cases "market_event L now e") (simp_all add: dispatch_market_event_def try_send_all_def)
  then show ?case by (simp add: Cons try_send_all_append)
qed

text \<open>
  One bad event does not take the others with it. A frame with an array of events adds to
  the channel, as far as it has room, the events of the objects that parse, in the order of the
  frame; objects that do not parse or are of another type add nothing.
\<close>

theorem market_frame_events:
  assumes "json_parse payload = Some (JArr events)"
  shows "handle_market_message L json_parse now cap payload ch
    = Good (ch @ take (cap - length ch) (concat (map (\<lambda>event. good_or (market_event L now event) []) events)))"
  using assms by (simp add: handle_market_message_def dispatch_all try_send_all_eq)

lemma market_frame_events_witness:
  "handle_market_message exact_lib (\<lambda>s. Some (JArr [JObj [(''event_type'', JStr ''tick_size_change'')],
       JObj [(''event_type'', JStr ''market_resolved''), (''market'', JStr ''m'')], JNull])) 9 8 [] []
    = Good [EvMarketResolved ''m'' []]"
  by (subst market_frame_events [OF refl])
    (simp add: market_event_def event_type_of_def parse_tick_size_change_event_def either_field_def parse_decimal_field_def
      parse_market_resolved_event_def get_str_def Let_def)

end
