(* ===== verification/UserFeed.thy ===== *)
theory UserFeed
  imports MarketFeed
begin

text \<open>
  The authenticated user feed of \<open>src/src/gateway/polymarket/user_ws.rs\<close>: the status of an order,
  the messages, the session and the reconnect loop.
\<close>

definition parse_trade_status :: "string \<Rightarrow> trade_status option" where
  "parse_trade_status s =
     (let u = to_uppercase s in
      if u = ''MATCHED'' then Some Matched
      else if u = ''MINED'' then Some Mined
      else if u = ''CONFIRMED'' then Some Confirmed
      else if u = ''RETRYING'' then Some Retrying
      else if u = ''FAILED'' then Some Failed
      else if u \<in> {''CANCELED'', ''CANCELLED''} then Some Canceled
      else None)"

text \<open>Only \<open>order\<close> events with a known status are forwarded.\<close>

definition user_event :: "'a lib_scheme \<Rightarrow> json \<Rightarrow> ingestor_event list" where
  "user_event L event =
     (if event_type_of event = ''order'' then
        (let order_id = unwrap_or (Option.bind (or_else (jget ''id'' event) (jget ''order_id'' event)) as_str) ''?'';
             size_matched = Option.bind (get_str ''size_matched'' event) (d_parse L);
             original_size = Option.bind (get_str ''original_size'' event) (d_parse L)
         in (case parse_trade_status (unwrap_or (get_str ''status'' event) ''?'') of
               Some status \<Rightarrow> [EvTradeStatus order_id status size_matched original_size]
             | None \<Rightarrow> []))
      else [])"

definition handle_user_message :: "'a lib_scheme \<Rightarrow> (string \<Rightarrow> json option) \<Rightarrow> nat \<Rightarrow> string
    \<Rightarrow> ingestor_event list \<Rightarrow> ingestor_event list outcome" where
  "handle_user_message L json_parse cap payload ch =
     obind (oget (json_parse payload) ''User WS JSON parse error'') (\<lambda>value.
     let events = (case value of JArr arr \<Rightarrow> arr | _ \<Rightarrow> [value]) in
     Good (foldl (\<lambda>ch event. try_send_all cap (user_event L event) ch) ch events))"

definition build_user_auth_msg :: "string \<Rightarrow> string \<Rightarrow> string \<Rightarrow> json" where
  "build_user_auth_msg api_key secret passphrase = JObj [(''type'', JStr ''user''), (''operation'', JStr ''subscribe''),
     (''markets'', JArr []), (''asset_ids'', JArr []), (''initial_dump'', JBool True),
     (''auth'', JObj [(''apiKey'', JStr api_key), (''secret'', JStr secret), (''passphrase'', JStr passphrase)])]"

definition user_ws_session :: "'a lib_scheme \<Rightarrow> (string \<Rightarrow> json option) \<Rightarrow> ws_session \<Rightarrow> bool \<times> ingestor_event list" where
  "user_ws_session L json_parse s =
     (if \<not> ws_connects s then (False, [])
      else let up = try_send (ws_free_up s) (EvWsStatus PolymarketUser True) [] in
        if \<not> ws_subscribed s then (False, up)
        else let (clean, evs) = text_session (\<lambda>now free p. good_or (handle_user_message L json_parse free p []) [])
                                  (ws_inputs s)
             in (clean, up @ evs))"

text \<open>The loop over the sessions; None stands for the shutdown flag.\<close>

fun user_run_from :: "'a lib_scheme \<Rightarrow> (string \<Rightarrow> json option) \<Rightarrow> u64 \<Rightarrow> ws_session option list
    \<Rightarrow> ingestor_event list \<times> u64 list" where
  "user_run_from L json_parse backoff_ms [] = ([], [])"
| "user_run_from L json_parse backoff_ms (None # ss) = ([], [])"
| "user_run_from L json_parse backoff_ms (Some s # ss) =
     (let (evs, delays) = user_run_from L json_parse (next_backoff backoff_ms) ss
      in (snd (user_ws_session L json_parse s) @ try_send (ws_free_down s) (EvWsStatus PolymarketUser False) [] @ evs,
          backoff_ms # delays))"

definition run_user_ws :: "'a lib_scheme \<Rightarrow> (string \<Rightarrow> json option) \<Rightarrow> string option \<Rightarrow> string option \<Rightarrow> string option
    \<Rightarrow> ws_session option list \<Rightarrow> (ingestor_event list \<times> u64 list) outcome" where
  "run_user_ws L json_parse api_key secret passphrase ss =
     obind (oget api_key ''api_key required for User WS'') (\<lambda>k.
     obind (oget secret ''secret required for User WS'') (\<lambda>s.
     obind (oget passphrase ''passphrase required for User WS'') (\<lambda>p.
     Good (user_run_from L json_parse backoff_initial_ms ss))))"

end
