(* ===== verification/FuturesFeed.thy ===== *)
theory FuturesFeed
  imports Json
begin

text \<open>
  The futures feed of \<open>src/src/gateway/binance/futures_ws.rs\<close>. The typed payloads are read from
  the parsed JSON by the library's derived deserializers: a missing field or one of another type
  is a failure. Sending blocks while the channel is full, so nothing is dropped.
\<close>

record agg_trade_payload =
  ag_p :: string
  ag_q :: string
  ag_m :: bool
  ag_trade_time :: u64

record book_ticker_payload =
  bk_b :: string
  bk_bid_qty :: string
  bk_a :: string
  bk_ask_qty :: string
  bk_event_time :: u64

record force_order_payload =
  fo_side :: string
  fo_p :: string
  fo_q :: string
  fo_trade_time :: u64

definition get_u64 :: "string \<Rightarrow> json \<Rightarrow> u64 option" where
  "get_u64 k v = Option.bind (jget k v) as_u64"

definition agg_trade_of :: "json \<Rightarrow> agg_trade_payload option" where
  "agg_trade_of v = Option.bind (get_str ''p'' v) (\<lambda>p. Option.bind (get_str ''q'' v) (\<lambda>q.
     Option.bind (Option.bind (jget ''m'' v) as_bool) (\<lambda>m. Option.bind (get_u64 ''T'' v) (\<lambda>t.
     Some \<lparr> ag_p = p, ag_q = q, ag_m = m, ag_trade_time = t \<rparr>))))"

definition book_ticker_of :: "json \<Rightarrow> book_ticker_payload option" where
  "book_ticker_of v = Option.bind (get_str ''b'' v) (\<lambda>b. Option.bind (get_str ''B'' v) (\<lambda>bq.
     Option.bind (get_str ''a'' v) (\<lambda>a. Option.bind (get_str ''A'' v) (\<lambda>aq. Option.bind (get_u64 ''E'' v) (\<lambda>t.
     Some \<lparr> bk_b = b, bk_bid_qty = bq, bk_a = a, bk_ask_qty = aq, bk_event_time = t \<rparr>)))))"

definition force_order_of :: "json \<Rightarrow> force_order_payload option" where
  "force_order_of v = Option.bind (jget ''o'' v) (\<lambda>inner. Option.bind (get_str ''S'' inner) (\<lambda>sd.
     Option.bind (get_str ''p'' inner) (\<lambda>p. Option.bind (get_str ''q'' inner) (\<lambda>q. Option.bind (get_u64 ''T'' inner) (\<lambda>t.
     Some \<lparr> fo_side = sd, fo_p = p, fo_q = q, fo_trade_time = t \<rparr>)))))"

definition agg_trade_event :: "'a lib_scheme \<Rightarrow> u64 \<Rightarrow> u64 \<Rightarrow> json \<Rightarrow> ingestor_event list" where
  "agg_trade_event L thr now v = (case agg_trade_of v of
      None \<Rightarrow> []
    | Some t \<Rightarrow> if is_stale (ag_trade_time t) now thr then []
        else (case (d_parse L (ag_p t), d_parse L (ag_q t)) of
           (Some price, Some qty) \<Rightarrow> [EvFuturesAggTrade \<lparr> fat_price = price, fat_quantity = qty,
              fat_is_buyer_maker = ag_m t, fat_timestamp_ms = ag_trade_time t \<rparr>]
         | _ \<Rightarrow> []))"

definition book_ticker_event :: "'a lib_scheme \<Rightarrow> u64 \<Rightarrow> u64 \<Rightarrow> json \<Rightarrow> ingestor_event list" where
  "book_ticker_event L thr now v = (case book_ticker_of v of
      None \<Rightarrow> []
    | Some t \<Rightarrow> if is_stale (bk_event_time t) now thr then []
        else (case (d_parse L (bk_b t), d_parse L (bk_bid_qty t), d_parse L (bk_a t), d_parse L (bk_ask_qty t)) of
           (Some bp, Some bq, Some ap, Some aq) \<Rightarrow> [EvFuturesBookTicker \<lparr> fbt_bid_price = bp, fbt_bid_qty = bq,
              fbt_ask_price = ap, fbt_ask_qty = aq, fbt_timestamp_ms = bk_event_time t \<rparr>]
         | _ \<Rightarrow> []))"

definition force_order_event :: "'a lib_scheme \<Rightarrow> u64 \<Rightarrow> u64 \<Rightarrow> json \<Rightarrow> ingestor_event list" where
  "force_order_event L thr now v = (case force_order_of v of
      None \<Rightarrow> []
    | Some t \<Rightarrow> if is_stale (fo_trade_time t) now thr then []
        else (case (d_parse L (fo_p t), d_parse L (fo_q t)) of
           (Some price, Some qty) \<Rightarrow> [EvFuturesForceOrder \<lparr> ffo_side = fo_side t, ffo_price = price,
              ffo_quantity = qty, ffo_timestamp_ms = fo_trade_time t \<rparr>]
         | _ \<Rightarrow> []))"

definition handle_json_message :: "'a lib_scheme \<Rightarrow> (string \<Rightarrow> json option) \<Rightarrow> u64 \<Rightarrow> u64 \<Rightarrow> string
    \<Rightarrow> ingestor_event list" where
  "handle_json_message L json_parse stale_threshold_ms now_ms payload =
     (case Option.bind (json_parse payload) (\<lambda>w. Option.bind (get_str ''stream'' w) (\<lambda>s.
             map_option (\<lambda>d. (s, d)) (jget ''data'' w))) of
        None \<Rightarrow> []
      | Some (stream, data) \<Rightarrow>
          if ends_with stream ''@aggTrade'' then agg_trade_event L stale_threshold_ms now_ms data
          else if ends_with stream ''@bookTicker'' then book_ticker_event L stale_threshold_ms now_ms data
          else if ends_with stream ''@forceOrder'' then force_order_event L stale_threshold_ms now_ms data
          else [])"

section \<open>Session and reconnect loop\<close>

text \<open>A frame: text (None: not UTF-8), binary, close, another; the list ends with a read error.\<close>

datatype futures_frame = FfText "string option" | FfBinary | FfClose | FfOther

fun futures_stream :: "'a lib_scheme \<Rightarrow> (string \<Rightarrow> json option) \<Rightarrow> u64 \<Rightarrow> (futures_frame \<times> u64) list
    \<Rightarrow> bool \<times> ingestor_event list" where
  "futures_stream L json_parse thr [] = (False, [])"
| "futures_stream L json_parse thr ((FfText None, now) # fs) = (False, [])"
| "futures_stream L json_parse thr ((FfText (Some payload), now) # fs) =
     (let (clean, evs) = futures_stream L json_parse thr fs
      in (clean, handle_json_message L json_parse thr now payload @ evs))"
| "futures_stream L json_parse thr ((FfBinary, now) # fs) = futures_stream L json_parse thr fs"
| "futures_stream L json_parse thr ((FfClose, now) # fs) = (True, [])"
| "futures_stream L json_parse thr ((FfOther, now) # fs) = futures_stream L json_parse thr fs"

text \<open>None: the connection is refused.\<close>

definition futures_connect_and_stream :: "'a lib_scheme \<Rightarrow> (string \<Rightarrow> json option) \<Rightarrow> u64
    \<Rightarrow> (futures_frame \<times> u64) list option \<Rightarrow> bool \<times> ingestor_event list" where
  "futures_connect_and_stream L json_parse thr s = (case s of
      None \<Rightarrow> (False, [])
    | Some fs \<Rightarrow> (let (clean, evs) = futures_stream L json_parse thr fs
                  in (clean, EvWsStatus BinanceFutures True # evs)))"

text \<open>Here a clean end resets the backoff.\<close>

fun futures_run_from :: "'a lib_scheme \<Rightarrow> (string \<Rightarrow> json option) \<Rightarrow> u64 \<Rightarrow> u64
    \<Rightarrow> (futures_frame \<times> u64) list option list \<Rightarrow> ingestor_event list \<times> u64 list" where
  "futures_run_from L json_parse thr backoff_ms [] = ([], [])"
| "futures_run_from L json_parse thr backoff_ms (s # ss) =
     (let (clean, evs) = futures_connect_and_stream L json_parse thr s;
          delay = (if clean then backoff_initial_ms else backoff_ms);
          (evs', delays) = futures_run_from L json_parse thr (next_backoff delay) ss
      in (evs @ [EvWsStatus BinanceFutures False] @ evs', delay # delays))"

definition futures_run :: "'a lib_scheme \<Rightarrow> (string \<Rightarrow> json option) \<Rightarrow> u64
    \<Rightarrow> (futures_frame \<times> u64) list option list \<Rightarrow> ingestor_event list \<times> u64 list" where
  "futures_run L json_parse thr ss = futures_run_from L json_parse thr backoff_initial_ms ss"

end
