(* ===== verification/FeedProps.thy ===== *)
theory FeedProps
  imports UserFeed FuturesFeed LifecycleProps
begin

text \<open>
  Properties of the text feeds: from a frame of the user feed to the position, the reconnect loop
  of the market feed, the delays and the freshness of the futures feed.
\<close>

section \<open>From the user feed to the position\<close>

text \<open>An \<open>order\<close> object: the id, the status and the matched size as the exchange writes them.\<close>

definition order_json :: "string \<Rightarrow> string \<times> string \<Rightarrow> json" where
  "order_json i r = JObj [(''event_type'', JStr ''order''), (''id'', JStr i), (''status'', JStr (fst r)),
     (''size_matched'', JStr (snd r))]"

text \<open>The figure the engine acts on: the size, if it parses and the status is a match.\<close>

definition reported :: "'a lib_scheme \<Rightarrow> string \<times> string \<Rightarrow> dec option" where
  "reported L r = (if parse_trade_status (fst r) = Some Matched then d_parse L (snd r) else None)"

definition figures :: "'a lib_scheme \<Rightarrow> (string \<times> string) list \<Rightarrow> dec list" where
  "figures L rs = concat (map (\<lambda>r. case reported L r of None \<Rightarrow> [] | Some c \<Rightarrow> [c]) rs)"

lemma user_event_order:
  "user_event L (order_json i r) = (case parse_trade_status (fst r) of
     Some status \<Rightarrow> [EvTradeStatus i status (d_parse L (snd r)) None] | None \<Rightarrow> [])"
  by (simp add: user_event_def event_type_of_def order_json_def get_str_def Let_def)

lemma feed_run:
  "orun (handle_event L now) (concat (map (user_event L) (map (order_json i) rs))) e
    = Good (foldl (ws_report L i now) e (figures L rs))"
proof (induction rs arbitrary: e)
  case Nil
  show ?case by (simp add: figures_def)
next
  case (Cons r rs)
  have "orun (handle_event L now) (user_event L (order_json i r)) e
      = Good (foldl (ws_report L i now) e (case reported L r of None \<Rightarrow> [] | Some c \<Rightarrow> [c]))"
    by (cases "parse_trade_status (fst r)"; cases "d_parse L (snd r)")
      (auto simp: user_event_order reported_def ws_report_def on_trade_status_update_def)
  with Cons.IH [of "foldl (ws_report L i now) e (case reported L r of None \<Rightarrow> [] | Some c \<Rightarrow> [c])"]
  show ?case by (simp add: orun_append figures_def)
qed

lemma feed_events:
  "foldl (\<lambda>ch event. try_send_all cap (user_event L event) ch) ch events
     = try_send_all cap (concat (map (user_event L) events)) ch"
  by (induction events arbitrary: ch) (simp_all add: try_send_all_append, simp add: try_send_all_def)

text \<open>
  C18. The user feed moves the position once. An order rests, and a frame of the user feed reports
  on it in any number of objects: any statuses in any case, matched sizes repeated, out of order
  or unreadable, none above the order's size. If the channel has room, the engine that processes
  the events of the frame has grown the order's side by exactly the largest readable size with
  the status of a match, and the other side by nothing.
\<close>

theorem user_feed_counts_once:
  assumes "q_order sd (en_quoter e) = Some o1" and "mo_size_filled o1 = 0" and "foreign_id sd (mo_order_id o1) (en_quoter e)"
    and "json_parse payload = Some (JArr (map (order_json (mo_order_id o1)) rs))" and "length rs \<le> cap"
    and "list_all (\<lambda>c. c \<le> mo_size o1) (figures L rs)"
  shows "\<exists>evs e'. handle_user_message L json_parse cap payload [] = Good evs \<and> orun (handle_event L now) evs e = Good e'
    \<and> total_shares (pos_side sd (en_position e')) = total_shares (pos_side sd (en_position e)) + foldl max 0 (figures L rs)
    \<and> total_shares (pos_side (opposite sd) (en_position e')) = total_shares (pos_side (opposite sd) (en_position e))"
proof -
  let ?i = "mo_order_id o1" and ?evs = "concat (map (user_event L) (map (order_json (mo_order_id o1)) rs))"
  have "length ?evs \<le> length rs"
    by (induction rs) (auto simp: user_event_order split: option.splits)
  then have h: "handle_user_message L json_parse cap payload [] = Good ?evs"
    using assms(4,5) by (simp add: handle_user_message_def feed_events Let_def) (simp add: try_send_all_eq)
  have s: "seen_shares sd ?i (mo_price o1) (mo_size o1) 0 (en_quoter e)" using assms(1,2) by (simp add: seen_shares_def)
  from ws_reports [OF s assms(3,6) order_refl] feed_run [of L now ?i rs e] h show ?thesis by fastforce
qed

text \<open>The three figures a parser reads in the witness.\<close>

definition witness_lib :: lib where
  "witness_lib = exact_lib\<lparr> d_parse := (\<lambda>s. if s = ''5'' then Some 5 else if s = ''3.5'' then Some (7 / 2) else None) \<rparr>"

lemma user_feed_counts_once_witness:
  "let e = on_feedback witness_lib 1000 (OrderPosted Yes ''o'' (2 / 5) 20 False) (demo_engine position_new);
     rs = [(''matched'', ''3.5''), (''LIVE'', ''20''), (''MATCHED'', ''5''), (''MATCHED'', ''x''), (''MATCHED'', ''3.5'')];
     parse = (\<lambda>s. Some (JArr (map (order_json ''o'') rs)))
   in \<exists>evs e'. handle_user_message witness_lib parse 16 [] [] = Good evs \<and> orun (handle_event witness_lib 1001) evs e = Good e'
      \<and> total_shares (yes_pos (en_position e')) = 5"
proof -
  let ?e = "on_feedback witness_lib 1000 (OrderPosted Yes ''o'' (2 / 5) 20 False) (demo_engine position_new)"
  let ?rs = "[(''matched'', ''3.5''), (''LIVE'', ''20''), (''MATCHED'', ''5''), (''MATCHED'', ''x''), (''MATCHED'', ''3.5'')]"
  obtain o1 where o1: "q_order Yes (en_quoter ?e) = Some o1" "mo_size_filled o1 = 0" "mo_order_id o1 = ''o''" "mo_size o1 = 20"
    by (simp add: fb_order_posted_def Let_def)
  have p: "parse_trade_status ''matched'' = Some Matched" "parse_trade_status ''MATCHED'' = Some Matched"
    "parse_trade_status ''LIVE'' = None" by code_simp+
  have f: "figures witness_lib ?rs = [7 / 2, 5, 7 / 2]"
    by (simp add: figures_def reported_def p witness_lib_def)
  have "foreign_id Yes (mo_order_id o1) (en_quoter ?e)" "total_shares (pos_side Yes (en_position ?e)) = 0"
    by (simp_all add: foreign_id_def fb_order_posted_def q_order_def on_order_posted_def quoter_new_def Let_def
        position_new_def side_new_def position_defs)
  then show ?thesis
    using user_feed_counts_once [OF o1(1,2), of "\<lambda>s. Some (JArr (map (order_json ''o'') ?rs))" "[]" ?rs 16 witness_lib 1001] o1(3,4) f
    unfolding Let_def by (auto simp: position_defs)
qed

section \<open>The reconnect loop of the market feed\<close>

definition market_run_ok :: "market_run \<Rightarrow> bool" where
  "market_run_ok r \<longleftrightarrow> (\<exists>k. mr_backoff_ms r = backoff_after k) \<and> list_all (\<lambda>d. \<exists>k. d = backoff_after k) (mr_delays r)
     \<and> list_all (\<lambda>ts. ts \<noteq> []) (mr_subscriptions r)"

lemma backoff_start: "backoff_initial_ms = backoff_after 0"
  by (simp add: backoff_after_def)

lemma backoff_next: "next_backoff (backoff_after k) = backoff_after (Suc k)"
  by (simp add: backoff_after_def)

lemma market_turn_ok: "market_run_ok r \<Longrightarrow> market_run_ok (market_step L json_parse t r)"
  by (cases t) (auto simp: market_step_def market_run_ok_def backoff_next split: option.splits intro: backoff_start)

lemma market_run_all_ok: "market_run_ok (run_market_ws L json_parse ts)"
  unfolding run_market_ws_def
proof (rule foldl_invariant)
  show "market_run_ok market_run_new" by (auto simp: market_run_ok_def market_run_new_def intro: backoff_start)
qed (rule market_turn_ok)

lemma market_turn_stops:
  "mr_stopped (market_step L json_parse t r) \<longleftrightarrow> mr_stopped r \<or> t = TurnShutdown \<or> (t = TurnWait None \<and> mr_tokens r = [])"
  by (cases t) (auto simp: market_step_def split: option.splits)

lemma market_run_stops:
  "mr_stopped (foldl (\<lambda>r t. market_step L json_parse t r) r ts) \<Longrightarrow> mr_stopped r \<or> TurnShutdown \<in> set ts \<or> TurnWait None \<in> set ts"
  by (induction ts arbitrary: r) (fastforce simp: market_turn_stops)+

text \<open>
  The market feed stays up. Whatever sessions fail and whenever the tokens change, the loop
  never subscribes without tokens, every delay between sessions is one second doubled some number
  of times and at most thirty, and the loop ends only on shutdown or when the rotation manager
  is gone before the first market.
\<close>

theorem market_feed_stays_up:
  "list_all (\<lambda>ts. ts \<noteq> []) (mr_subscriptions (run_market_ws L json_parse ts))
    \<and> list_all (\<lambda>d. (\<exists>k. unat d = min (1000 * 2 ^ k) 30000)) (mr_delays (run_market_ws L json_parse ts))
    \<and> (TurnShutdown \<in> set ts \<or> TurnWait None \<in> set ts \<or> \<not> mr_stopped (run_market_ws L json_parse ts))"
proof -
  have "list_all (\<lambda>d. (\<exists>k. unat d = min (1000 * 2 ^ k) 30000)) (mr_delays (run_market_ws L json_parse ts))"
    using market_run_all_ok [of L json_parse ts] unfolding market_run_ok_def by (auto elim!: list.pred_mono_strong simp: backoff_bound)
  then show ?thesis using market_run_all_ok [of L json_parse ts] market_run_stops [of L json_parse market_run_new ts]
    by (auto simp: market_run_ok_def run_market_ws_def market_run_new_def)
qed

lemma market_feed_stays_up_witness:
  "let s = \<lparr> ws_connects = False, ws_free_up = 0, ws_subscribed = False, ws_inputs = [], ws_free_down = 1 \<rparr>;
     r = run_market_ws exact_lib (\<lambda>_. None) [TurnWait (Some [''y'', ''n'']), TurnEnds s, TurnEnds s, TurnTokens s [''y2'', ''n2''], TurnEnds s]
   in mr_subscriptions r = [[''y'', ''n''], [''y'', ''n''], [''y'', ''n''], [''y2'', ''n2'']]
     \<and> map unat (mr_delays r) = [1000, 2000, 1000] \<and> \<not> mr_stopped r"
proof -
  let ?s = "\<lparr> ws_connects = False, ws_free_up = 0, ws_subscribed = False, ws_inputs = [], ws_free_down = 1 \<rparr>"
  let ?ts = "[TurnWait (Some [''y'', ''n'']), TurnEnds ?s, TurnEnds ?s, TurnTokens ?s [''y2'', ''n2''], TurnEnds ?s]"
  have "\<not> mr_stopped (run_market_ws exact_lib (\<lambda>_. None) ?ts)" using market_feed_stays_up [of exact_lib "\<lambda>_. None" ?ts] by simp
  then show ?thesis
    by (simp add: run_market_ws_def market_step_def market_run_new_def next_backoff_def backoff_initial_ms_def backoff_max_ms_def Let_def)
qed

section \<open>The futures feed\<close>

text \<open>The time an event of the feed carries.\<close>

fun futures_time :: "ingestor_event \<Rightarrow> u64 option" where
  "futures_time (EvFuturesAggTrade t) = Some (fat_timestamp_ms t)"
| "futures_time (EvFuturesBookTicker t) = Some (fbt_timestamp_ms t)"
| "futures_time (EvFuturesForceOrder t) = Some (ffo_timestamp_ms t)"
| "futures_time ev = None"

text \<open>
  The futures feed forwards at most one event per message, it is one of the three kinds, and
  it is not older than the threshold at the time the message is handled.
\<close>

theorem futures_event_fresh:
  "case handle_json_message L json_parse thr now payload of
     [] \<Rightarrow> True
   | [ev] \<Rightarrow> (case futures_time ev of None \<Rightarrow> False | Some t \<Rightarrow> unat now \<le> unat t + unat thr)
   | _ \<Rightarrow> False"
  by (auto simp: handle_json_message_def agg_trade_event_def book_ticker_event_def force_order_event_def is_stale_iff
      split: option.splits prod.splits)

lemma futures_delays:
  "list_all (\<lambda>d. \<exists>k. d = backoff_after k) (snd (futures_run_from L json_parse thr (backoff_after k) ss))"
proof (induction ss arbitrary: k)
  case (Cons s ss)
  show ?case using Cons [of "Suc k"] Cons [of "Suc 0"]
    by (auto simp: Let_def split_beta backoff_start backoff_next)
qed simp

end
