(* ===== verification/Rotation.thy ===== *)
theory Rotation
  imports MarketFeed
begin

text \<open>
  Market discovery and rotation, \<open>src/src/gateway/polymarket/rotation.rs\<close>: the date parser, the
  choice of the next market in a response of the Gamma API, the REST lookups, and the rotation
  manager with its expiry timer and its housekeeping tick. The HTTP client, the JSON parser and
  the derived deserializers are parameters: a response is None when the request or the parser
  fails.
\<close>

section \<open>Dates\<close>

definition parse_field :: "nat \<Rightarrow> nat \<Rightarrow> string \<Rightarrow> string \<Rightarrow> u64 outcome" where
  "parse_field a b ctx s = obind (str_slice a b s) (\<lambda>t. oget (parse_u64 t) ctx)"

definition strip_zone :: "string \<Rightarrow> string outcome" where
  "strip_zone s0 =
     (let s = rev (dropWhile (\<lambda>c. c = CHR ''Z'') (rev s0)) in
      case rfind (CHR ''+'') s of
        Some pos \<Rightarrow> str_slice 0 pos s
      | None \<Rightarrow>
          if 19 < length s then obind (str_slice 19 (length s) s) (\<lambda>z. if z = ''-00:00'' then str_slice 0 19 s else Good s)
          else Good s)"

definition month_lengths :: "u64 list" where
  "month_lengths = [0, 31, 28, 31, 30, 31, 30, 31, 31, 30, 31, 30]"

text \<open>All arithmetic is on \<open>u64\<close> and wraps.\<close>

definition epoch_ms_of :: "u64 \<Rightarrow> u64 \<Rightarrow> u64 \<Rightarrow> u64 \<Rightarrow> u64 \<Rightarrow> u64 \<Rightarrow> u64" where
  "epoch_ms_of year month day hour minute sec =
     (let leap_years_since_1970 = (let y = year - 1 in
            (y div 4 - y div 100 + y div 400) - (1969 div 4 - 1969 div 100 + 1969 div 400));
          days_in_years = (year - 1970) * 365 + leap_years_since_1970;
          is_leap = ((year mod 4 = 0 \<and> year mod 100 \<noteq> 0) \<or> year mod 400 = 0);
          days_in_months = sum_list (take (unat month) month_lengths) + (if is_leap \<and> 2 < month then 1 else 0);
          total_days = days_in_years + days_in_months + (day - 1);
          epoch_secs = total_days * 86400 + hour * 3600 + minute * 60 + sec
      in epoch_secs * 1000)"

definition parse_iso8601_to_epoch_ms :: "string \<Rightarrow> u64 outcome" where
  "parse_iso8601_to_epoch_ms s0 =
     obind (strip_zone s0) (\<lambda>s.
     if length s < 19 then Err ''ISO 8601 string too short'' else
     obind (parse_field 0 4 ''ISO 8601 year'' s) (\<lambda>year.
     obind (parse_field 5 7 ''ISO 8601 month'' s) (\<lambda>month.
     obind (parse_field 8 10 ''ISO 8601 day'' s) (\<lambda>day.
     obind (parse_field 11 13 ''ISO 8601 hour'' s) (\<lambda>hour.
     obind (parse_field 14 16 ''ISO 8601 minute'' s) (\<lambda>minute.
     obind (parse_field 17 19 ''ISO 8601 second'' s) (\<lambda>sec.
     Good (epoch_ms_of year month day hour minute sec))))))))"

section \<open>Discovery\<close>

record market_info =
  mi_condition_id :: string
  mi_yes_token_id :: string
  mi_no_token_id :: string
  mi_end_timestamp_ms :: u64
  mi_tick_size :: dec

record gamma_event_market =
  gm_condition_id :: string
  gm_clob_token_ids :: string

record gamma_event =
  ge_slug :: string
  ge_end_date :: string
  ge_markets :: "gamma_event_market list"

definition target_slug_prefixes :: "string list" where
  "target_slug_prefixes = [''btc-updown-5m-'']"

text \<open>\<open>ids_parse\<close> reads the token ids, a JSON array inside a string.\<close>

definition consider_market :: "(string \<Rightarrow> string list option) \<Rightarrow> u64 \<Rightarrow> (u64 \<times> market_info) option \<Rightarrow> gamma_event_market
    \<Rightarrow> (u64 \<times> market_info) option" where
  "consider_market ids_parse end_ms best m =
     (if gm_condition_id m = [] then best
      else case ids_parse (gm_clob_token_ids m) of
          None \<Rightarrow> best
        | Some token_ids \<Rightarrow>
            if length token_ids < 2 then best
            else let info = \<lparr> mi_condition_id = gm_condition_id m, mi_yes_token_id = token_ids ! 0,
                       mi_no_token_id = token_ids ! 1, mi_end_timestamp_ms = end_ms, mi_tick_size = dnew 1 2 \<rparr>
              in (case best of
                    Some (best_end, old) \<Rightarrow> if best_end \<le> end_ms then best else Some (end_ms, info)
                  | None \<Rightarrow> Some (end_ms, info)))"

definition consider_event :: "(string \<Rightarrow> string list option) \<Rightarrow> u64 \<Rightarrow> gamma_event \<Rightarrow> (u64 \<times> market_info) option
    \<Rightarrow> (u64 \<times> market_info) option outcome" where
  "consider_event ids_parse skip_before_ms event best =
     (if \<not> list_ex (\<lambda>prefix. starts_with (ge_slug event) prefix) target_slug_prefixes then Good best
      else if ge_end_date event = [] then Good best
      else obind (case parse_iso8601_to_epoch_ms (ge_end_date event) of Err e \<Rightarrow> Good 0 | r \<Rightarrow> r) (\<lambda>end_ms.
        if end_ms \<le> skip_before_ms then Good best
        else Good (foldl (consider_market ids_parse end_ms) best (ge_markets event))))"

definition parse_gamma_events_response_after :: "(string \<Rightarrow> string list option) \<Rightarrow> gamma_event list option \<Rightarrow> u64
    \<Rightarrow> market_info outcome" where
  "parse_gamma_events_response_after ids_parse body skip_before_ms =
     obind (oget body ''Gamma API events parse error'') (\<lambda>events.
     obind (orun (consider_event ids_parse skip_before_ms) events None) (\<lambda>best.
     oget (map_option snd best) ''no valid upcoming BTC 5-min market found''))"

section \<open>REST lookups\<close>

text \<open>The body is None when the request or the JSON parser fails.\<close>

definition fetch_tick_size :: "'a lib_scheme \<Rightarrow> json option \<Rightarrow> dec" where
  "fetch_tick_size L body = (case body of
      None \<Rightarrow> dnew 1 2
    | Some parsed \<Rightarrow>
        (case Option.bind (jget ''minimum_tick_size'' parsed) (\<lambda>v. or_else (as_str v) (map_option (f_show L) (as_f64 v))) of
           Some s \<Rightarrow> unwrap_or (d_parse L s) (dnew 1 2)
         | None \<Rightarrow> dnew 1 2))"

definition fetch_order_book :: "'a lib_scheme \<Rightarrow> u64 \<Rightarrow> string \<Rightarrow> json option \<Rightarrow> order_book outcome" where
  "fetch_order_book L now token_id body =
     obind (oget body ''CLOB book JSON parse error'') (\<lambda>value.
     obind (parse_price_levels L (jget ''bids'' value)) (\<lambda>bids.
     obind (parse_price_levels L (jget ''asks'' value)) (\<lambda>asks.
     Good \<lparr> ob_asset_id = unwrap_or (get_str ''asset_id'' value) token_id, ob_bids = sort_bids bids,
       ob_asks = sort_asks asks, ob_timestamp_ms = parse_timestamp_field now value ''timestamp'' \<rparr>)))"

section \<open>The rotation manager\<close>

text \<open>
  What one turn of the loop reads: the shutdown flag, the clock at each reading, the responses of
  the API, whether the engine is still there, the free slots of its channel.
\<close>

record rotation_io =
  ri_shutdown :: bool
  ri_now :: u64
  ri_now_poll :: u64
  ri_now_arm :: u64
  ri_now_book :: u64
  ri_gamma :: "gamma_event list option"
  ri_tick :: "string \<Rightarrow> json option"
  ri_book :: "string \<Rightarrow> json option"
  ri_connected :: bool
  ri_free :: nat

text \<open>The expiry timer is the delay it was last armed with, None when it is parked.\<close>

record rotation =
  rn_last_emitted :: "string option"
  rn_current :: "market_info option"
  rn_next :: "market_info option"
  rn_books :: "order_book list"
  rn_attempted :: bool
  rn_failures :: u32
  rn_expiry :: "u64 option"
  rn_events :: "ingestor_event list"
  rn_tokens :: "string list list"
  rn_stopped :: bool

definition rotation_new :: rotation where
  "rotation_new = \<lparr> rn_last_emitted = None, rn_current = None, rn_next = None, rn_books = [], rn_attempted = False,
     rn_failures = 0, rn_expiry = None, rn_events = [], rn_tokens = [], rn_stopped = False \<rparr>"

definition expiry_instant :: "rotation_io \<Rightarrow> u64 \<Rightarrow> u64" where
  "expiry_instant i end_timestamp_ms = saturating_sub end_timestamp_ms (ri_now_arm i)"

definition emit_rotation_events :: "rotation_io \<Rightarrow> market_info \<Rightarrow> order_book list \<Rightarrow> rotation \<Rightarrow> rotation" where
  "emit_rotation_events i info books r =
     r\<lparr> rn_events := rn_events r
          @ (if ri_connected i then EvMarketRotation (mi_condition_id info) (mi_yes_token_id info) (mi_no_token_id info)
               (mi_end_timestamp_ms info) (mi_tick_size info) # take (ri_free i) (map EvBook books) else []),
        rn_tokens := rn_tokens r @ [[mi_yes_token_id info, mi_no_token_id info]],
        rn_last_emitted := Some (mi_condition_id info) \<rparr>"

text \<open>The books that can be fetched, the YES token's first.\<close>

definition fetch_books :: "'a lib_scheme \<Rightarrow> rotation_io \<Rightarrow> market_info \<Rightarrow> order_book list" where
  "fetch_books L i info = concat (map (\<lambda>t. case fetch_order_book L (ri_now_book i) t (ri_book i t) of Good b \<Rightarrow> [b] | _ \<Rightarrow> [])
     [mi_yes_token_id info, mi_no_token_id info])"

definition on_expiry :: "rotation_io \<Rightarrow> rotation \<Rightarrow> rotation" where
  "on_expiry i r =
     (if ri_shutdown i then r\<lparr> rn_stopped := True \<rparr>
      else let r1 = (case rn_next r of
             Some next_market \<Rightarrow> (emit_rotation_events i next_market (rn_books r) r)
               \<lparr> rn_next := None, rn_expiry := Some (expiry_instant i (mi_end_timestamp_ms next_market)),
                  rn_current := Some next_market \<rparr>
           | None \<Rightarrow> r\<lparr> rn_current := None, rn_expiry := None \<rparr>)
        in r1\<lparr> rn_books := [], rn_attempted := False \<rparr>)"

text \<open>Discovery of the market after the current one, in its last \<open>prewarm_lead_ms\<close>.\<close>

definition prewarm :: "'a lib_scheme \<Rightarrow> (string \<Rightarrow> string list option) \<Rightarrow> u64 \<Rightarrow> rotation_io \<Rightarrow> rotation \<Rightarrow> rotation outcome" where
  "prewarm L ids_parse prewarm_lead_ms i r = (case rn_current r of
      None \<Rightarrow> Good r
    | Some market \<Rightarrow>
        let remaining_ms = saturating_sub (mi_end_timestamp_ms market) (ri_now i) in
        if 0 < remaining_ms \<and> remaining_ms \<le> prewarm_lead_ms \<and> \<not> rn_attempted r then
          (case parse_gamma_events_response_after ids_parse (ri_gamma i) (mi_end_timestamp_ms market) of
             Good found \<Rightarrow>
               (let info = found\<lparr> mi_tick_size := fetch_tick_size L (ri_tick i (mi_yes_token_id found)) \<rparr>
                in Good (r\<lparr> rn_books := fetch_books L i info, rn_next := Some info, rn_attempted := True \<rparr>))
           | Err e \<Rightarrow> Good r
           | Panic \<Rightarrow> Panic)
        else Good r)"

definition poll_gamma_and_emit :: "'a lib_scheme \<Rightarrow> (string \<Rightarrow> string list option) \<Rightarrow> rotation_io \<Rightarrow> rotation \<Rightarrow> rotation outcome" where
  "poll_gamma_and_emit L ids_parse i r =
     (case parse_gamma_events_response_after ids_parse (ri_gamma i) (ri_now i) of
        Good found \<Rightarrow>
          (let remaining_ms = saturating_sub (mi_end_timestamp_ms found) (ri_now_poll i);
               info = found\<lparr> mi_tick_size := fetch_tick_size L (ri_tick i (mi_yes_token_id found)) \<rparr>;
               already_emitted = (rn_last_emitted r = Some (mi_condition_id info));
               r1 = (if \<not> already_emitted \<and> 0 < remaining_ms
                     then emit_rotation_events i info (fetch_books L i info) r else r)
           in Good (r1\<lparr> rn_current := Some info \<rparr>))
      | Err e \<Rightarrow> Good r
      | Panic \<Rightarrow> Panic)"

definition on_check :: "'a lib_scheme \<Rightarrow> (string \<Rightarrow> string list option) \<Rightarrow> u64 \<Rightarrow> rotation_io \<Rightarrow> rotation \<Rightarrow> rotation outcome" where
  "on_check L ids_parse prewarm_lead_ms i r =
     (if ri_shutdown i then Good (r\<lparr> rn_stopped := True \<rparr>)
      else obind (prewarm L ids_parse prewarm_lead_ms i r) (\<lambda>r1.
        if rn_current r1 \<noteq> None then Good r1
        else obind (poll_gamma_and_emit L ids_parse i r1) (\<lambda>r2.
          Good (case rn_current r2 of
             Some market \<Rightarrow> r2\<lparr> rn_failures := 0, rn_expiry := Some (expiry_instant i (mi_end_timestamp_ms market)) \<rparr>
           | None \<Rightarrow> r2\<lparr> rn_failures := rn_failures r2 + 1 \<rparr>))))"

datatype rotation_turn = ExpiryFires rotation_io | CheckTicks rotation_io

definition rotation_step :: "'a lib_scheme \<Rightarrow> (string \<Rightarrow> string list option) \<Rightarrow> u64 \<Rightarrow> rotation_turn \<Rightarrow> rotation \<Rightarrow> rotation outcome" where
  "rotation_step L ids_parse lead t r =
     (if rn_stopped r then Good r
      else case t of
          ExpiryFires i \<Rightarrow> if rn_expiry r = None then Good r else Good (on_expiry i r)
        | CheckTicks i \<Rightarrow> on_check L ids_parse lead i r)"

definition run_market_rotation :: "'a lib_scheme \<Rightarrow> (string \<Rightarrow> string list option) \<Rightarrow> u64 \<Rightarrow> rotation_turn list \<Rightarrow> rotation outcome" where
  "run_market_rotation L ids_parse lead ts = orun (rotation_step L ids_parse lead) ts rotation_new"

end
