(* ===== verification/RotationProps.thy ===== *)
theory RotationProps
  imports Rotation
begin

text \<open>
  Properties of market discovery: the date parser against the Gregorian calendar, the choice of
  the soonest market, and the invariants of the rotation manager.
\<close>

section \<open>The calendar\<close>

definition leap :: "nat \<Rightarrow> bool" where
  "leap y \<longleftrightarrow> (y mod 4 = 0 \<and> y mod 100 \<noteq> 0) \<or> y mod 400 = 0"

definition days_in_month :: "nat \<Rightarrow> nat \<Rightarrow> nat" where
  "days_in_month y m = (if m = 2 then (if leap y then 29 else 28) else if m \<in> {4, 6, 9, 11} then 30 else 31)"

fun next_day :: "nat \<times> nat \<times> nat \<Rightarrow> nat \<times> nat \<times> nat" where
  "next_day (y, m, d) = (if d < days_in_month y m then (y, m, d + 1) else if m < 12 then (y, m + 1, 1) else (y + 1, 1, 1))"

text \<open>The date \<open>n\<close> days after the first of January 1970.\<close>

definition date_after :: "nat \<Rightarrow> nat \<times> nat \<times> nat" where
  "date_after n = (next_day ^^ n) (1970, 1, 1)"

definition month_offset :: "nat \<Rightarrow> nat" where
  "month_offset m = sum_list (take m [0, 31, 28, 31, 30, 31, 30, 31, 31, 30, 31, 30])"

definition leaps_before :: "nat \<Rightarrow> nat" where
  "leaps_before y = (y - 1) div 4 - (y - 1) div 100 + (y - 1) div 400"

fun day_number :: "nat \<times> nat \<times> nat \<Rightarrow> nat" where
  "day_number (y, m, d) = (y - 1970) * 365 + (leaps_before y - 477) + (month_offset m + (if leap y \<and> 2 < m then 1 else 0)) + (d - 1)"

fun valid_date :: "nat \<times> nat \<times> nat \<Rightarrow> bool" where
  "valid_date (y, m, d) \<longleftrightarrow> 1970 \<le> y \<and> 1 \<le> m \<and> m \<le> 12 \<and> 1 \<le> d \<and> d \<le> days_in_month y m"

lemma leap_count:
  fixes a b c :: nat
  assumes "b \<le> a" and "c100 \<Longrightarrow> c4" and "c400 \<Longrightarrow> c100"
  shows "(if c4 then Suc a else a) - (if c100 then Suc b else b) + (if c400 then Suc c else c)
    = a - b + c + (if (c4 \<and> \<not> c100) \<or> c400 then 1 else 0)"
  using assms by auto

lemma leaps_step: "1970 \<le> y \<Longrightarrow> leaps_before (y + 1) = leaps_before y + (if leap y then 1 else 0)"
proof -
  assume "1970 \<le> y"
  then obtain z where y: "y = Suc z" by (cases y) auto
  have c: "Suc z mod 100 = 0 \<Longrightarrow> Suc z mod 4 = 0" "Suc z mod 400 = 0 \<Longrightarrow> Suc z mod 100 = 0"
    using dvd_trans [of 4 100 "Suc z"] dvd_trans [of 100 400 "Suc z"] by (simp_all add: dvd_eq_mod_eq_0)
  have "z div 100 \<le> z div 4" by (simp add: div_le_mono2)
  from leap_count [OF this c, where c = "z div 400"] show ?thesis
    by (simp only: leaps_before_def leap_def y div_Suc add_diff_cancel_right' Suc_eq_plus1 [symmetric] diff_Suc_1)
qed

lemma leaps_1970: "1970 \<le> y \<Longrightarrow> 477 \<le> leaps_before y"
proof (induction y rule: nat_induct_at_least)
  case base
  show ?case by (simp add: leaps_before_def)
next
  case (Suc y)
  then show ?case using leaps_step [of y] by simp
qed

lemma month_cases: "1 \<le> m \<Longrightarrow> m \<le> 12 \<Longrightarrow> m \<in> {1, 2, 3, 4, 5, 6, 7, 8, 9, 10, 11, 12 :: nat}"
  unfolding insert_iff empty_iff by presburger

lemma month_step:
  "1 \<le> m \<Longrightarrow> m < 12 \<Longrightarrow> month_offset (m + 1) + (if leap y \<and> 2 < m + 1 then 1 else 0)
     = month_offset m + (if leap y \<and> 2 < m then 1 else 0) + days_in_month y m"
  using month_cases [of m] by (auto simp: month_offset_def days_in_month_def)

lemma next_day_valid: "valid_date x \<Longrightarrow> valid_date (next_day x)"
  by (cases x) (auto simp: days_in_month_def)

lemma next_day_number: "valid_date x \<Longrightarrow> day_number (next_day x) = day_number x + 1"
proof -
  assume v: "valid_date x"
  obtain y m d where x: "x = (y, m, d)" by (cases x)
  have v: "1970 \<le> y" "1 \<le> m" "m \<le> 12" "1 \<le> d" "d \<le> days_in_month y m" using v by (simp_all add: x)
  consider "d < days_in_month y m" | "d = days_in_month y m" "m < 12" | "d = days_in_month y m" "m = 12" using v by linarith
  then show ?thesis
  proof cases
    case 1
    with v show ?thesis by (simp add: x)
  next
    case 2
    with v month_step [OF v(2) 2(2), of y] show ?thesis by (simp add: x)
  next
    case 3
    have "Suc y - 1970 = (y - 1970) + 1" using v(1) by simp
    with 3 v(1) leaps_step [OF v(1)] leaps_1970 [OF v(1)]
    show ?thesis by (simp add: x month_offset_def days_in_month_def algebra_simps)
  qed
qed

lemma date_after_number: "valid_date (date_after n) \<and> day_number (date_after n) = n"
proof (induction n)
  case 0
  show ?case by (simp add: date_after_def days_in_month_def leaps_before_def month_offset_def)
next
  case (Suc n)
  have "date_after (Suc n) = next_day (date_after n)" by (simp add: date_after_def)
  with Suc next_day_valid next_day_number show ?case by auto
qed

section \<open>The arithmetic on words\<close>

lemma word_div: "a < 2 ^ 64 \<Longrightarrow> b < 2 ^ 64 \<Longrightarrow> (of_nat a :: u64) div of_nat b = of_nat (a div b)"
  by (simp add: word_unat_eq_iff unat_div_distrib unsigned_of_nat take_bit_nat_eq_self order_le_less_trans [OF div_le_dividend])

lemma word_mod: "a < 2 ^ 64 \<Longrightarrow> b < 2 ^ 64 \<Longrightarrow> (of_nat a :: u64) mod of_nat b = of_nat (a mod b)"
  by (simp add: word_unat_eq_iff unat_mod_distrib unsigned_of_nat take_bit_nat_eq_self order_le_less_trans [OF mod_less_eq_dividend])

lemma word_eq_0: "a < 2 ^ 64 \<Longrightarrow> (of_nat a :: u64) = 0 \<longleftrightarrow> a = 0"
  by (simp add: word_unat_eq_iff unsigned_of_nat take_bit_nat_eq_self)

lemma word_leaps:
  "b \<le> a \<Longrightarrow> 477 \<le> a - b + c \<Longrightarrow> (of_nat a :: u64) - of_nat b + of_nat c - 477 = of_nat (a - b + c - 477)"
  by (simp only: of_nat_diff of_nat_add of_nat_numeral)

lemma epoch_ms_of_nat:
  assumes "valid_date (y, m, d)" and "y < 10000"
  shows "epoch_ms_of (of_nat y) (of_nat m) (of_nat d) (of_nat h) (of_nat mi) (of_nat s)
    = of_nat ((day_number (y, m, d) * 86400 + h * 3600 + mi * 60 + s) * 1000)"
proof -
  from assms(1) have v: "1970 \<le> y" "1 \<le> m" "m \<le> 12" "1 \<le> d" by simp_all
  have y1: "(of_nat y :: u64) - 1 = of_nat (y - 1)" "(of_nat d :: u64) - 1 = of_nat (d - 1)"
    "(of_nat y :: u64) - 1970 = of_nat (y - 1970)" using v by (simp_all add: of_nat_diff)
  have q: "(of_nat (y - 1) :: u64) div 4 = of_nat ((y - 1) div 4)" "(of_nat (y - 1) :: u64) div 100 = of_nat ((y - 1) div 100)"
    "(of_nat (y - 1) :: u64) div 400 = of_nat ((y - 1) div 400)"
    using word_div [of "y - 1" 4] word_div [of "y - 1" 100] word_div [of "y - 1" 400] assms(2) by simp_all
  have "(y - 1) div 100 \<le> (y - 1) div 4" by (simp add: div_le_mono2)
  then have lp: "(of_nat ((y - 1) div 4) :: u64) - of_nat ((y - 1) div 100) + of_nat ((y - 1) div 400)
      - (1969 div 4 - 1969 div 100 + 1969 div 400) = of_nat (leaps_before y - 477)"
    using word_leaps [of "(y - 1) div 100" "(y - 1) div 4" "(y - 1) div 400"] leaps_1970 [OF v(1)]
    by (simp add: leaps_before_def)
  have md: "(of_nat y :: u64) mod 4 = 0 \<longleftrightarrow> y mod 4 = 0" "(of_nat y :: u64) mod 100 = 0 \<longleftrightarrow> y mod 100 = 0"
    "(of_nat y :: u64) mod 400 = 0 \<longleftrightarrow> y mod 400 = 0"
    using word_mod [of y 4] word_mod [of y 100] word_mod [of y 400] assms(2)
      word_eq_0 [of "y mod 4"] word_eq_0 [of "y mod 100"] word_eq_0 [of "y mod 400"]
    by (simp_all add: order_le_less_trans [OF mod_less_eq_dividend])
  have m64: "unat (of_nat m :: u64) = m" using v(3) by (simp add: unsigned_of_nat take_bit_nat_eq_self)
  have m2: "(2 :: u64) < of_nat m \<longleftrightarrow> 2 < m" using m64 by (simp add: word_less_nat_alt)
  have mo: "sum_list (take m month_lengths) = (of_nat (month_offset m) :: u64)"
    using month_cases [OF v(2,3)] by (auto simp: month_offset_def month_lengths_def)
  define Y P D where "Y = y - 1970" and "P = leaps_before y - 477" and "D = d - 1"
  have n: "day_number (y, m, d) = Y * 365 + P + (month_offset m + (if leap y \<and> 2 < m then 1 else 0)) + D"
    by (simp add: Y_def P_def D_def)
  show ?thesis
    unfolding n epoch_ms_of_def Let_def y1 q lp md m64 m2 mo leap_def [symmetric] Y_def [symmetric] P_def [symmetric] D_def [symmetric]
    by (simp add: algebra_simps)
qed

section \<open>The text of a date\<close>

definition dig :: "nat \<Rightarrow> char" where
  "dig k = char_of (48 + k mod 10)"

definition d2 :: "nat \<Rightarrow> string" where
  "d2 k = [dig (k div 10), dig k]"

definition d4 :: "nat \<Rightarrow> string" where
  "d4 k = [dig (k div 1000), dig (k div 100), dig (k div 10), dig k]"

text \<open>\<open>YYYY-MM-DDTHH:MM:SS\<close>\<close>

definition iso_text :: "nat \<times> nat \<times> nat \<Rightarrow> nat \<Rightarrow> nat \<Rightarrow> nat \<Rightarrow> string" where
  "iso_text x h mi s = (case x of (y, m, d) \<Rightarrow>
     d4 y @ ''-'' @ d2 m @ ''-'' @ d2 d @ ''T'' @ d2 h @ '':'' @ d2 mi @ '':'' @ d2 s)"

lemma of_char_dig [simp]: "(of_char (dig k) :: nat) = 48 + k mod 10" "(of_char (dig k) :: int) = 48 + int (k mod 10)"
proof -
  have "48 + k mod 10 < 256" by (simp add: order_le_less_trans [of _ 9] less_Suc_eq_le)
  then show "(of_char (dig k) :: nat) = 48 + k mod 10" by (simp add: dig_def of_char_of)
  then have "int (of_char (dig k)) = int (48 + k mod 10)" by simp
  then show "(of_char (dig k) :: int) = 48 + int (k mod 10)" unfolding of_nat_of_char by simp
qed

lemma dig_neq_char: "57 < (of_char c :: nat) \<or> (of_char c :: nat) < 48 \<Longrightarrow> dig k \<noteq> c"
proof
  assume c: "57 < (of_char c :: nat) \<or> (of_char c :: nat) < 48" and "dig k = c"
  then have "(of_char c :: nat) = 48 + k mod 10" using of_char_dig(1) [of k] by simp
  moreover have "k mod 10 \<le> 9" by simp
  ultimately show False using c by linarith
qed

lemma dig_neq [simp]: "dig k \<noteq> CHR ''Z''" "dig k \<noteq> CHR ''+''" "dig k \<noteq> CHR ''-''"
  by (rule dig_neq_char; simp)+

lemma dig_digit [simp]: "is_digit (dig k)" "digit_val (dig k) = int (k mod 10)"
  by (simp_all add: is_digit_def digit_val_def less_eq_char_def)

lemma dig_boundary [simp]: "\<not> 128 \<le> (of_char (dig k) :: nat)"
proof -
  have "k mod 10 \<le> 9" by simp
  then show ?thesis unfolding of_char_dig by linarith
qed

lemma parse_d2: "k < 100 \<Longrightarrow> parse_u64 (d2 k) = Some (of_nat k)"
proof -
  assume "k < 100"
  have "10 * int (k div 10) + int (k mod 10) = int k" by (metis mult_div_mod_eq of_nat_add of_nat_mult of_nat_numeral)
  then show ?thesis using \<open>k < 100\<close> by (simp add: parse_u64_def parse_below_def d2_def digits_val_def Let_def)
qed

lemma horner:
  "k = 10 * a + x \<Longrightarrow> a = 10 * b + y \<Longrightarrow> b = 10 * c + z \<Longrightarrow>
     10 * (10 * (10 * int c + int z) + int y) + int x = int k"
  by simp

lemma parse_d4: "k < 10000 \<Longrightarrow> parse_u64 (d4 k) = Some (of_nat k)"
proof -
  assume k: "k < 10000"
  have d: "k div 100 = k div 10 div 10" "k div 1000 = k div 10 div 10 div 10" by (simp_all add: div_mult2_eq [symmetric])
  have "k div 1000 < 10" using k by (simp add: div_less_iff_less_mult)
  then have m: "k div 10 div 10 div 10 mod 10 = k div 10 div 10 div 10" by (simp add: d)
  have h: "10 * (10 * (10 * int (k div 1000 mod 10) + int (k div 100 mod 10)) + int (k div 10 mod 10)) + int (k mod 10) = int k"
    unfolding d m by (rule horner [of k "k div 10" _ "k div 10 div 10" _ "k div 10 div 10 div 10"]) (simp_all only: mult_div_mod_eq)
  have "digits_val (d4 k) = int k"
    unfolding h [symmetric] by (simp add: d4_def digits_val_def del: of_nat_mod of_nat_div)
  moreover have "list_all is_digit (d4 k)" "d4 k = dig (k div 1000) # tl (d4 k)" by (simp_all add: d4_def)
  ultimately show ?thesis using k dig_neq(2) [of "k div 1000", THEN not_sym]
    by (auto simp: parse_u64_def parse_below_def Let_def split: list.splits)
qed

section \<open>The parser is right\<close>

lemma slice_iso:
  assumes "s = iso_text (y, m, d) h mi sec"
  shows "length s = 19" "str_slice 0 4 s = Good (d4 y)" "str_slice 5 7 s = Good (d2 m)" "str_slice 8 10 s = Good (d2 d)"
    "str_slice 11 13 s = Good (d2 h)" "str_slice 14 16 s = Good (d2 mi)" "str_slice 17 19 s = Good (d2 sec)"
  unfolding assms by (simp_all add: iso_text_def d2_def d4_def str_slice_def is_boundary_def)

lemma strip_zone_iso:
  "strip_zone (iso_text (y, m, d) h mi s @ ''Z'') = Good (iso_text (y, m, d) h mi s)"
  "strip_zone (iso_text (y, m, d) h mi s @ ''+00:00'') = Good (iso_text (y, m, d) h mi s)"
  by (simp_all add: strip_zone_def iso_text_def d2_def d4_def rfind_def str_slice_def is_boundary_def Let_def)

text \<open>
  C23. The date parser agrees with the calendar. Count \<open>n\<close> days from the first of January 1970,
  month by month and leap year by leap year; as long as the year has four digits, the text of the
  date reached and of any time of day, in either of the two forms of UTC, is parsed to exactly
  the milliseconds since the epoch.
\<close>

theorem iso_date_correct:
  assumes "fst (date_after n) < 10000" and "h < 24" and "mi < 60" and "s < 60" and "zone \<in> {''Z'', ''+00:00''}"
  shows "parse_iso8601_to_epoch_ms (iso_text (date_after n) h mi s @ zone)
    = Good (of_nat ((n * 86400 + h * 3600 + mi * 60 + s) * 1000))"
proof -
  obtain y m d where x: "date_after n = (y, m, d)" by (cases "date_after n")
  have v: "valid_date (y, m, d)" "day_number (y, m, d) = n" "y < 10000" using date_after_number [of n] assms(1) x by simp_all
  have b: "m < 100" "d < 100" using v(1) by (auto simp: days_in_month_def split: if_splits)
  have z: "strip_zone (iso_text (y, m, d) h mi s @ zone) = Good (iso_text (y, m, d) h mi s)"
    using assms(5) strip_zone_iso by auto
  note l = slice_iso [of "iso_text (y, m, d) h mi s", OF refl]
  show ?thesis using assms(2-4) b v(3)
    by (simp add: x parse_iso8601_to_epoch_ms_def z parse_field_def l parse_d2 parse_d4 epoch_ms_of_nat [OF v(1,3)] v(2) del: day_number.simps)
qed

lemma iso_date_correct_witness:
  "parse_iso8601_to_epoch_ms ''1970-02-01T12:30:00Z'' = Good ((31 * 86400 + 45000) * 1000)"
proof -
  have j: "date_after k = (1970, 1, Suc k)" if "k \<le> 30" for k
    using that by (induction k) (simp_all add: date_after_def days_in_month_def)
  have "date_after 31 = next_day (date_after 30)" by (simp add: date_after_def eval_nat_numeral)
  then have d: "date_after 31 = (1970, 2, 1)" using j [of 30] by (simp add: days_in_month_def)
  have t: "iso_text (1970, 2, 1) 12 30 0 @ ''Z'' = ''1970-02-01T12:30:00Z''"
    by code_simp
  from iso_date_correct [of 31 12 30 0 "''Z''", unfolded d t] show ?thesis by simp
qed


section \<open>Discovery\<close>

definition ascii :: "string \<Rightarrow> bool" where
  "ascii s = list_all (\<lambda>c. (of_char c :: nat) < 128) s"

lemma slice_ascii: "ascii s \<Longrightarrow> a \<le> b \<Longrightarrow> b \<le> length s \<Longrightarrow> str_slice a b s = Good (take (b - a) (drop a s))"
  by (auto simp: str_slice_def is_boundary_def ascii_def list_all_length not_le)

lemma strip_zone_ascii: "ascii s \<Longrightarrow> \<exists>t. strip_zone s = Good t \<and> ascii t"
proof -
  assume a: "ascii s"
  let ?t = "rev (dropWhile (\<lambda>c. c = CHR ''Z'') (rev s))"
  have t: "ascii ?t" using a by (auto simp: ascii_def list_all_iff dest: set_dropWhileD)
  show ?thesis
  proof (cases "rfind (CHR ''+'') ?t")
    case (Some pos)
    then have "pos \<le> length ?t" by (auto simp: rfind_def)
    with Some slice_ascii [OF t, of 0 pos] t show ?thesis
      by (auto simp: strip_zone_def Let_def ascii_def list_all_iff dest: in_set_takeD)
  next
    case None
    with slice_ascii [OF t] t show ?thesis
      by (cases "19 < length ?t") (auto simp: strip_zone_def Let_def ascii_def list_all_iff dest: in_set_takeD)
  qed
qed

lemma iso_total: "ascii s \<Longrightarrow> parse_iso8601_to_epoch_ms s \<noteq> Panic"
  using strip_zone_ascii [of s] slice_ascii
  by (auto simp: parse_iso8601_to_epoch_ms_def parse_field_def obind_eq_Panic)

text \<open>The markets of a response that qualify, in its order, with the time they end.\<close>

definition market_candidates :: "(string \<Rightarrow> string list option) \<Rightarrow> u64 \<Rightarrow> gamma_event_market \<Rightarrow> (u64 \<times> market_info) list" where
  "market_candidates ids_parse end_ms m = (case ids_parse (gm_clob_token_ids m) of
      Some (y # n # others) \<Rightarrow> if gm_condition_id m = [] then [] else [(end_ms, \<lparr> mi_condition_id = gm_condition_id m,
        mi_yes_token_id = y, mi_no_token_id = n, mi_end_timestamp_ms = end_ms, mi_tick_size = dnew 1 2 \<rparr>)]
    | _ \<Rightarrow> [])"

definition event_candidates :: "(string \<Rightarrow> string list option) \<Rightarrow> u64 \<Rightarrow> gamma_event \<Rightarrow> (u64 \<times> market_info) list" where
  "event_candidates ids_parse skip event = (case parse_iso8601_to_epoch_ms (ge_end_date event) of
      Good end_ms \<Rightarrow> if starts_with (ge_slug event) ''btc-updown-5m-'' \<and> ge_end_date event \<noteq> [] \<and> skip < end_ms
        then concat (map (market_candidates ids_parse end_ms) (ge_markets event)) else []
    | _ \<Rightarrow> [])"

definition pick :: "(u64 \<times> market_info) option \<Rightarrow> u64 \<times> market_info \<Rightarrow> (u64 \<times> market_info) option" where
  "pick best c = (case best of None \<Rightarrow> Some c | Some b \<Rightarrow> if fst b \<le> fst c then best else Some c)"

lemma consider_market_pick: "consider_market ids_parse t best m = foldl pick best (market_candidates ids_parse t m)"
proof (cases "ids_parse (gm_clob_token_ids m)")
  case None
  then show ?thesis by (simp add: consider_market_def market_candidates_def)
next
  case (Some ids)
  then show ?thesis
    by (cases ids; cases "tl ids") (auto simp: consider_market_def market_candidates_def pick_def Let_def split: option.splits)
qed

lemma consider_event_pick:
  assumes "ascii (ge_end_date event)"
  shows "consider_event ids_parse skip event best = Good (foldl pick best (event_candidates ids_parse skip event))"
proof -
  have f: "foldl (consider_market ids_parse t) best ms = foldl pick best (concat (map (market_candidates ids_parse t) ms))" for t best ms
    by (induction ms arbitrary: best) (simp_all add: consider_market_pick)
  show ?thesis using iso_total [OF assms]
    by (cases "parse_iso8601_to_epoch_ms (ge_end_date event)")
      (auto simp: consider_event_def event_candidates_def target_slug_prefixes_def f not_le)
qed

lemma consider_events_pick:
  "list_all (\<lambda>event. ascii (ge_end_date event)) events \<Longrightarrow>
     orun (consider_event ids_parse skip) events best = Good (foldl pick best (concat (map (event_candidates ids_parse skip) events)))"
  by (induction events arbitrary: best) (simp_all add: consider_event_pick)

lemma pick_min:
  "foldl pick (Some b) cs = Some r \<Longrightarrow> r \<in> set (b # cs) \<and> list_all (\<lambda>c. fst r \<le> fst c) (b # cs)"
proof (induction cs arbitrary: b)
  case (Cons c cs)
  define b' where "b' = (if fst b \<le> fst c then b else c)"
  have b': "b' \<in> {b, c}" "fst b' \<le> fst b" "fst b' \<le> fst c" by (auto simp: b'_def)
  have "pick (Some b) c = Some b'" by (simp add: pick_def b'_def)
  then have "foldl pick (Some b') cs = Some r" using Cons.prems by simp
  from Cons.IH [OF this] b' show ?case by auto
qed simp

lemma pick_some: "\<exists>r. foldl pick (Some b) cs = Some r"
  by (induction cs arbitrary: b) (auto simp: pick_def)

text \<open>
  C24. The market chosen is the soonest one. For a response whose dates are ASCII the search
  neither panics nor misses: it fails only if no market qualifies, and else returns one of those
  that qualify, ending after the cutoff and no later than any other.
\<close>

theorem soonest_market:
  assumes "list_all (\<lambda>event. ascii (ge_end_date event)) events"
  shows "case parse_gamma_events_response_after ids_parse (Some events) skip of
      Good info \<Rightarrow> (mi_end_timestamp_ms info, info) \<in> set (concat (map (event_candidates ids_parse skip) events))
        \<and> list_all (\<lambda>c. mi_end_timestamp_ms info \<le> fst c) (concat (map (event_candidates ids_parse skip) events))
        \<and> skip < mi_end_timestamp_ms info
    | Err e \<Rightarrow> concat (map (event_candidates ids_parse skip) events) = []
    | Panic \<Rightarrow> False"
proof -
  let ?cs = "concat (map (event_candidates ids_parse skip) events)"
  have e: "fst c = mi_end_timestamp_ms (snd c) \<and> skip < fst c" if "c \<in> set ?cs" for c
    using that by (auto simp: event_candidates_def market_candidates_def split: outcome.splits if_splits option.splits list.splits)
  show ?thesis
  proof (cases ?cs)
    case Nil
    have "orun (consider_event ids_parse skip) events None = Good None"
      using consider_events_pick [OF assms, of ids_parse skip None] unfolding Nil by simp
    then have "parse_gamma_events_response_after ids_parse (Some events) skip = Err ''no valid upcoming BTC 5-min market found''"
      by (simp add: parse_gamma_events_response_after_def)
    then show ?thesis unfolding Nil by simp
  next
    case (Cons c cs)
    obtain r where r: "foldl pick (Some c) cs = Some r" using pick_some by blast
    have "orun (consider_event ids_parse skip) events None = Good (Some r)"
      using consider_events_pick [OF assms, of ids_parse skip None] r by (simp add: Cons pick_def)
    then have g: "parse_gamma_events_response_after ids_parse (Some events) skip = Good (snd r)"
      by (simp add: parse_gamma_events_response_after_def)
    from pick_min [OF r] Cons have m: "r \<in> set ?cs" "list_all (\<lambda>c. fst r \<le> fst c) ?cs" by simp_all
    obtain t info where ri: "r = (t, info)" by (cases r)
    with e [OF m(1)] have "t = mi_end_timestamp_ms info" "skip < t" by auto
    with m g ri show ?thesis by (simp del: set_concat set_map)
  qed
qed

lemma soonest_market_witness:
  "let ev = (\<lambda>t. \<lparr> ge_slug = ''btc-updown-5m-1'', ge_end_date = t, ge_markets = [\<lparr> gm_condition_id = ''c'', gm_clob_token_ids = ''i'' \<rparr>] \<rparr>)
   in \<exists>info. parse_gamma_events_response_after (\<lambda>s. Some [''y'', ''n'']) (Some [ev ''1970-01-01T00:10:00Z'', ev ''1970-01-01T00:05:00Z'']) 0 = Good info
     \<and> mi_end_timestamp_ms info \<le> 300000"
proof -
  let ?ev = "\<lambda>t. \<lparr> ge_slug = ''btc-updown-5m-1'', ge_end_date = t, ge_markets = [\<lparr> gm_condition_id = ''c'', gm_clob_token_ids = ''i'' \<rparr>] \<rparr>"
  let ?es = "[?ev ''1970-01-01T00:10:00Z'', ?ev ''1970-01-01T00:05:00Z'']"
  have a: "list_all (\<lambda>event. ascii (ge_end_date event)) ?es" by (simp add: ascii_def)
  have p: "parse_iso8601_to_epoch_ms ''1970-01-01T00:05:00Z'' = Good 300000"
    "parse_iso8601_to_epoch_ms ''1970-01-01T00:10:00Z'' = Good 600000" by code_simp+
  define cs where "cs = concat (map (event_candidates (\<lambda>s. Some [''y'', ''n'']) 0) ?es)"
  have "300000 \<in> fst ` set cs"
    by (simp add: cs_def event_candidates_def market_candidates_def p starts_with_def)
  then obtain c where c: "c \<in> set cs" "fst c = 300000" by auto
  note s = soonest_market [OF a, of "\<lambda>s. Some [''y'', ''n'']" 0, folded cs_def]
  show ?thesis
  proof (cases "parse_gamma_events_response_after (\<lambda>s. Some [''y'', ''n'']) (Some ?es) 0")
    case (Good info)
    with s c have "mi_end_timestamp_ms info \<le> 300000" by (simp add: list_all_iff) metis
    with Good show ?thesis by (simp add: Let_def)
  qed (use s c in auto)
qed


section \<open>The rotation manager\<close>

definition rotation_inv :: "rotation \<Rightarrow> bool" where
  "rotation_inv r \<longleftrightarrow> (rn_current r = None \<longleftrightarrow> rn_expiry r = None)
     \<and> (case rn_next r of None \<Rightarrow> True
        | Some n \<Rightarrow> (case rn_current r of None \<Rightarrow> False | Some c \<Rightarrow> mi_end_timestamp_ms c < mi_end_timestamp_ms n))"

lemma found_later:
  assumes "parse_gamma_events_response_after ids_parse body skip = Good info"
  shows "skip < mi_end_timestamp_ms info"
proof -
  have m: "skip < mi_end_timestamp_ms (snd b)"
    if "consider_market ids_parse t best m = Some b" "skip < t" "\<And>b. best = Some b \<Longrightarrow> skip < mi_end_timestamp_ms (snd b)" for t best m b
    using that by (auto simp: consider_market_def Let_def split: if_splits option.splits)
  have ms: "skip < mi_end_timestamp_ms (snd b)"
    if "foldl (consider_market ids_parse t) best ms = Some b" "skip < t" "\<And>b. best = Some b \<Longrightarrow> skip < mi_end_timestamp_ms (snd b)"
    for t best ms b
    using that
  proof (induction ms arbitrary: best)
    case (Cons x xs)
    from Cons.IH [of "consider_market ids_parse t best x"] Cons.prems m [of t best x] show ?case by auto
  qed auto
  have es: "skip < mi_end_timestamp_ms (snd b)"
    if "orun (consider_event ids_parse skip) events best = Good (Some b)" "\<And>b. best = Some b \<Longrightarrow> skip < mi_end_timestamp_ms (snd b)"
    for events best b
    using that
  proof (induction events arbitrary: best)
    case (Cons x xs)
    from Cons.prems(1) obtain best' where b: "consider_event ids_parse skip x best = Good best'"
      "orun (consider_event ids_parse skip) xs best' = Good (Some b)" by (auto simp: obind_eq_Good)
    have "\<And>b. best' = Some b \<Longrightarrow> skip < mi_end_timestamp_ms (snd b)"
      using b(1) Cons.prems(2) ms by (auto simp: consider_event_def obind_eq_Good not_le split: if_splits)
    from Cons.IH [OF b(2) this] show ?case .
  qed auto
  from assms es [of _ None] show ?thesis
    by (auto simp: parse_gamma_events_response_after_def obind_eq_Good)
qed

lemma emit_frames [simp]:
  "rn_current (emit_rotation_events i m bs r) = rn_current r" "rn_next (emit_rotation_events i m bs r) = rn_next r"
  "rn_expiry (emit_rotation_events i m bs r) = rn_expiry r" "rn_stopped (emit_rotation_events i m bs r) = rn_stopped r"
  by (simp_all add: emit_rotation_events_def)

lemma on_expiry_inv: "rotation_inv r \<Longrightarrow> rotation_inv (on_expiry i r)"
  by (auto simp: on_expiry_def rotation_inv_def Let_def split: option.splits)

lemma prewarm_inv: "rotation_inv r \<Longrightarrow> prewarm L ids_parse lead i r = Good r' \<Longrightarrow>
    rotation_inv r' \<and> rn_current r' = rn_current r \<and> rn_events r' = rn_events r \<and> rn_last_emitted r' = rn_last_emitted r"
  by (auto simp: prewarm_def rotation_inv_def Let_def dest!: found_later split: option.splits if_splits outcome.splits)

lemma poll_inv:
  assumes "poll_gamma_and_emit L ids_parse i r = Good r'" and "rn_next r = None"
  shows "rn_next r' = None \<and> (rn_current r' = None \<longrightarrow> r' = r)"
  using assms by (auto simp: poll_gamma_and_emit_def Let_def split: outcome.splits)

lemma on_check_inv:
  assumes "rotation_inv r" and "on_check L ids_parse lead i r = Good r'"
  shows "rotation_inv r'"
proof (cases "ri_shutdown i")
  case True
  with assms show ?thesis by (auto simp: on_check_def rotation_inv_def split: option.splits)
next
  case False
  obtain r1 where r1: "prewarm L ids_parse lead i r = Good r1" using assms(2) False by (auto simp: on_check_def obind_eq_Good)
  note p = prewarm_inv [OF assms(1) r1]
  show ?thesis
  proof (cases "rn_current r1")
    case (Some c)
    then have "r' = r1" using assms(2) False r1 by (simp add: on_check_def)
    with p show ?thesis by simp
  next
    case None
    then have n: "rn_next r1 = None" using p by (auto simp: rotation_inv_def split: option.splits)
    obtain r2 where r2: "poll_gamma_and_emit L ids_parse i r1 = Good r2"
      using assms(2) False r1 None by (auto simp: on_check_def obind_eq_Good)
    from poll_inv [OF r2 n] assms(2) False r1 None r2 p show ?thesis
      by (auto simp: on_check_def rotation_inv_def split: option.splits)
  qed
qed

lemma rotation_step_inv:
  "rotation_inv r \<Longrightarrow> rotation_step L ids_parse lead t r = Good r' \<Longrightarrow> rotation_inv r'"
  by (auto simp: rotation_step_def on_expiry_inv split: if_splits rotation_turn.splits intro: on_check_inv)

lemma rotation_run_inv:
  "rotation_inv r \<Longrightarrow> orun (rotation_step L ids_parse lead) ts r = Good r' \<Longrightarrow> rotation_inv r'"
proof (induction ts arbitrary: r)
  case (Cons t ts)
  from Cons.prems(2) obtain r1 where "rotation_step L ids_parse lead t r = Good r1" "orun (rotation_step L ids_parse lead) ts r1 = Good r'"
    by (auto simp: obind_eq_Good)
  with Cons.IH rotation_step_inv [OF Cons.prems(1)] show ?case by blast
qed simp

lemma rotation_start: "rotation_inv rotation_new"
  by (simp add: rotation_inv_def rotation_new_def)

text \<open>
  C26. The bot is never stuck in a market. In every run of the manager, whatever the API answers
  and in whatever order the two timers fire, the expiry timer is armed exactly while a market is
  active, so every market is left; and a pre-warmed market is only held while another is active,
  and ends strictly after it.
\<close>

theorem rotation_timer_armed:
  assumes "run_market_rotation L ids_parse lead ts = Good r"
  shows "(rn_current r = None \<longleftrightarrow> rn_expiry r = None)
    \<and> (case rn_next r of None \<Rightarrow> True
       | Some n \<Rightarrow> (case rn_current r of None \<Rightarrow> False | Some c \<Rightarrow> mi_end_timestamp_ms c < mi_end_timestamp_ms n))"
  using rotation_run_inv [OF rotation_start assms [unfolded run_market_rotation_def]] by (simp add: rotation_inv_def)

text \<open>
  What a rotation event of a turn says about the state before it: on expiry it is a market that
  ends later than the active one, on a check one that is not the last emitted and not expired.
\<close>

fun rotation_event_ok :: "rotation_turn \<Rightarrow> rotation \<Rightarrow> ingestor_event \<Rightarrow> bool" where
  "rotation_event_ok (ExpiryFires i) r (EvMarketRotation c y n e tick) =
     (case rn_current r of None \<Rightarrow> False | Some m \<Rightarrow> mi_end_timestamp_ms m < e)"
| "rotation_event_ok (CheckTicks i) r (EvMarketRotation c y n e tick) = (rn_last_emitted r \<noteq> Some c \<and> ri_now_poll i < e)"
| "rotation_event_ok t r (EvBook b) = True"
| "rotation_event_ok t r ev = False"

lemma emitted: "\<exists>bs'. rn_events (emit_rotation_events i m bs r) = rn_events r @ (if ri_connected i
    then EvMarketRotation (mi_condition_id m) (mi_yes_token_id m) (mi_no_token_id m) (mi_end_timestamp_ms m) (mi_tick_size m) # map EvBook bs'
    else [])"
  by (rule exI [of _ "take (ri_free i) bs"]) (simp add: emit_rotation_events_def take_map)

lemma saturating_sub_pos: "0 < saturating_sub a b \<longleftrightarrow> b < (a :: u64)"
  by (simp add: word_less_nat_alt unat_saturating_sub)

lemma books_ok: "list_all (rotation_event_ok t r) (map EvBook bs)"
  by (induction bs) (cases t; simp)+

lemma on_expiry_events:
  assumes "rotation_inv r"
  shows "\<exists>new. rn_events (on_expiry i r) = rn_events r @ new \<and> list_all (rotation_event_ok (ExpiryFires i) r) new"
proof (cases "ri_shutdown i \<or> rn_next r = None")
  case True
  then show ?thesis by (intro exI [of _ "[]"]) (auto simp: on_expiry_def Let_def)
next
  case False
  then obtain n c where n: "rn_next r = Some n" "rn_current r = Some c" "mi_end_timestamp_ms c < mi_end_timestamp_ms n"
    using assms by (auto simp: rotation_inv_def split: option.splits)
  obtain bs' where "rn_events (emit_rotation_events i n (rn_books r) r) = rn_events r @ (if ri_connected i
    then EvMarketRotation (mi_condition_id n) (mi_yes_token_id n) (mi_no_token_id n) (mi_end_timestamp_ms n) (mi_tick_size n) # map EvBook bs'
    else [])" using emitted by blast
  with n False show ?thesis by (simp add: on_expiry_def Let_def books_ok)
qed

lemma poll_events:
  assumes "poll_gamma_and_emit L ids_parse i r = Good r'" and "rn_last_emitted r = rn_last_emitted r0"
  shows "\<exists>new. rn_events r' = rn_events r @ new \<and> list_all (rotation_event_ok (CheckTicks i) r0) new"
proof (cases "parse_gamma_events_response_after ids_parse (ri_gamma i) (ri_now i)")
  case (Good found)
  define m where "m = found\<lparr> mi_tick_size := fetch_tick_size L (ri_tick i (mi_yes_token_id found)) \<rparr>"
  have r': "rn_events r' = (if rn_last_emitted r \<noteq> Some (mi_condition_id m) \<and> ri_now_poll i < mi_end_timestamp_ms m
      then rn_events (emit_rotation_events i m (fetch_books L i m) r) else rn_events r)"
    using assms(1) Good by (auto simp: poll_gamma_and_emit_def Let_def m_def saturating_sub_pos)
  obtain bs' where "rn_events (emit_rotation_events i m (fetch_books L i m) r) = rn_events r @ (if ri_connected i
    then EvMarketRotation (mi_condition_id m) (mi_yes_token_id m) (mi_no_token_id m) (mi_end_timestamp_ms m) (mi_tick_size m) # map EvBook bs'
    else [])" using emitted by blast
  with r' assms(2) show ?thesis by (auto simp: books_ok)
qed (use assms in \<open>simp_all add: poll_gamma_and_emit_def\<close>)

lemma on_check_events:
  assumes "rotation_inv r" and "on_check L ids_parse lead i r = Good r'"
  shows "\<exists>new. rn_events r' = rn_events r @ new \<and> list_all (rotation_event_ok (CheckTicks i) r) new"
proof (cases "ri_shutdown i")
  case True
  with assms show ?thesis by (auto simp: on_check_def)
next
  case False
  obtain r1 where r1: "prewarm L ids_parse lead i r = Good r1" using assms(2) False by (auto simp: on_check_def obind_eq_Good)
  note p = prewarm_inv [OF assms(1) r1]
  show ?thesis
  proof (cases "rn_current r1")
    case (Some c)
    then have "r' = r1" using assms(2) False r1 by (simp add: on_check_def)
    with p show ?thesis by simp
  next
    case None
    obtain r2 where r2: "poll_gamma_and_emit L ids_parse i r1 = Good r2" "rn_events r' = rn_events r2"
      using assms(2) False r1 None by (auto simp: on_check_def obind_eq_Good split: option.splits)
    from poll_events [OF r2(1), of r] p r2(2) show ?thesis by simp
  qed
qed

text \<open>
  C25. Rotation only goes forward. In every reachable state, the next turn adds to the engine's
  channel at most a rotation and books; a rotation on expiry is to a market that ends strictly
  later than the one that expired, and one found by polling is not the one emitted last and has
  not expired when it is emitted.
\<close>

theorem rotation_goes_forward:
  assumes "run_market_rotation L ids_parse lead ts = Good r" and "rotation_step L ids_parse lead t r = Good r'"
  shows "\<exists>new. rn_events r' = rn_events r @ new \<and> list_all (rotation_event_ok t r) new"
proof -
  have inv: "rotation_inv r" by (rule rotation_run_inv [OF rotation_start assms(1) [unfolded run_market_rotation_def]])
  show ?thesis using on_expiry_events [OF inv] on_check_events [OF inv] assms(2)
    by (cases t) (auto simp: rotation_step_def split: if_splits)
qed


definition demo_rotation_io :: rotation_io where
  "demo_rotation_io = \<lparr> ri_shutdown = False, ri_now = 1000, ri_now_poll = 1001, ri_now_arm = 1002, ri_now_book = 1003,
     ri_gamma = Some [\<lparr> ge_slug = ''btc-updown-5m-1'', ge_end_date = ''1970-01-01T00:05:00Z'',
       ge_markets = [\<lparr> gm_condition_id = ''c'', gm_clob_token_ids = ''i'' \<rparr>] \<rparr>],
     ri_tick = (\<lambda>t. None), ri_book = (\<lambda>t. None), ri_connected = True, ri_free = 8 \<rparr>"

definition demo_market :: market_info where
  "demo_market = \<lparr> mi_condition_id = ''c'', mi_yes_token_id = ''y'', mi_no_token_id = ''n'', mi_end_timestamp_ms = 300000, mi_tick_size = dnew 1 2 \<rparr>"

definition demo_active :: rotation where
  "demo_active = \<lparr> rn_last_emitted = Some ''c'', rn_current = Some demo_market, rn_next = None, rn_books = [], rn_attempted = False,
     rn_failures = 0, rn_expiry = Some 298998, rn_events = [EvMarketRotation ''c'' ''y'' ''n'' 300000 (dnew 1 2)],
     rn_tokens = [[''y'', ''n'']], rn_stopped = False \<rparr>"

lemma demo_check:
  "rotation_step exact_lib (\<lambda>s. Some [''y'', ''n'']) 180000 (CheckTicks demo_rotation_io) rotation_new = Good demo_active"
proof -
  have p: "parse_iso8601_to_epoch_ms ''1970-01-01T00:05:00Z'' = Good 300000" by code_simp
  have g: "parse_gamma_events_response_after (\<lambda>s. Some [''y'', ''n'']) (ri_gamma demo_rotation_io) 1000 = Good demo_market"
    by (simp add: parse_gamma_events_response_after_def demo_rotation_io_def consider_event_def target_slug_prefixes_def starts_with_def p
        consider_market_def demo_market_def)
  have s: "saturating_sub 300000 1001 = (298999 :: u64)" "saturating_sub 300000 1002 = (298998 :: u64)"
    by (simp_all add: saturating_sub_def)
  have io: "\<not> ri_shutdown demo_rotation_io" "ri_now demo_rotation_io = 1000" "ri_now_poll demo_rotation_io = 1001"
    "ri_now_arm demo_rotation_io = 1002" "ri_tick demo_rotation_io t = None" "ri_book demo_rotation_io t = None"
    "ri_connected demo_rotation_io" for t by (simp_all add: demo_rotation_io_def)
  show ?thesis
    by (simp add: rotation_step_def on_check_def prewarm_def poll_gamma_and_emit_def rotation_new_def io g s Let_def
        emit_rotation_events_def fetch_books_def fetch_order_book_def fetch_tick_size_def expiry_instant_def demo_active_def)
      (simp add: demo_market_def s)
qed

lemma rotation_timer_armed_witness:
  "run_market_rotation exact_lib (\<lambda>s. Some [''y'', ''n'']) 180000 [CheckTicks demo_rotation_io] = Good demo_active
    \<and> rn_current demo_active = Some demo_market \<and> rn_expiry demo_active \<noteq> None"
proof -
  have r: "run_market_rotation exact_lib (\<lambda>s. Some [''y'', ''n'']) 180000 [CheckTicks demo_rotation_io] = Good demo_active"
    by (simp add: run_market_rotation_def demo_check)
  have "rn_current demo_active = Some demo_market" by (simp add: demo_active_def)
  with r rotation_timer_armed [OF r] show ?thesis by auto
qed

lemma rotation_goes_forward_witness:
  "list_all (rotation_event_ok (CheckTicks demo_rotation_io) rotation_new) (rn_events demo_active) \<and> rn_events demo_active \<noteq> []"
proof -
  have "run_market_rotation exact_lib (\<lambda>s. Some [''y'', ''n'']) 180000 [] = Good rotation_new" by (simp add: run_market_rotation_def)
  from rotation_goes_forward [OF this demo_check]
  have "list_all (rotation_event_ok (CheckTicks demo_rotation_io) rotation_new) (rn_events demo_active)" by (auto simp: rotation_new_def)
  then show ?thesis by (simp add: demo_active_def)
qed

end
