(* ===== verification/Reporter.thy ===== *)
theory Reporter
  imports Json
begin

text \<open>
  The Telegram reporter, \<open>src/src/reporting/telegram.rs\<close>: the rate limit and the spacing of
  messages, the splitting of long messages, the request and its answer, and the queue of message
  ids that the hourly cleanup deletes. The HTTPS exchange is an argument: its status and the
  parsed body.
\<close>

section \<open>Splitting\<close>

definition telegram_max_len :: nat where
  "telegram_max_len = 4096"

abbreviation nl :: char where "nl \<equiv> CHR 0x0A"

text \<open>One line of the message; the state is the finished chunks and the current one.\<close>

fun split_line :: "string \<Rightarrow> string list \<times> string \<Rightarrow> (string list \<times> string) outcome" where
  "split_line line (chunks, current) =
     (let needed = (if current = [] then length line else length current + 1 + length line) in
      if telegram_max_len < needed then
        (let chunks1 = (if current \<noteq> [] then chunks @ [current] else chunks) in
         if telegram_max_len < length line
         then obind (str_slice 0 telegram_max_len line) (\<lambda>t. Good (chunks1 @ [t], []))
         else Good (chunks1, line))
      else Good (chunks, (if current \<noteq> [] then current @ [nl] else current) @ line))"

definition split_message :: "string \<Rightarrow> string list outcome" where
  "split_message text =
     (if length text \<le> telegram_max_len then Good [text]
      else obind (orun split_line (split_char nl text) ([], [])) (\<lambda>(chunks, current).
           Good (if current \<noteq> [] then chunks @ [current] else chunks)))"

section \<open>Requests\<close>

text \<open>An exchange fails, or yields whether the status is a success and the parsed body.\<close>

datatype http_answer = HttpFailed | HttpStatus bool "json option"

definition message_body :: "string \<Rightarrow> string \<Rightarrow> json" where
  "message_body chat_id text = JObj [(''chat_id'', JStr chat_id), (''text'', JStr text),
     (''parse_mode'', JStr ''HTML''), (''disable_web_page_preview'', JBool True)]"

definition post_telegram_message :: "http_answer \<Rightarrow> int option outcome" where
  "post_telegram_message a = (case a of
      HttpFailed \<Rightarrow> Err ''request failed''
    | HttpStatus success body \<Rightarrow>
        if \<not> success then Good None
        else Good (Option.bind body (\<lambda>v. Option.bind (jget ''result'' v)
                    (\<lambda>r. Option.bind (jget ''message_id'' r) as_i64))))"

section \<open>The reporter\<close>

record reporter =
  rp_last_send_ms :: u64
  rp_sent_messages :: "int list"

definition reporter_new :: reporter where
  "reporter_new = \<lparr> rp_last_send_ms = 0, rp_sent_messages = [] \<rparr>"

text \<open>The queue loop drops from the front until the bound holds.\<close>

definition track_message_id :: "int \<Rightarrow> reporter \<Rightarrow> reporter" where
  "track_message_id msg_id r = (let q = rp_sent_messages r @ [msg_id]
     in r\<lparr> rp_sent_messages := drop (length q - 200) q \<rparr>)"

text \<open>A message handed to a task: the delay before it is sent, and its text.\<close>

definition fire_and_forget :: "u64 \<Rightarrow> string \<Rightarrow> reporter \<Rightarrow> (u64 \<times> string) option \<times> reporter" where
  "fire_and_forget now text r =
     (if saturating_sub now (rp_last_send_ms r) < 5000 then (None, r)
      else (Some (0, text), r\<lparr> rp_last_send_ms := now \<rparr>))"

definition fire_critical :: "u64 \<Rightarrow> string \<Rightarrow> reporter \<Rightarrow> (u64 \<times> string) option \<times> reporter" where
  "fire_critical now text r =
     (let gap_ms = saturating_sub now (rp_last_send_ms r)
      in (Some (if gap_ms < 1500 then 1500 - gap_ms else 0, text), r\<lparr> rp_last_send_ms := now \<rparr>))"

text \<open>
  The task sends the chunks one after the other and remembers the ids; a panic of the splitter
  ends the task before anything is sent.
\<close>

definition deliver :: "(nat \<Rightarrow> http_answer) \<Rightarrow> string \<Rightarrow> reporter \<Rightarrow> string list \<times> reporter" where
  "deliver answers text r = (case split_message text of
      Good chunks \<Rightarrow> (chunks, foldl (\<lambda>r i. case post_telegram_message (answers i) of
          Good (Some msg_id) \<Rightarrow> track_message_id msg_id r | _ \<Rightarrow> r) r [0 ..< length chunks])
    | _ \<Rightarrow> ([], r))"

definition startup_text :: string where
  "startup_text = ''<b>FaCaiBot live started</b>'' @ [nl, nl] @ ''Connected to Binance SBE + Polymarket CLOB. ''
     @ ''Real orders will be placed.''"

definition send_live_startup_message :: "u64 \<Rightarrow> reporter \<Rightarrow> (u64 \<times> string) option \<times> reporter" where
  "send_live_startup_message now r = fire_and_forget now startup_text r"

text \<open>The hourly cleanup takes every id and asks for its deletion, whatever the answers.\<close>

definition cleanup :: "reporter \<Rightarrow> int list \<times> reporter" where
  "cleanup r = (rp_sent_messages r, r\<lparr> rp_sent_messages := [] \<rparr>)"

section \<open>What the splitter keeps\<close>

text \<open>The lines of a text that are not empty.\<close>

definition full_lines :: "string \<Rightarrow> string list" where
  "full_lines s = filter (\<lambda>l. l \<noteq> []) (split_char nl s)"

lemma full_lines_Nil [simp]: "full_lines [] = []"
  by (simp add: full_lines_def)

lemma full_lines_line: "nl \<notin> set l \<Longrightarrow> full_lines l = (if l = [] then [] else [l])"
  by (simp add: full_lines_def split_char_free)

lemma full_lines_append: "full_lines (a @ [nl] @ b) = full_lines a @ full_lines b"
  by (simp add: full_lines_def split_char_append)

definition split_ok :: "string list \<times> string \<Rightarrow> bool" where
  "split_ok s \<longleftrightarrow> (\<forall>c \<in> set (fst s). c \<noteq> [] \<and> length c \<le> telegram_max_len) \<and> length (snd s) \<le> telegram_max_len"

definition split_content :: "string list \<times> string \<Rightarrow> string list" where
  "split_content s = concat (map full_lines (fst s)) @ full_lines (snd s)"

lemma split_line_ok:
  assumes "split_ok s" and "nl \<notin> set line" and "length line \<le> telegram_max_len"
  obtains s' where "split_line line s = Good s'" and "split_ok s'"
    and "split_content s' = split_content s @ full_lines line"
proof -
  obtain chunks current where s: "s = (chunks, current)" by (cases s)
  show thesis
    by (rule that [of "if telegram_max_len < (if current = [] then length line else length current + 1 + length line)
          then (if current \<noteq> [] then chunks @ [current] else chunks, line)
          else (chunks, (if current \<noteq> [] then current @ [nl] else current) @ line)"])
      (use assms full_lines_append [of current line] in \<open>auto simp: s split_ok_def split_content_def Let_def\<close>)
qed

lemma split_lines_ok:
  assumes "split_ok s" and "list_all (\<lambda>l. nl \<notin> set l \<and> length l \<le> telegram_max_len) ls"
  shows "\<exists>s'. orun split_line ls s = Good s' \<and> split_ok s'
    \<and> split_content s' = split_content s @ concat (map full_lines ls)"
  using assms
proof (induction ls arbitrary: s)
  case (Cons l ls)
  obtain s1 where s1: "split_line l s = Good s1" "split_ok s1" "split_content s1 = split_content s @ full_lines l"
    using Cons.prems by (auto elim: split_line_ok)
  with Cons.IH [of s1] Cons.prems show ?case by simp
qed simp

lemma concat_full_lines: "list_all (\<lambda>l. nl \<notin> set l) ls \<Longrightarrow> concat (map full_lines ls) = filter (\<lambda>l. l \<noteq> []) ls"
  by (induction ls) (auto simp: full_lines_line)

lemma split_line_cases:
  "split_line l s = Panic \<longleftrightarrow> telegram_max_len < length l \<and> \<not> is_boundary l telegram_max_len"
  "\<forall>e. split_line l s \<noteq> Err e"
  by (cases s; auto simp: Let_def obind_eq_Panic str_slice_def is_boundary_def telegram_max_len_def)+

lemma split_line_len:
  "split_line l s = Good s' \<Longrightarrow> \<forall>c \<in> set (fst s). length c \<le> telegram_max_len \<Longrightarrow> length (snd s) \<le> telegram_max_len
    \<Longrightarrow> (\<forall>c \<in> set (fst s'). length c \<le> telegram_max_len) \<and> length (snd s') \<le> telegram_max_len"
  by (cases s) (auto simp: Let_def obind_eq_Good str_slice_def split: if_splits)

lemma split_lines_len:
  "orun split_line ls s = Good s' \<Longrightarrow> \<forall>c \<in> set (fst s). length c \<le> telegram_max_len \<Longrightarrow> length (snd s) \<le> telegram_max_len
    \<Longrightarrow> (\<forall>c \<in> set (fst s'). length c \<le> telegram_max_len) \<and> length (snd s') \<le> telegram_max_len"
proof (induction ls arbitrary: s)
  case (Cons l ls)
  from Cons.prems(1) obtain s1 where s1: "split_line l s = Good s1" and r: "orun split_line ls s1 = Good s'"
    by (auto simp: obind_eq_Good)
  from split_line_len [OF s1 Cons.prems(2,3)] show ?case by (intro Cons.IH [OF r]) auto
qed simp

lemma split_lines_panic:
  "orun split_line ls s = Panic \<longleftrightarrow> (\<exists>l \<in> set ls. telegram_max_len < length l \<and> \<not> is_boundary l telegram_max_len)"
proof (induction ls arbitrary: s)
  case (Cons l ls)
  show ?case using split_line_cases [of l s] Cons by (cases "split_line l s") (auto simp: obind_eq_Panic)
qed simp

lemma split_panics:
  "split_message text = Panic \<longleftrightarrow> telegram_max_len < length text
     \<and> (\<exists>l \<in> set (split_char nl text). telegram_max_len < length l \<and> \<not> is_boundary l telegram_max_len)"
proof -
  have g: "obind r (\<lambda>(chunks, current). Good (if current \<noteq> [] then chunks @ [current] else chunks)) = Panic \<longleftrightarrow> r = Panic"
    for r :: "(string list \<times> string) outcome" by (auto simp: obind_eq_Panic)
  show ?thesis unfolding split_message_def by (simp add: g split_lines_panic not_le)
qed

lemma split_fits: "split_message text = Good chunks \<Longrightarrow> c \<in> set chunks \<Longrightarrow> length c \<le> telegram_max_len"
  using split_lines_len [of "split_char nl text" "([], [])"]
  by (auto simp: split_message_def obind_eq_Good split: if_splits)

lemma split_keeps:
  assumes "list_all (\<lambda>l. length l \<le> telegram_max_len) (split_char nl text)"
  shows "\<exists>chunks. split_message text = Good chunks \<and> concat (map full_lines chunks) = full_lines text"
proof (cases "length text \<le> telegram_max_len")
  case False
  have all: "list_all (\<lambda>l. nl \<notin> set l \<and> length l \<le> telegram_max_len) (split_char nl text)"
    using assms split_char_fields by (fastforce simp: list_all_iff)
  have "split_ok ([], [])" by (simp add: split_ok_def)
  from split_lines_ok [OF this all] obtain chunks current where s: "orun split_line (split_char nl text) ([], []) = Good (chunks, current)"
    and c: "split_content (chunks, current) = split_content ([], []) @ concat (map full_lines (split_char nl text))" by fastforce
  have "concat (map full_lines (split_char nl text)) = full_lines text"
    using all by (subst concat_full_lines) (auto simp: full_lines_def list_all_iff)
  with c s False show ?thesis by (auto simp: split_message_def split_content_def)
qed (simp add: split_message_def)

text \<open>
  C35. The splitter: it brings the sending task down exactly when the text is too long for one
  message and has a line that is too long and is cut inside a character; every message it makes
  fits the limit; and when every line fits, the lines that are not empty all arrive, in order.
\<close>

theorem split_message_faithful:
  "(split_message text = Panic \<longleftrightarrow> telegram_max_len < length text
      \<and> (\<exists>l \<in> set (split_char nl text). telegram_max_len < length l \<and> \<not> is_boundary l telegram_max_len))
   \<and> (split_message text = Good chunks \<longrightarrow> list_all (\<lambda>c. length c \<le> telegram_max_len) chunks)
   \<and> (list_all (\<lambda>l. length l \<le> telegram_max_len) (split_char nl text)
        \<longrightarrow> (\<exists>chunks. split_message text = Good chunks \<and> concat (map full_lines chunks) = full_lines text))"
  using split_panics [of "text"] split_fits [of "text" chunks] split_keeps [of "text"] by (auto simp: list_all_iff)

lemma split_message_faithful_witness:
  "let text = replicate 3000 CHR ''a'' @ nl # replicate 3000 CHR ''b'' in
   \<exists>chunks. split_message text = Good chunks \<and> concat (map full_lines chunks) = [replicate 3000 CHR ''a'', replicate 3000 CHR ''b'']"
proof -
  let ?text = "replicate 3000 CHR ''a'' @ nl # replicate 3000 CHR ''b''"
  have s: "split_char nl ?text = [replicate 3000 CHR ''a'', replicate 3000 CHR ''b'']"
    by (simp add: split_char_append split_char_free)
  have "\<exists>chunks. split_message ?text = Good chunks \<and> concat (map full_lines chunks) = full_lines ?text"
    using split_message_faithful [of ?text "[]"] by (simp add: s telegram_max_len_def)
  then show ?thesis by (simp add: full_lines_def s)
qed

section \<open>Rate and order\<close>

text \<open>Calls of the reporter: whether critical, the time and the text; what is dispatched, and when.\<close>

fun dispatched :: "(bool \<times> u64 \<times> string) list \<Rightarrow> reporter \<Rightarrow> (bool \<times> u64 \<times> u64) list" where
  "dispatched [] r = []"
| "dispatched ((critical, now, msg) # cs) r =
     (let (sent, r') = (if critical then fire_critical now msg r else fire_and_forget now msg r)
      in (case sent of None \<Rightarrow> [] | Some (delay, t) \<Rightarrow> [(critical, now, now + delay)]) @ dispatched cs r')"

lemma dispatched_spaced_from:
  "successively (\<lambda>(_, a, _) (critical, b, _). critical \<or> unat a + 5000 \<le> unat b)
     ((True, rp_last_send_ms r, t) # dispatched cs r)"
proof (induction cs arbitrary: r t)
  case (Cons c cs)
  obtain critical now msg where c: "c = (critical, now, msg)" by (cases c)
  show ?case
  proof (cases "critical \<or> unat (rp_last_send_ms r) + 5000 \<le> unat now")
    case True
    have n: "\<not> critical \<Longrightarrow> \<not> saturating_sub now (rp_last_send_ms r) < 5000" using True
      by (simp add: word_less_nat_alt unat_saturating_sub)
    show ?thesis using True n Cons.IH [of "r\<lparr> rp_last_send_ms := now \<rparr>"]
      by (cases "dispatched cs (r\<lparr> rp_last_send_ms := now \<rparr>)") (auto simp: c fire_critical_def fire_and_forget_def Let_def)
  next
    case False
    then have "unat now - unat (rp_last_send_ms r) < 5000" by linarith
    then have "saturating_sub now (rp_last_send_ms r) < 5000" by (simp add: word_less_nat_alt unat_saturating_sub)
    with False Cons.IH [of r t] show ?thesis by (simp add: c fire_and_forget_def)
  qed
qed simp

text \<open>
  A message that may be dropped is sent only five seconds or more after the last dispatch.
\<close>

lemma dispatched_spaced:
  "successively (\<lambda>(_, a, _) (critical, b, _). critical \<or> unat a + 5000 \<le> unat b) (dispatched cs r)"
  using dispatched_spaced_from [of r 0 cs] by (cases "dispatched cs r") auto

text \<open>
  Critical messages are never dropped, but only the gap to the previous call counts: of a burst,
  the first is sent at once and all the others together one and a half seconds later.
\<close>

lemma critical_burst_from:
  "rp_last_send_ms r = t \<Longrightarrow> dispatched (map (\<lambda>x. (True, t, x)) texts) r = map (\<lambda>x. (True, t, t + 1500)) texts"
  by (induction texts arbitrary: r) (simp_all add: fire_critical_def Let_def)

theorem critical_messages_bunch:
  assumes "unat (rp_last_send_ms r) + 1500 \<le> unat t"
  shows "dispatched (map (\<lambda>x. (True, t, x)) (x # texts)) r = (True, t, t) # map (\<lambda>x. (True, t, t + 1500)) texts"
proof -
  have "\<not> saturating_sub t (rp_last_send_ms r) < 1500" using assms by (simp add: word_less_nat_alt unat_saturating_sub)
  then show ?thesis using critical_burst_from [of "r\<lparr> rp_last_send_ms := t \<rparr>" t texts] by (simp add: fire_critical_def Let_def)
qed

lemma critical_messages_bunch_witness:
  "dispatched [(True, 10000, ''a''), (True, 10000, ''b''), (True, 10000, ''c'')] reporter_new
     = [(True, 10000, 10000), (True, 10000, 11500), (True, 10000, 11500)]"
  using critical_messages_bunch [of reporter_new 10000 "''a''" "[''b'', ''c'']"] by (simp add: reporter_new_def)

text \<open>The queue holds the last two hundred ids sent since the last cleanup.\<close>

theorem sent_ids_recent:
  assumes "length (rp_sent_messages r) \<le> 200"
  shows "rp_sent_messages (foldl (\<lambda>r i. track_message_id i r) r ids) = last_n 200 (rp_sent_messages r @ ids)"
  using assms
proof (induction ids arbitrary: r)
  case (Cons i ids)
  have t: "rp_sent_messages (track_message_id i r) = last_n 200 (rp_sent_messages r @ [i])"
    by (simp add: track_message_id_def last_n_def Let_def)
  have "length (rp_sent_messages (track_message_id i r)) \<le> 200" by (simp add: t length_last_n)
  from Cons.IH [OF this] show ?case by (simp add: t last_n_append)
qed simp

end
