(* ===== verification/Heartbeat.thy ===== *)
theory Heartbeat
  imports Json Strategy
begin

text \<open>
  The exchange heartbeat, \<open>src/src/gateway/polymarket/heartbeat.rs\<close>: one beat every five seconds,
  the id the next beat carries, the count of failures in a row, the events for the engine and the
  warnings around the weekly restart of the matching engine. The SDK, the JSON parser and the UUID
  parser are arguments; an id is its text. The last section follows the events into the engine.
\<close>

section \<open>The restart window\<close>

definition monday :: u32 where "monday = 1"

definition pre_cancel_et_start_secs :: u32 where
  "pre_cancel_et_start_secs = 19 * 3600 + 55 * 60"

definition matching_engine_restart_et_secs :: u32 where
  "matching_engine_restart_et_secs = 20 * 3600"

datatype restart_warning = PreCancel | Restarting

text \<open>Eastern time is taken as five hours behind UTC all year.\<close>

definition check_matching_engine_restart_window :: "u64 \<Rightarrow> restart_warning option" where
  "check_matching_engine_restart_window now_secs =
     (let et_secs = now_secs - 5 * 3600;
          days_since_epoch = et_secs div 86400;
          day_of_week = (ucast ((days_since_epoch + 4) mod 7) :: u32);
          secs_in_day = (ucast (et_secs mod 86400) :: u32)
      in if day_of_week = monday then
           (if pre_cancel_et_start_secs \<le> secs_in_day \<and> secs_in_day < matching_engine_restart_et_secs then Some PreCancel
            else if matching_engine_restart_et_secs \<le> secs_in_day \<and> secs_in_day < matching_engine_restart_et_secs + 120
            then Some Restarting else None)
         else None)"

section \<open>Beats\<close>

text \<open>
  The exchange puts the id it expects into the body of its refusal, which the SDK appends to the
  text of the error.
\<close>

definition extract_heartbeat_id_from_error ::
    "(string \<Rightarrow> json option) \<Rightarrow> (string \<Rightarrow> string option) \<Rightarrow> string \<Rightarrow> string option" where
  "extract_heartbeat_id_from_error json_parse uuid_parse msg =
     Option.bind (rfind (CHR ''{'') msg) (\<lambda>json_start.
     Option.bind (json_parse (drop json_start msg)) (\<lambda>parsed.
     Option.bind (get_str ''heartbeat_id'' parsed) uuid_parse))"

text \<open>What a beat finds: the shutdown flag, the clock, the answer, and room in the channel.\<close>

datatype beat_answer = BeatOk string u64 | BeatFailed string

record beat =
  be_shutdown :: bool
  be_now_secs :: u64
  be_answer :: beat_answer
  be_room :: bool

record heartbeat_state =
  hb_id :: "string option"
  hb_failures :: u32
  hb_running :: bool
  hb_posts :: "string option list"
  hb_events :: "ingestor_event list"
  hb_warnings :: "restart_warning list"
  hb_alerts :: nat

definition heartbeat_new :: heartbeat_state where
  "heartbeat_new = \<lparr> hb_id = None, hb_failures = 0, hb_running = True, hb_posts = [], hb_events = [],
     hb_warnings = [], hb_alerts = 0 \<rparr>"

definition heartbeat_fail_alert_threshold :: u32 where
  "heartbeat_fail_alert_threshold = 2"

definition heartbeat_beat :: "(string \<Rightarrow> json option) \<Rightarrow> (string \<Rightarrow> string option) \<Rightarrow> heartbeat_state \<Rightarrow> beat
    \<Rightarrow> heartbeat_state" where
  "heartbeat_beat json_parse uuid_parse h b =
     (if \<not> hb_running h then h
      else if be_shutdown b then h\<lparr> hb_running := False \<rparr>
      else (let h1 = h\<lparr> hb_warnings := hb_warnings h
                @ (case check_matching_engine_restart_window (be_now_secs b) of None \<Rightarrow> [] | Some w \<Rightarrow> [w]),
              hb_posts := hb_posts h @ [hb_id h] \<rparr>;
            send = (\<lambda>ev h. if be_room b then h\<lparr> hb_events := hb_events h @ [ev] \<rparr> else h)
        in case be_answer b of
            BeatOk new_id latency_ms \<Rightarrow> send (EvHeartbeat True latency_ms) (h1\<lparr> hb_id := Some new_id, hb_failures := 0 \<rparr>)
          | BeatFailed msg \<Rightarrow>
              (let n = hb_failures h1 + 1
               in send (EvHeartbeat False 0) (h1\<lparr> hb_failures := n,
                    hb_id := extract_heartbeat_id_from_error json_parse uuid_parse msg,
                    hb_alerts := hb_alerts h1 + (if heartbeat_fail_alert_threshold \<le> n then 1 else 0) \<rparr>))))"

text \<open>
  The set-up: every credential must be present, the key usable and the API key a UUID; then the
  SDK must authenticate.
\<close>

definition heartbeat_setup :: "(string \<Rightarrow> bool) \<Rightarrow> (string \<Rightarrow> string option) \<Rightarrow> bool \<Rightarrow> string option \<Rightarrow> string option
    \<Rightarrow> string option \<Rightarrow> string option \<Rightarrow> heartbeat_state outcome" where
  "heartbeat_setup signer_ok uuid_parse sdk_auth api_key secret passphrase private_key =
     obind (oget api_key ''api_key required for heartbeat'') (\<lambda>api_key.
     obind (oget secret ''secret required for heartbeat'') (\<lambda>_.
     obind (oget passphrase ''passphrase required for heartbeat'') (\<lambda>_.
     obind (oget private_key ''private_key required for heartbeat'') (\<lambda>private_key.
     if \<not> signer_ok private_key then Err ''failed to build signer for heartbeat'' else
     obind (oget (uuid_parse api_key) ''POLYMARKET_API_KEY must be a valid UUID'') (\<lambda>_.
     if \<not> sdk_auth then Err ''SDK heartbeat auth failed'' else Good heartbeat_new)))))"

definition run_heartbeat :: "(string \<Rightarrow> json option) \<Rightarrow> (string \<Rightarrow> string option) \<Rightarrow> beat list \<Rightarrow> heartbeat_state
    \<Rightarrow> heartbeat_state" where
  "run_heartbeat json_parse uuid_parse bs h = foldl (heartbeat_beat json_parse uuid_parse) h bs"

section \<open>The window in UTC\<close>

lemma week_split:
  obtains q k s :: nat where "m = 604800 * q + (86400 * k + s)" "k < 7" "s < 86400"
    "m div 86400 = 7 * q + k" "m mod 86400 = s"
proof -
  define d where "d = m div 86400"
  have m: "m = 86400 * d + m mod 86400" unfolding d_def by (simp only: mult_div_mod_eq)
  have d: "d = 7 * (d div 7) + d mod 7" by (simp only: mult_div_mod_eq)
  show thesis
  proof (rule that)
    show "m = 604800 * (d div 7) + (86400 * (d mod 7) + m mod 86400)" using m d by linarith
    show "m div 86400 = 7 * (d div 7) + d mod 7" using d d_def by simp
  qed simp_all
qed

lemma mod_once: "(x::nat) < n + n \<Longrightarrow> x mod n = (if n \<le> x then x - n else x)"
  by (simp add: le_mod_geq)

lemma week_second:
  fixes k s q :: nat
  assumes "k < 7" "s < 86400"
  shows "(604800 * q + (86400 * k + s) + 18000) mod 604800 =
    (if 604800 \<le> 86400 * k + s + 18000 then 86400 * k + s + 18000 - 604800 else 86400 * k + s + 18000)"
proof -
  have lt: "86400 * k + s + 18000 < 604800 + 604800" using assms by linarith
  have "(604800 * q + (86400 * k + s) + 18000) mod 604800 = (86400 * k + s + 18000) mod 604800"
    unfolding add.assoc [of "604800 * q"] by (rule mod_mult_self4)
  also note mod_once [OF lt]
  finally show ?thesis .
qed

lemma seven: "k < (7::nat) \<Longrightarrow> (7 * q + k + 4) mod 7 = 1 \<longleftrightarrow> k = 4"
  by presburger

lemma window_cases:
  fixes n :: nat assumes "18000 \<le> n" and that: "b \<le> 86400"
  shows "((n - 18000) div 86400 + 4) mod 7 = 1 \<and> a \<le> (n - 18000) mod 86400 \<and> (n - 18000) mod 86400 < b
    \<longleftrightarrow> 363600 + a \<le> n mod 604800 \<and> n mod 604800 < 363600 + b"
proof -
  obtain q k s where m: "n - 18000 = 604800 * q + (86400 * k + s)" "k < 7" "s < 86400"
    "(n - 18000) div 86400 = 7 * q + k" "(n - 18000) mod 86400 = s" by (rule week_split)
  have n: "n = 604800 * q + (86400 * k + s) + 18000" using m(1) assms by linarith
  have w: "n mod 604800 = (if 604800 \<le> 86400 * k + s + 18000 then 86400 * k + s + 18000 - 604800 else 86400 * k + s + 18000)"
    using week_second [OF m(2,3), of q] n by argo
  consider "k \<le> 3" | "k = 4" | "5 \<le> k" "k \<le> 6" using m(2) by linarith
  then have "k = 4 \<and> a \<le> s \<and> s < b \<longleftrightarrow> 363600 + a \<le> n mod 604800 \<and> n mod 604800 < 363600 + b"
  proof cases
    case 1
    have "86400 * k + s + 18000 < 363600" using 1 m(3) by linarith
    then have "n mod 604800 < 363600" unfolding w by (simp split: if_split)
    with 1 show ?thesis by linarith
  next
    case 2
    with m(3) have "n mod 604800 = 363600 + s" unfolding w by (simp split: if_split)
    with 2 show ?thesis by linarith
  next
    case 3
    have "450000 \<le> 86400 * k + s + 18000" "86400 * k + s + 18000 < 604800 + 18000" using 3 m(3) by linarith+
    then have "450000 \<le> n mod 604800 \<or> n mod 604800 < 18000" unfolding w
      by (cases "604800 \<le> 86400 * k + s + 18000"; simp only: if_True if_False; linarith)
    with 3 that show ?thesis by linarith
  qed
  then show ?thesis unfolding m(4,5) seven [OF m(2)] .
qed

lemma unat_window:
  fixes now :: u64 assumes "18000 \<le> unat now"
  shows "unat (ucast ((((now - 18000) div 86400) + 4) mod 7) :: u32) = ((unat now - 18000) div 86400 + 4) mod 7"
    and "unat (ucast ((now - 18000) mod 86400) :: u32) = (unat now - 18000) mod 86400"
proof -
  have s: "unat (now - 18000) = unat now - 18000" using assms by (simp add: unat_sub word_le_nat_alt)
  have d: "unat ((now - 18000) div 86400) = (unat now - 18000) div 86400" by (simp add: unat_div s)
  have "unat (now - 18000) < 2 ^ 64" using unsigned_less [of "now - 18000"] by simp
  then have "unat (now - 18000) div 86400 < 2 ^ 60" by (intro less_mult_imp_div_less) simp
  then have b: "unat ((now - 18000) div 86400) < 2 ^ 60" by (simp add: unat_div)
  have "unat ((now - 18000) div 86400 + 4) = unat ((now - 18000) div 86400) + 4"
    by (subst unat_word_ariths(1)) (use b in simp)
  then have p: "unat ((now - 18000) div 86400 + 4) = (unat now - 18000) div 86400 + 4" unfolding d .
  have m7: "unat (((now - 18000) div 86400 + 4) mod 7) = ((unat now - 18000) div 86400 + 4) mod 7" by (simp add: unat_mod p)
  have u: "x < 2 ^ 32 \<Longrightarrow> unat y = x \<Longrightarrow> unat (ucast y :: u32) = x" for x and y :: u64
    by (simp add: unsigned_ucast_eq take_bit_nat_eq_self)
  show "unat (ucast ((((now - 18000) div 86400) + 4) mod 7) :: u32) = ((unat now - 18000) div 86400 + 4) mod 7"
    by (rule u [OF _ m7]) (rule less_le_trans [OF mod_less_divisor], simp_all)
  have "unat ((now - 18000) mod 86400) = (unat now - 18000) mod 86400" by (simp add: unat_mod s)
  then show "unat (ucast ((now - 18000) mod 86400) :: u32) = (unat now - 18000) mod 86400"
    by (rule u [rotated]) (rule less_le_trans [OF mod_less_divisor], simp_all)
qed

text \<open>
  The warnings, counted in weeks from the epoch (a Thursday): Monday 19:55 Eastern is Tuesday 00:55
  UTC, 435300 seconds into the week.
\<close>

theorem restart_window_utc:
  assumes "18000 \<le> unat now"
  shows "check_matching_engine_restart_window now =
     (let w = unat now mod 604800 in if 435300 \<le> w \<and> w < 435600 then Some PreCancel
      else if 435600 \<le> w \<and> w < 435720 then Some Restarting else None)"
proof -
  note u = unat_window [OF assms]
  have pre: "(((unat now - 18000) div 86400 + 4) mod 7 = 1 \<and> 71700 \<le> (unat now - 18000) mod 86400 \<and> (unat now - 18000) mod 86400 < 72000)
      \<longleftrightarrow> 435300 \<le> unat now mod 604800 \<and> unat now mod 604800 < 435600"
    using window_cases [OF assms, of 72000 71700] by simp
  have res: "(((unat now - 18000) div 86400 + 4) mod 7 = 1 \<and> 72000 \<le> (unat now - 18000) mod 86400 \<and> (unat now - 18000) mod 86400 < 72120)
      \<longleftrightarrow> 435600 \<le> unat now mod 604800 \<and> unat now mod 604800 < 435720"
    using window_cases [OF assms, of 72120 72000] by simp
  have mon: "ucast (((now - 18000) div 86400 + 4) mod 7) = (1 :: u32) \<longleftrightarrow> ((unat now - 18000) div 86400 + 4) mod 7 = 1"
    unfolding u(1) [symmetric] by (metis unat_1 unsigned_word_eqI)
  define d where "d = (ucast (((now - 18000) div 86400 + 4) mod 7) :: u32)"
  define s where "s = (ucast ((now - 18000) mod 86400) :: u32)"
  have c: "check_matching_engine_restart_window now = (if d = 1 \<and> 71700 \<le> unat s \<and> unat s < 72000 then Some PreCancel
      else if d = 1 \<and> 72000 \<le> unat s \<and> unat s < 72120 then Some Restarting else None)"
    by (simp add: check_matching_engine_restart_window_def Let_def monday_def pre_cancel_et_start_secs_def
        matching_engine_restart_et_secs_def d_def s_def word_le_nat_alt word_less_nat_alt)
  show ?thesis unfolding c Let_def
    using pre res mon unfolding u(2) [symmetric] d_def [symmetric] s_def [symmetric] by (simp only:)
qed

lemma restart_window_utc_witness:
  "check_matching_engine_restart_window (2850 * 604800 + 435300) = Some PreCancel
    \<and> check_matching_engine_restart_window (2850 * 604800 + 435299) = None"
  using restart_window_utc [of "2850 * 604800 + 435300"] restart_window_utc [of "2850 * 604800 + 435299"] by simp

section \<open>The conversation\<close>

text \<open>The id an answer leaves for the next beat.\<close>

definition next_id :: "(string \<Rightarrow> json option) \<Rightarrow> (string \<Rightarrow> string option) \<Rightarrow> beat \<Rightarrow> string option" where
  "next_id json_parse uuid_parse b = (case be_answer b of BeatOk i l \<Rightarrow> Some i
     | BeatFailed msg \<Rightarrow> extract_heartbeat_id_from_error json_parse uuid_parse msg)"

lemma beats_ids:
  "hb_running h \<Longrightarrow> list_all (\<lambda>b. \<not> be_shutdown b) bs \<Longrightarrow>
   hb_posts (run_heartbeat J U bs h) @ [hb_id (run_heartbeat J U bs h)]
     = hb_posts h @ hb_id h # map (next_id J U) bs"
proof (induction bs arbitrary: h)
  case (Cons b bs)
  have "hb_running (heartbeat_beat J U h b)" "hb_posts (heartbeat_beat J U h b) = hb_posts h @ [hb_id h]"
    "hb_id (heartbeat_beat J U h b) = next_id J U b"
    using Cons.prems by (auto simp: heartbeat_beat_def next_id_def Let_def split: beat_answer.splits)
  with Cons.IH [of "heartbeat_beat J U h b"] Cons.prems show ?case by (simp add: run_heartbeat_def)
qed (simp add: run_heartbeat_def)

text \<open>The engine's part of an event.\<close>

definition engine_beat :: "engine \<Rightarrow> ingestor_event \<Rightarrow> engine" where
  "engine_beat e ev = (case ev of EvHeartbeat success latency \<Rightarrow> ev_heartbeat success latency e | _ \<Rightarrow> e)"

lemma ev_heartbeat_failures: "en_hb_failures (ev_heartbeat s l e) = (if s then 0 else en_hb_failures e + 1)"
  by (simp add: ev_heartbeat_def Let_def split_beta)

lemma beats_count:
  assumes "list_all be_room bs" and "en_hb_failures e = hb_failures h"
  shows "\<exists>evs. hb_events (run_heartbeat J U bs h) = hb_events h @ evs
    \<and> en_hb_failures (foldl engine_beat e evs) = hb_failures (run_heartbeat J U bs h)"
  using assms
proof (induction bs arbitrary: h e)
  case (Cons b bs)
  have "\<exists>evs. hb_events (heartbeat_beat J U h b) = hb_events h @ evs
      \<and> en_hb_failures (foldl engine_beat e evs) = hb_failures (heartbeat_beat J U h b)"
  proof (cases "hb_running h \<and> \<not> be_shutdown b")
    case True
    then show ?thesis using Cons.prems
      by (cases "be_answer b") (auto simp: heartbeat_beat_def engine_beat_def ev_heartbeat_failures Let_def)
  qed (use Cons.prems in \<open>auto simp: heartbeat_beat_def\<close>)
  then obtain evs where evs: "hb_events (heartbeat_beat J U h b) = hb_events h @ evs"
      "en_hb_failures (foldl engine_beat e evs) = hb_failures (heartbeat_beat J U h b)" by blast
  from Cons.IH [OF _ evs(2)] Cons.prems obtain evs' where
    "hb_events (run_heartbeat J U bs (heartbeat_beat J U h b)) = hb_events (heartbeat_beat J U h b) @ evs'"
    "en_hb_failures (foldl engine_beat (foldl engine_beat e evs) evs') = hb_failures (run_heartbeat J U bs (heartbeat_beat J U h b))"
    by auto
  with evs show ?case by (intro exI [of _ "evs @ evs'"]) (simp add: run_heartbeat_def)
qed (auto simp: run_heartbeat_def intro: exI [of _ "[]"])

text \<open>
  C21. The heartbeat and the engine agree. As long as the loop runs and the channel has room, each
  beat carries the id of the answer before it, whether that answer was a success or a refusal
  from which an id could be read, and the first one none; and the events, taken by the engine in
  order, leave the engine with exactly the loop's count of failures in a row.
\<close>

theorem heartbeat_protocol:
  assumes "list_all (\<lambda>b. \<not> be_shutdown b \<and> be_room b) bs" and "en_hb_failures e = 0"
  shows "hb_posts (run_heartbeat J U bs heartbeat_new) = take (length bs) (None # map (next_id J U) bs)
    \<and> en_hb_failures (foldl engine_beat e (hb_events (run_heartbeat J U bs heartbeat_new)))
        = hb_failures (run_heartbeat J U bs heartbeat_new)"
proof
  have "hb_posts (run_heartbeat J U bs heartbeat_new) @ [hb_id (run_heartbeat J U bs heartbeat_new)] = None # map (next_id J U) bs"
    using beats_ids [of heartbeat_new bs J U] assms(1) by (simp add: heartbeat_new_def list_all_iff)
  then show "hb_posts (run_heartbeat J U bs heartbeat_new) = take (length bs) (None # map (next_id J U) bs)"
    by (metis append_eq_conv_conj butlast_snoc butlast_conv_take length_Cons length_map diff_Suc_1)
  show "en_hb_failures (foldl engine_beat e (hb_events (run_heartbeat J U bs heartbeat_new)))
      = hb_failures (run_heartbeat J U bs heartbeat_new)"
    using beats_count [of bs e heartbeat_new J U] assms by (simp add: heartbeat_new_def list_all_iff)
qed

lemma heartbeat_protocol_witness:
  "let J = (\<lambda>s. Some (JObj [(''heartbeat_id'', JStr ''u2'')]));
       bs = [\<lparr> be_shutdown = False, be_now_secs = 0, be_answer = BeatOk ''u1'' 7, be_room = True \<rparr>,
             \<lparr> be_shutdown = False, be_now_secs = 5, be_answer = BeatFailed ''400: {x}'', be_room = True \<rparr>,
             \<lparr> be_shutdown = False, be_now_secs = 10, be_answer = BeatFailed ''timeout'', be_room = True \<rparr>,
             \<lparr> be_shutdown = False, be_now_secs = 15, be_answer = BeatFailed ''timeout'', be_room = True \<rparr>]
   in hb_posts (run_heartbeat J Some bs heartbeat_new) = [None, Some ''u1'', Some ''u2'', None]"
proof -
  let ?J = "\<lambda>s. Some (JObj [(''heartbeat_id'', JStr ''u2'')])"
  let ?bs = "[\<lparr> be_shutdown = False, be_now_secs = 0, be_answer = BeatOk ''u1'' 7, be_room = True \<rparr>,
             \<lparr> be_shutdown = False, be_now_secs = 5, be_answer = BeatFailed ''400: {x}'', be_room = True \<rparr>,
             \<lparr> be_shutdown = False, be_now_secs = 10, be_answer = BeatFailed ''timeout'', be_room = True \<rparr>,
             \<lparr> be_shutdown = False, be_now_secs = 15, be_answer = BeatFailed ''timeout'', be_room = True \<rparr>]"
  have "en_hb_failures (engine_new exact_lib bot_default 0) = 0" by (simp add: engine_new_def Let_def)
  moreover have "list_all (\<lambda>b. \<not> be_shutdown b \<and> be_room b) ?bs" by simp
  ultimately have "hb_posts (run_heartbeat ?J Some ?bs heartbeat_new) = take (length ?bs) (None # map (next_id ?J Some) ?bs)"
    using heartbeat_protocol by blast
  moreover have "map (next_id ?J Some) ?bs = [Some ''u1'', Some ''u2'', None, None]"
    by (simp add: next_id_def extract_heartbeat_id_from_error_def rfind_def get_str_def)
  ultimately show ?thesis by simp
qed

lemma find_char_append: "c \<notin> set u \<Longrightarrow> find_char c (u @ c # v) = Some (length u)"
  by (induction u) auto

lemma rfind_append: "c \<notin> set body \<Longrightarrow> rfind c (prefix @ c # body) = Some (length prefix)"
  by (simp add: rfind_def find_char_append)

text \<open>The id of a refusal is found when its body is the last object of the text.\<close>

lemma extract_recovers:
  assumes "CHR ''{'' \<notin> set body" and "J (CHR ''{'' # body) = Some v" and "get_str ''heartbeat_id'' v = Some s"
  shows "extract_heartbeat_id_from_error J U (prefix @ CHR ''{'' # body) = U s"
  using assms by (simp add: extract_heartbeat_id_from_error_def rfind_append)

end
