(* ===== verification/ConfigEditor.thy ===== *)
theory ConfigEditor
  imports Decimal
begin

text \<open>
  The configuration editor, \<open>src/src/control/config_editor.rs\<close>: the parameters that may be set
  with their ranges, the replacement of a value line by line, and the listings of the file. The
  file is its contents (None when it cannot be read); whether the temporary file can be written
  and renamed, and the TOML parser, are arguments.
\<close>

section \<open>Parameters\<close>

record param_spec =
  ps_name :: string
  ps_min :: f64
  ps_max :: f64

definition spec :: "string \<Rightarrow> rat \<Rightarrow> rat \<Rightarrow> param_spec" where
  "spec n lo hi = \<lparr> ps_name = n, ps_min = flit lo, ps_max = flit hi \<rparr>"

definition allowed_params :: "param_spec list" where
  "allowed_params =
    [spec ''rotation.prewarm_lead_secs'' 5 300,
     spec ''fair_value.momentum_weight_basis'' 0 1,
     spec ''fair_value.momentum_weight_cvd'' 0 1,
     spec ''fair_value.momentum_weight_obi'' 0 1,
     spec ''fair_value.max_momentum_adj'' 0 (1 / 10),
     spec ''fair_value.vol_edge_scale'' 0 10,
     spec ''fair_value.time_edge_scale'' 0 10,
     spec ''fair_value.baseline_vol'' (1 / 1000000) (1 / 100),
     spec ''fair_value.vol_ring_capacity'' 10 10000,
     spec ''fair_value.vol_session_capacity'' 100 100000,
     spec ''fair_value.vol_freshness_ms'' 50 5000,
     spec ''fair_value.vol_min_warmup'' 3 100,
     spec ''fair_value.vol_default'' (1 / 1000000) (1 / 100),
     spec ''fair_value.vol_ticks_per_sec'' 1 100,
     spec ''fair_value.tail_compression_factor'' (5 / 10) 1,
     spec ''fair_value.stale_data_edge_penalty'' 0 (1 / 10),
     spec ''fair_value.regime_spike_threshold'' 1 10,
     spec ''fair_value.regime_spike_penalty'' 0 (1 / 10),
     spec ''fair_value.strike_warmup_count'' 1 20,
     spec ''fair_value.basis_halflife_ms'' 10 5000,
     spec ''fair_value.basis_freshness_ms'' 50 5000,
     spec ''fair_value.basis_min'' 0 10,
     spec ''fair_value.basis_saturation'' (1 / 100) 100,
     spec ''fair_value.cvd_fast_halflife_ms'' 10 5000,
     spec ''fair_value.cvd_slow_halflife_ms'' 50 10000,
     spec ''fair_value.cvd_freshness_ms'' 50 5000,
     spec ''fair_value.cvd_min'' 0 10,
     spec ''fair_value.cvd_saturation'' (1 / 100) 100,
     spec ''fair_value.obi_halflife_ms'' 10 5000,
     spec ''fair_value.obi_freshness_ms'' 50 5000,
     spec ''fair_value.obi_min'' 0 1,
     spec ''fair_value.obi_saturation'' (1 / 100) 1,
     spec ''quoting.min_edge'' 0 (1 / 10),
     spec ''quoting.requote_threshold'' 0 (1 / 10),
     spec ''quoting.max_order_size'' 1 100000,
     spec ''quoting.min_order_size'' (1 / 100) 1000,
     spec ''quoting.max_fair_value_extremity'' (5 / 10) (98 / 100),
     spec ''quoting.max_batches'' 1 5,
     spec ''risk_v2.max_unpaired_shares'' 1 100,
     spec ''risk_v2.rotation_quiet_ms'' 0 120000,
     spec ''risk_v2.rebalance_threshold'' 1 1000,
     spec ''risk_v2.rebalance_size'' 1 1000,
     spec ''risk_v2.rebalance_max_pair_cost'' 0 (11 / 10),
     spec ''risk_v2.stale_book_ms'' 50 5000,
     spec ''risk_v2.heartbeat_dead_threshold'' 2 20,
     spec ''risk_v2.binance_stale_event_ms'' 10 1000,
     spec ''risk_v2.buildup_go_dark_threshold'' (1 / 10) 1,
     spec ''risk_v2.buildup_go_live_threshold'' (5 / 100) 1]"

text \<open>The comparisons are those of \<open>f64\<close>.\<close>

definition validate_param :: "'a lib_scheme \<Rightarrow> string \<Rightarrow> string \<Rightarrow> f64 outcome" where
  "validate_param L name value =
     obind (oget (find (\<lambda>s. ps_name s = name) allowed_params) (''unknown parameter: '' @ name)) (\<lambda>s.
     obind (oget (parse_f64 value) (''invalid number: '' @ value)) (\<lambda>v.
     if flt v (ps_min s) \<or> flt (ps_max s) v
     then Err (name @ '' must be between '' @ f_show L (ps_min s) @ '' and '' @ f_show L (ps_max s) @ '' (got '' @ f_show L v @ '')'')
     else Good v))"

section \<open>Replacing a value\<close>

fun f_trunc :: "f64 \<Rightarrow> int" where
  "f_trunc (Fin x) = (if 0 \<le> x then \<lfloor>x\<rfloor> else \<lceil>x\<rceil>)"
| "f_trunc v = 0"

fun f_fract :: "f64 \<Rightarrow> f64" where
  "f_fract (Fin x) = Fin (x - of_int (f_trunc (Fin x)))"
| "f_fract v = NaN"

text \<open>A whole value below \<open>i64::MAX\<close> is written without a decimal point.\<close>

definition value_text :: "'a lib_scheme \<Rightarrow> f64 \<Rightarrow> string" where
  "value_text L v = (if f_fract v = Fin 0 \<and> flt (fabs v) (rnd (2 ^ 63 - 1)) then show_int (f_trunc v) else f_show L v)"

definition find_inline_comment :: "string \<Rightarrow> nat option" where
  "find_inline_comment s = find_char (CHR ''#'') s"

text \<open>The new line, when the line assigns the key.\<close>

definition edit_line :: "string \<Rightarrow> string \<Rightarrow> string \<Rightarrow> string option" where
  "edit_line key value_str line =
     Option.bind (strip_prefix key (trim line)) (\<lambda>after_key.
     Option.bind (strip_prefix ''='' (trim_start after_key)) (\<lambda>after_eq.
       let leading_ws = take (length line - length (trim_start line)) line;
           rest_after_eq = trim_start after_eq;
           inline_comment = (case find_inline_comment rest_after_eq of
               Some hash_pos \<Rightarrow> ''  '' @ trim_start (drop hash_pos rest_after_eq)
             | None \<Rightarrow> [])
       in Some (leading_ws @ key @ '' = '' @ value_str @ inline_comment)))"

definition edit_step :: "string \<Rightarrow> string \<Rightarrow> string \<times> bool \<Rightarrow> string \<Rightarrow> string \<times> bool" where
  "edit_step key value_str st line = (case edit_line key value_str line of
      Some new_line \<Rightarrow> (fst st @ new_line @ [CHR 0x0A], True)
    | None \<Rightarrow> (fst st @ line @ [CHR 0x0A], snd st))"

text \<open>The new contents, or None when no line assigns the key.\<close>

definition edit_text :: "string \<Rightarrow> string \<Rightarrow> string \<Rightarrow> string option" where
  "edit_text key value_str contents =
     (let (output, found) = foldl (edit_step key value_str) ([], False) (str_lines contents)
      in if found then Some output else None)"

text \<open>\<open>Path::with_extension\<close>: the extension of the last component is replaced.\<close>

definition with_extension :: "string \<Rightarrow> string \<Rightarrow> string" where
  "with_extension path ext =
     (let (dir, name) = (case rsplit_once (CHR ''/'') path of Some (d, n) \<Rightarrow> (d @ ''/'', n) | None \<Rightarrow> ([], path));
          stem = (case rsplit_once (CHR ''.'') name of Some (s, e) \<Rightarrow> if s = [] then name else s | None \<Rightarrow> name)
      in dir @ stem @ ''.'' @ ext)"

text \<open>The result and the contents of the file afterwards.\<close>

definition update_config_file :: "'a lib_scheme \<Rightarrow> bool \<Rightarrow> bool \<Rightarrow> string \<Rightarrow> string \<Rightarrow> f64 \<Rightarrow> string option
    \<Rightarrow> unit outcome \<times> string option" where
  "update_config_file L write_ok rename_ok path param_name value file =
     (case file of
        None \<Rightarrow> (Err (''failed to read config file: '' @ path), file)
      | Some contents \<Rightarrow>
        (case split_once (CHR ''.'') param_name of
           None \<Rightarrow> (Err (''invalid param format: '' @ param_name), file)
         | Some (section, key) \<Rightarrow>
           (case edit_text key (value_text L value) contents of
              None \<Rightarrow> (Err (''parameter '' @ [CHR 0x27] @ key @ [CHR 0x27] @ '' not found in config file''), file)
            | Some output \<Rightarrow>
                if \<not> write_ok then (Err (''failed to write temp config: '' @ with_extension path ''toml.tmp''), file)
                else if \<not> rename_ok then (Err (''failed to rename temp config to '' @ path), file)
                else (Good (), Some output))))"

section \<open>Listings\<close>

text \<open>A parsed file. The text of an array or a date is its own \<open>Display\<close>.\<close>

datatype toml = TInt int | TFloat f64 | TStr string | TBool bool | TTable "(string \<times> toml) list" | TOther string

fun as_table :: "toml \<Rightarrow> (string \<times> toml) list option" where
  "as_table (TTable kvs) = Some kvs"
| "as_table v = None"

text \<open>\<open>t_show\<close> prints a nested table.\<close>

fun format_toml_value :: "'a lib_scheme \<Rightarrow> (toml \<Rightarrow> string) \<Rightarrow> toml \<Rightarrow> string" where
  "format_toml_value L t_show (TInt i) = show_int i"
| "format_toml_value L t_show (TFloat f) = f_show L f"
| "format_toml_value L t_show (TStr s) = [CHR 0x22] @ s @ [CHR 0x22]"
| "format_toml_value L t_show (TBool b) = (if b then ''true'' else ''false'')"
| "format_toml_value L t_show (TOther s) = s"
| "format_toml_value L t_show v = t_show v"

definition list_entries :: "'a lib_scheme \<Rightarrow> (toml \<Rightarrow> string) \<Rightarrow> string \<Rightarrow> (string \<times> toml) list \<Rightarrow> string" where
  "list_entries L t_show section table = concat (map (\<lambda>(key, v).
     ''  '' @ section @ ''.'' @ key @ '' = '' @ format_toml_value L t_show v @ [CHR 0x0A]) table)"

definition parse_file :: "(string \<Rightarrow> toml option) \<Rightarrow> string \<Rightarrow> string option \<Rightarrow> toml outcome" where
  "parse_file toml_parse path file =
     obind (oget file (''failed to read config file: '' @ path)) (\<lambda>contents.
     oget (toml_parse contents) (''failed to parse TOML: '' @ path))"

definition read_config_section :: "'a lib_scheme \<Rightarrow> (toml \<Rightarrow> string) \<Rightarrow> (string \<Rightarrow> toml option) \<Rightarrow> string \<Rightarrow> string
    \<Rightarrow> string option \<Rightarrow> string outcome" where
  "read_config_section L t_show toml_parse path section file =
     obind (parse_file toml_parse path file) (\<lambda>doc.
     obind (oget (Option.bind (Option.bind (as_table doc) (\<lambda>kvs. map_of kvs section)) as_table)
              (''section ['' @ section @ ''] not found'')) (\<lambda>table.
     Good (''['' @ section @ '']'' @ [CHR 0x0A] @ list_entries L t_show section table)))"

definition read_config_all :: "'a lib_scheme \<Rightarrow> (toml \<Rightarrow> string) \<Rightarrow> (string \<Rightarrow> toml option) \<Rightarrow> string
    \<Rightarrow> string option \<Rightarrow> string outcome" where
  "read_config_all L t_show toml_parse path file =
     obind (parse_file toml_parse path file) (\<lambda>doc.
     Good (case as_table doc of None \<Rightarrow> [] | Some table \<Rightarrow>
       concat (map (\<lambda>(section_name, item). case as_table item of None \<Rightarrow> []
         | Some inner \<Rightarrow> ''['' @ section_name @ '']'' @ [CHR 0x0A] @ list_entries L t_show section_name inner @ [CHR 0x0A]) table)))"

end
