(* ===== verification/TextLines.thy ===== *)
theory TextLines
  imports RustText
begin

text \<open>
  Facts about the text functions that several components share: the lines of a text and their
  inverse, trimming, and the digits of a printed integer.
\<close>

lemma ws_chars [simp]: "is_ws CHR '' ''" "\<not> is_ws CHR ''#''" "\<not> is_ws CHR ''=''" "is_ws CHR 0x0A" "is_ws CHR 0x0D"
  by (simp_all add: is_ws_def)

section \<open>Lines of a file\<close>

lemma split_char_subset: "f \<in> set (split_char c s) \<Longrightarrow> set f \<subseteq> set s"
proof (induction s arbitrary: f)
  case (Cons a s)
  obtain g gs where g: "split_char c s = g # gs" by (cases "split_char c s") auto
  show ?case using Cons.prems Cons.IH [of g] Cons.IH [of f] by (auto simp: g split: if_splits)
qed simp

lemma str_lines_clean:
  assumes "l \<in> set (str_lines s)" shows "CHR 0x0A \<notin> set l" and "CHR 0x0D \<notin> set s \<Longrightarrow> CHR 0x0D \<notin> set l"
proof -
  let ?fs = "split_char (CHR 0x0A) s"
  have sub: "f \<in> set ?fs \<Longrightarrow> set f \<subseteq> set s" for f by (rule split_char_subset)
  have "set (strip_cr f) \<subseteq> set f" for f by (auto simp: strip_cr_def dest: in_set_butlastD)
  moreover from assms have "l \<in> strip_cr ` set ?fs \<or> l \<in> set ?fs"
    by (auto simp: str_lines_def Let_def split: if_splits dest: in_set_butlastD)
  ultimately obtain f where f: "f \<in> set ?fs" "set l \<subseteq> set f" by auto
  with split_char_fields [of f "CHR 0x0A" s] sub [of f] show "CHR 0x0A \<notin> set l" "CHR 0x0D \<notin> set s \<Longrightarrow> CHR 0x0D \<notin> set l" by auto
qed

definition unlines :: "string list \<Rightarrow> string" where
  "unlines ls = concat (map (\<lambda>l. l @ [CHR 0x0A]) ls)"

lemma split_unlines: "list_all (\<lambda>l. CHR 0x0A \<notin> set l) ls \<Longrightarrow> split_char (CHR 0x0A) (unlines ls) = ls @ [[]]"
  by (induction ls) (simp_all add: unlines_def split_char_append split_char_free)

lemma lines_unlines:
  assumes "list_all (\<lambda>l. CHR 0x0A \<notin> set l \<and> (l = [] \<or> last l \<noteq> CHR 0x0D)) ls" shows "str_lines (unlines ls) = ls"
proof -
  have s: "split_char (CHR 0x0A) (unlines ls) = ls @ [[]]" using assms by (intro split_unlines) (auto simp: list_all_iff)
  have "strip_cr l = l" if "l \<in> set ls" for l using that assms by (auto simp: strip_cr_def list_all_iff)
  then show ?thesis by (simp add: str_lines_def s Let_def map_idI)
qed

section \<open>Trimming\<close>

definition trimmed :: "string \<Rightarrow> bool" where
  "trimmed s \<longleftrightarrow> (s \<noteq> [] \<longrightarrow> \<not> is_ws (hd s) \<and> \<not> is_ws (last s))"

lemma trimmed_trim: "trimmed (trim s)"
proof -
  have "\<not> is_ws (hd (rev (dropWhile is_ws (rev t))))" if h: "t = dropWhile is_ws s" "rev (dropWhile is_ws (rev t)) \<noteq> []" for t
  proof -
    have "t \<noteq> []" using h(2) by auto
    then have "\<not> is_ws (hd t)" using h(1) hd_dropWhile [of is_ws s] by simp
    moreover have "hd (rev (dropWhile is_ws (rev t))) = hd t"
    proof -
      have "rev t = takeWhile is_ws (rev t) @ dropWhile is_ws (rev t)" by simp
      then have "t = rev (dropWhile is_ws (rev t)) @ rev (takeWhile is_ws (rev t))" by (metis rev_append rev_rev_ident)
      with h(2) show ?thesis by (metis hd_append2)
    qed
    ultimately show ?thesis by simp
  qed
  moreover have "dropWhile is_ws u \<noteq> [] \<Longrightarrow> \<not> is_ws (last (rev (dropWhile is_ws u)))" for u
    using hd_dropWhile [of is_ws u] by (simp add: last_rev)
  ultimately show ?thesis by (auto simp: trimmed_def trim_def trim_end_def trim_start_def)
qed

lemma dropWhile_ws: "list_all is_ws w \<Longrightarrow> dropWhile is_ws (w @ s) = dropWhile is_ws s"
  by (induction w) auto

lemma trim_start_ws: "list_all is_ws w \<Longrightarrow> (s = [] \<or> \<not> is_ws (hd s)) \<Longrightarrow> trim_start (w @ s) = s"
  using dropWhile_ws [of w s] by (cases s) (auto simp: trim_start_def)

lemma trim_ws: assumes "list_all is_ws w" "trimmed s" shows "trim (w @ s) = s"
proof -
  have "trim_start (w @ s) = s" using assms by (intro trim_start_ws) (auto simp: trimmed_def)
  moreover have "dropWhile is_ws (rev s) = rev s" using assms(2) by (cases s rule: rev_cases) (auto simp: trimmed_def)
  ultimately show ?thesis by (simp add: trim_def trim_end_def)
qed

lemma trim_all: assumes "list_all is_ws w" "list_all is_ws u" "trimmed s" shows "trim (w @ s @ u) = s"
proof (cases "s = []")
  case False
  have ts: "trim_start (w @ s @ u) = s @ u" using assms False by (intro trim_start_ws) (auto simp: trimmed_def)
  have "list_all is_ws (rev u)" using assms(2) by simp
  then have "dropWhile is_ws (rev (s @ u)) = dropWhile is_ws (rev s)" by (simp add: dropWhile_ws)
  also have "\<dots> = rev s" using assms(3) False by (cases s rule: rev_cases) (auto simp: trimmed_def)
  finally show ?thesis by (simp add: trim_def trim_end_def ts)
next
  case True
  have "\<forall>x \<in> set (w @ u). is_ws x" using assms by (auto simp: list_all_iff)
  then have e: "dropWhile is_ws (w @ u) = []" by (simp only: dropWhile_eq_Nil_conv)
  show ?thesis unfolding True append_Nil trim_def trim_end_def trim_start_def e by simp
qed

lemma leading_ws: "take (length l - length (trim_start l)) l = takeWhile is_ws l"
  by (metis append_take_drop_id takeWhile_dropWhile_id append_eq_conv_conj length_append add_diff_cancel_right' trim_start_def)

lemma trim_start_hd: "trim_start s = [] \<or> \<not> is_ws (hd (trim_start s))"
  unfolding trim_start_def using hd_dropWhile by blast

lemma trim_start_last: "trim_start s \<noteq> [] \<Longrightarrow> last (trim_start s) = last s"
  unfolding trim_start_def by (metis last_appendR takeWhile_dropWhile_id)

section \<open>Decimal texts\<close>

lemma digits_fold: "foldl (\<lambda>n c. 10 * n + digit_val c) n s = n * 10 ^ length s + digits_val s"
proof (induction s rule: rev_induct)
  case (snoc c s)
  then show ?case by (simp add: digits_val_def algebra_simps)
qed (simp add: digits_val_def)

lemma digits_val_append: "digits_val (a @ b) = digits_val a * 10 ^ length b + digits_val b"
  using digits_fold [of "digits_val a" b] by (simp add: digits_val_def)

lemma digits_val_zeros: "digits_val (replicate n CHR ''0'' @ s) = digits_val s"
proof -
  have "digits_val (replicate n CHR ''0'') = 0"
    by (induction n) (simp_all add: digits_val_append [of "[CHR ''0'']", simplified] digits_val_def digit_val_def)
  then show ?thesis by (simp add: digits_val_append)
qed

lemma digit_cases:
  assumes "0 \<le> (m::int)" "m < 10"
  shows "is_digit (char_of (48 + m))" and "digits_val [char_of (48 + m)] = m"
proof -
  have "m = 0 \<or> m = 1 \<or> m = 2 \<or> m = 3 \<or> m = 4 \<or> m = 5 \<or> m = 6 \<or> m = 7 \<or> m = 8 \<or> m = 9" using assms by presburger
  then show "is_digit (char_of (48 + m))" and "digits_val [char_of (48 + m)] = m"
    by (auto simp: is_digit_def digits_val_def digit_val_def; code_simp)+
qed

lemma int_digits_val:
  "0 \<le> n \<Longrightarrow> digits_val (int_digits n) = n \<and> list_all is_digit (int_digits n) \<and> int_digits n \<noteq> []"
proof (induction n rule: int_digits.induct)
  case (1 n)
  show ?case
  proof (cases "n < 10")
    case True
    with 1 digit_cases [of n] show ?thesis by (simp add: int_digits.simps [of n])
  next
    case False
    with 1 digit_cases [of "n mod 10"] show ?thesis
      by (simp add: int_digits.simps [of n] digits_val_append del: of_nat_mod of_nat_div)
  qed
qed

lemma int_digits_length: "0 \<le> n \<Longrightarrow> n < 10 ^ k \<Longrightarrow> 0 < k \<Longrightarrow> length (int_digits n) \<le> k"
proof (induction n arbitrary: k rule: int_digits.induct)
  case (1 n)
  show ?case
  proof (cases "n < 10")
    case False
    then obtain k' where k: "k = Suc k'" "0 < k'" using 1 by (cases k; cases "k - 1") auto
    have "n div 10 < 10 ^ k'" using 1(3) by (simp add: k div_less_iff_less_mult)
    with 1 False k show ?thesis by (simp add: int_digits.simps [of n])
  qed (use 1 in \<open>simp add: int_digits.simps [of n]\<close>)
qed

end
