(* ===== verification/ConfigEditorProps.thy ===== *)
theory ConfigEditorProps
  imports ConfigEditor TextLines
begin

text \<open>
  What the configuration editor does to a file: a reader of the lines (\<open>line_value\<close>,
  \<open>line_comment\<close>) describes the contents before and after an edit. The range check of the
  parameters.
\<close>

section \<open>A line that assigns a key\<close>

text \<open>What a reader finds on a line: the value it gives to the key, without the comment.\<close>

definition line_value :: "string \<Rightarrow> string \<Rightarrow> string option" where
  "line_value key line =
     Option.bind (strip_prefix key (trim line)) (\<lambda>a.
     Option.bind (strip_prefix ''='' (trim_start a)) (\<lambda>b. Some (trim (takeWhile (\<lambda>c. c \<noteq> CHR ''#'') b))))"

definition line_comment :: "string \<Rightarrow> string" where
  "line_comment line = dropWhile (\<lambda>c. c \<noteq> CHR ''#'') (trim line)"

text \<open>A text that can stand as a value, a key, and a comment with the blanks before it.\<close>

definition plain :: "string \<Rightarrow> bool" where
  "plain v \<longleftrightarrow> v \<noteq> [] \<and> list_all (\<lambda>c. c \<noteq> CHR ''#'' \<and> \<not> is_ws c) v"

definition tail_ok :: "string \<Rightarrow> bool" where
  "tail_ok t \<longleftrightarrow> t = [] \<or> (\<exists>c. t = ''  '' @ CHR ''#'' # c \<and> \<not> is_ws (last (CHR ''#'' # c)))"

lemma find_char_eq: "find_char c s = (if c \<in> set s then Some (length (takeWhile (\<lambda>x. x \<noteq> c) s)) else None)"
  by (induction s) auto

lemma drop_takeWhile: "drop (length (takeWhile P s)) s = dropWhile P s"
  by (induction s) auto

lemma hash_free:
  "c \<notin> set v \<Longrightarrow> takeWhile (\<lambda>x. x \<noteq> c) (v @ r) = v @ takeWhile (\<lambda>x. x \<noteq> c) r"
  "c \<notin> set v \<Longrightarrow> dropWhile (\<lambda>x. x \<noteq> c) (v @ r) = dropWhile (\<lambda>x. x \<noteq> c) r"
  by (induction v) auto

lemma comment_part:
  "(case find_inline_comment s of Some p \<Rightarrow> ''  '' @ trim_start (drop p s) | None \<Rightarrow> [])
     = (if CHR ''#'' \<in> set s then ''  '' @ dropWhile (\<lambda>c. c \<noteq> CHR ''#'') s else [])"
proof -
  have "trim_start (dropWhile (\<lambda>c. c \<noteq> CHR ''#'') s) = dropWhile (\<lambda>c. c \<noteq> CHR ''#'') s" if "CHR ''#'' \<in> set s"
  proof -
    have ne: "dropWhile (\<lambda>c. c \<noteq> CHR ''#'') s \<noteq> []" using that by (simp add: dropWhile_eq_Nil_conv)
    then have "hd (dropWhile (\<lambda>c. c \<noteq> CHR ''#'') s) = CHR ''#''" using hd_dropWhile [OF ne] by simp
    then show ?thesis using ne by (cases "dropWhile (\<lambda>c. c \<noteq> CHR ''#'') s") (auto simp: trim_start_def)
  qed
  then show ?thesis by (simp add: find_inline_comment_def find_char_eq drop_takeWhile)
qed

text \<open>The shape of an edited line.\<close>

lemma plain_trim: assumes "plain v" "tail_ok t" "k = [] \<or> \<not> is_ws (hd k)" "k \<noteq> []"
  shows "trimmed (k @ '' = '' @ v @ t)"
proof -
  have "\<not> is_ws (last v)" using assms(1) by (auto simp: plain_def list_all_iff)
  then show ?thesis using assms by (auto simp: trimmed_def tail_ok_def plain_def)
qed

lemma edited_value:
  assumes "plain v" "tail_ok t" "k \<noteq> []" "\<not> is_ws (hd k)" "list_all is_ws w"
  shows "line_value k (w @ k @ '' = '' @ v @ t) = Some v"
    and "edit_line k v' (w @ k @ '' = '' @ v @ t) = Some (w @ k @ '' = '' @ v' @ t)"
proof -
  have tr: "trim (w @ k @ '' = '' @ v @ t) = k @ '' = '' @ v @ t" using assms by (intro trim_ws plain_trim) auto
  have nh: "CHR ''#'' \<notin> set v" and vh: "\<not> is_ws (hd v)" and vl: "\<not> is_ws (last v)" and vn: "v \<noteq> []"
    using assms(1) by (auto simp: plain_def list_all_iff)
  have s1: "trim_start ('' = '' @ v @ t) = ''= '' @ v @ t" by (simp add: trim_start_def)
  have s2: "trim_start ('' '' @ v @ t) = v @ t" using vn vh by (cases v) (auto simp: trim_start_def)
  have tk: "takeWhile (\<lambda>c. c \<noteq> CHR ''#'') ('' '' @ v @ t) = (if t = [] then '' '' @ v else '' '' @ v @ ''  '')"
    using nh assms(2) by (auto simp: tail_ok_def hash_free takeWhile_eq_all_conv)
  have tv: "trim ('' '' @ v) = v" "trim ('' '' @ v @ ''  '') = v"
    using trim_all [of "'' ''" "[]" v] trim_all [of "'' ''" "''  ''" v] vh vl by (simp_all add: trimmed_def)
  have "strip_prefix ''='' (''= '' @ v @ t) = Some ('' '' @ v @ t)" by (simp add: strip_prefix_def starts_with_def)
  with tr s1 tk tv show "line_value k (w @ k @ '' = '' @ v @ t) = Some v" by (simp add: line_value_def)
  have lead: "takeWhile is_ws (w @ k @ '' = '' @ v @ t) = w" using assms by (cases k) (auto simp: takeWhile_append2 list_all_iff)
  have c: "(if CHR ''#'' \<in> set (v @ t) then ''  '' @ dropWhile (\<lambda>c. c \<noteq> CHR ''#'') (v @ t) else []) = t"
    using nh assms(2) by (auto simp: tail_ok_def hash_free dropWhile_eq_Nil_conv)
  from \<open>strip_prefix ''='' _ = _\<close> show "edit_line k v' (w @ k @ '' = '' @ v @ t) = Some (w @ k @ '' = '' @ v' @ t)"
    unfolding edit_line_def comment_part leading_ws lead tr using s1 s2 c by simp
qed

text \<open>Every edited line has that shape, with the blanks and the comment of the original.\<close>

lemma edit_line_shape:
  assumes "edit_line k v l = Some l'" "k \<noteq> []" "\<not> is_ws (hd k)" "CHR ''#'' \<notin> set k"
  obtains w t where "l' = w @ k @ '' = '' @ v @ t" "list_all is_ws w" "tail_ok t"
    "dropWhile (\<lambda>c. c \<noteq> CHR ''#'') t = line_comment l" "set w \<subseteq> set l" "set t \<subseteq> insert CHR '' '' (set l)"
    "\<forall>v'. edit_line k v' l = Some (w @ k @ '' = '' @ v' @ t)"
proof -
  from assms(1) obtain a b where a: "trim l = k @ a" and b: "trim_start a = CHR ''='' # b"
    and l': "l' = takeWhile is_ws l @ k @ '' = '' @ v @ (if CHR ''#'' \<in> set (trim_start b)
      then ''  '' @ dropWhile (\<lambda>c. c \<noteq> CHR ''#'') (trim_start b) else [])"
    by (auto simp: edit_line_def leading_ws comment_part Let_def strip_prefix_Some bind_eq_Some_conv)
  let ?c = "dropWhile (\<lambda>c. c \<noteq> CHR ''#'') (trim_start b)"
  let ?t = "if CHR ''#'' \<in> set (trim_start b) then ''  '' @ ?c else []"
  have skip: "dropWhile (\<lambda>c. c \<noteq> CHR ''#'') (trim_start s) = dropWhile (\<lambda>c. c \<noteq> CHR ''#'') s" for s
    unfolding trim_start_def by (induction s) (auto simp: is_ws_def)
  have comment: "line_comment l = ?c"
    using assms(4) skip [of a] by (simp add: line_comment_def a hash_free skip b)
  have sub: "set (trim_start s) \<subseteq> set s" for s by (auto simp: trim_start_def dest: set_dropWhileD)
  have "set (trim l) \<subseteq> set l" by (auto simp: trim_def trim_end_def trim_start_def dest!: set_dropWhileD)
  then have "set (trim_start b) \<subseteq> set l" using sub [of b] sub [of a] a b by auto
  then have tset: "set ?t \<subseteq> insert CHR '' '' (set l)" by (auto dest: set_dropWhileD)
  have tail: "tail_ok ?t"
  proof (cases "CHR ''#'' \<in> set (trim_start b)")
    case True
    then have ne: "?c \<noteq> []" by (simp add: dropWhile_eq_Nil_conv)
    then have h: "hd ?c = CHR ''#''" using hd_dropWhile [OF ne] by simp
    have ts: "s = takeWhile is_ws s @ trim_start s" for s by (simp add: trim_start_def)
    have "trim_start b = takeWhile (\<lambda>c. c \<noteq> CHR ''#'') (trim_start b) @ ?c" by simp
    then obtain y where "b = y @ ?c" by (metis append_assoc ts)
    then obtain x where "trim l = x @ ?c" by (metis a append_Cons append_assoc b ts)
    then have "last ?c = last (trim l)" using ne by simp
    moreover have "\<not> is_ws (last (trim l))" using trimmed_trim [of l] a assms(2) by (auto simp: trimmed_def)
    ultimately show ?thesis using True ne h by (cases ?c) (auto simp: tail_ok_def)
  qed (simp add: tail_ok_def)
  have tc: "dropWhile (\<lambda>c. c \<noteq> CHR ''#'') ?t = line_comment l" 
  proof (cases "CHR ''#'' \<in> set (trim_start b)")
    case False
    then have e: "?c = []" by (auto simp: dropWhile_eq_Nil_conv)
    show ?thesis by (simp only: False if_False comment dropWhile.simps e)
  qed (simp add: comment)
  have other: "\<forall>v'. edit_line k v' l = Some (takeWhile is_ws l @ k @ '' = '' @ v' @ ?t)"
    by (simp add: edit_line_def leading_ws comment_part Let_def a b strip_prefix_def starts_with_def)
  show thesis using that [OF l' _ tail tc _ tset other] by (auto simp: list_all_iff dest: set_takeWhileD)
qed

section \<open>The whole file\<close>

text \<open>The loop replaces the lines that assign the key and keeps every other one.\<close>

definition edit_of :: "string \<Rightarrow> string \<Rightarrow> string \<Rightarrow> string" where
  "edit_of key v l = (case edit_line key v l of Some l' \<Rightarrow> l' | None \<Rightarrow> l)"

lemma edit_line_value: "edit_line k v l = None \<longleftrightarrow> line_value k l = None"
  by (auto simp: edit_line_def line_value_def Let_def bind_eq_None_conv)

lemma edit_fold:
  "foldl (edit_step key v) (out, found) ls
     = (out @ unlines (map (edit_of key v) ls), found \<or> list_ex (\<lambda>l. line_value key l \<noteq> None) ls)"
proof (induction ls arbitrary: out found)
  case (Cons l ls)
  have "edit_step key v (out, found) l = (out @ edit_of key v l @ [CHR 0x0A], found \<or> line_value key l \<noteq> None)"
    using edit_line_value [of key v l] by (cases "edit_line key v l") (simp_all add: edit_step_def edit_of_def)
  moreover have "unlines (l' # ls') = l' @ [CHR 0x0A] @ unlines ls'" for l' ls' by (simp add: unlines_def)
  ultimately show ?case by (simp add: Cons del: not_None_eq)
qed (simp add: unlines_def)

lemma edit_text_eq:
  "edit_text key v c = (if list_ex (\<lambda>l. line_value key l \<noteq> None) (str_lines c)
     then Some (unlines (map (edit_of key v) (str_lines c))) else None)"
  by (simp add: edit_text_def edit_fold)

text \<open>A name without the characters that end or comment a line.\<close>

definition key_ok :: "string \<Rightarrow> bool" where
  "key_ok k \<longleftrightarrow> k \<noteq> [] \<and> \<not> is_ws (hd k) \<and> list_all (\<lambda>c. c \<notin> {CHR ''#'', CHR 0x0A, CHR 0x0D}) k"

lemma edit_of_line:
  assumes "key_ok k" "plain v" "CHR 0x0D \<notin> set l" "CHR 0x0A \<notin> set l"
  shows "CHR 0x0D \<notin> set (edit_of k v l)" and "CHR 0x0A \<notin> set (edit_of k v l)"
    and "line_value k (edit_of k v l) = (if line_value k l = None then None else Some v)"
    and "edit_of k v' (edit_of k v l) = edit_of k v' l"
    and "line_value k l \<noteq> None \<Longrightarrow> line_comment (edit_of k v l) = line_comment l"
proof -
  have k: "k \<noteq> []" "\<not> is_ws (hd k)" "CHR ''#'' \<notin> set k" "CHR 0x0A \<notin> set k" "CHR 0x0D \<notin> set k"
    using assms(1) unfolding key_ok_def list_all_iff by blast+
  have v: "CHR 0x0A \<notin> set v" "CHR 0x0D \<notin> set v" "CHR ''#'' \<notin> set v" using assms(2) ws_chars unfolding plain_def list_all_iff by blast+
  have "CHR 0x0D \<notin> set (edit_of k v l) \<and> CHR 0x0A \<notin> set (edit_of k v l)
    \<and> line_value k (edit_of k v l) = (if line_value k l = None then None else Some v)
    \<and> edit_of k v' (edit_of k v l) = edit_of k v' l
    \<and> (line_value k l \<noteq> None \<longrightarrow> line_comment (edit_of k v l) = line_comment l)"
  proof (cases "edit_line k v l")
    case None
    with assms edit_line_value [of k v l] edit_line_value [of k v' l] show ?thesis by (simp add: edit_of_def)
  next
    case (Some l')
    obtain w t where s: "l' = w @ k @ '' = '' @ v @ t" "list_all is_ws w" "tail_ok t"
      "dropWhile (\<lambda>c. c \<noteq> CHR ''#'') t = line_comment l" "set w \<subseteq> set l" "set t \<subseteq> insert CHR '' '' (set l)"
      "\<forall>v'. edit_line k v' l = Some (w @ k @ '' = '' @ v' @ t)"
      using edit_line_shape [OF Some k(1-3)] by blast
    have l': "edit_of k v l = l'" using Some by (simp add: edit_of_def)
    have ne: "line_value k l \<noteq> None" using Some edit_line_value [of k v l] by simp
    have two: "edit_line k v' l' = Some (w @ k @ '' = '' @ v' @ t)"
      unfolding s(1) by (rule edited_value(2) [OF assms(2) s(3) k(1,2) s(2)])
    have tr: "trim l' = k @ '' = '' @ v @ t" unfolding s(1) by (intro trim_ws plain_trim assms(2) s k) (use k in auto)
    have "line_comment l' = line_comment l" using k v s(4) by (simp add: line_comment_def tr hash_free)
    moreover have "CHR 0x0D \<notin> set l' \<and> CHR 0x0A \<notin> set l'" using s k v assms(3,4) by auto
    moreover have "line_value k l' = Some v" unfolding s(1) by (rule edited_value(1) [OF assms(2) s(3) k(1,2) s(2)])
    ultimately show ?thesis using ne two s(7) by (simp add: l') (simp add: edit_of_def)
  qed
  then show "CHR 0x0D \<notin> set (edit_of k v l)" "CHR 0x0A \<notin> set (edit_of k v l)"
    "line_value k (edit_of k v l) = (if line_value k l = None then None else Some v)"
    "edit_of k v' (edit_of k v l) = edit_of k v' l"
    "line_value k l \<noteq> None \<Longrightarrow> line_comment (edit_of k v l) = line_comment l" by blast+
qed

lemma edit_text_lines:
  assumes "edit_text k v c = Some c'" "key_ok k" "plain v" "CHR 0x0D \<notin> set c"
  shows "str_lines c' = map (edit_of k v) (str_lines c)" and "list_ex (\<lambda>l. line_value k l \<noteq> None) (str_lines c)"
proof -
  have cl: "CHR 0x0D \<notin> set l" "CHR 0x0A \<notin> set l" if "l \<in> set (str_lines c)" for l
    using str_lines_clean [OF that] assms(4) by auto
  then show "str_lines c' = map (edit_of k v) (str_lines c)" using assms edit_of_line(1,2) [OF assms(2,3)]
    by (auto simp: edit_text_eq list_all_iff split: if_splits intro!: lines_unlines) (metis last_in_set)
  show "list_ex (\<lambda>l. line_value k l \<noteq> None) (str_lines c)" using assms(1) by (simp add: edit_text_eq split: if_splits)
qed

text \<open>
  Editing a value. After an edit the lines are those of the file before, one for one: a line
  that assigns the key reads the new value and keeps its comment, every other line is unchanged.
  A second edit of the same key leaves exactly what it alone would have left. An edit is refused
  exactly when no line assigns the key.
\<close>

lemma edit_text_exact:
  assumes "key_ok k" "plain v" "CHR 0x0D \<notin> set c"
  shows "(edit_text k v c = None \<longleftrightarrow> list_all (\<lambda>l. line_value k l = None) (str_lines c))
    \<and> (\<forall>c'. edit_text k v c = Some c' \<longrightarrow>
        list_all2 (\<lambda>l l'. if line_value k l = None then l' = l
                          else line_value k l' = Some v \<and> line_comment l' = line_comment l) (str_lines c) (str_lines c')
        \<and> edit_text k v' c' = edit_text k v' c)"
proof (intro conjI allI impI)
  show "edit_text k v c = None \<longleftrightarrow> list_all (\<lambda>l. line_value k l = None) (str_lines c)"
    by (auto simp: edit_text_eq list_all_iff list_ex_iff)
next
  fix c' assume e: "edit_text k v c = Some c'"
  note ls = edit_text_lines [OF e assms]
  have cl: "CHR 0x0D \<notin> set l" "CHR 0x0A \<notin> set l" if "l \<in> set (str_lines c)" for l
    using str_lines_clean [OF that] assms(3) by auto
  note each = edit_of_line [OF assms(1,2) cl]
  have un: "line_value k l = None \<Longrightarrow> edit_of k v l = l" for l using edit_line_value [of k v l] by (simp add: edit_of_def)
  show "list_all2 (\<lambda>l l'. if line_value k l = None then l' = l
      else line_value k l' = Some v \<and> line_comment l' = line_comment l) (str_lines c) (str_lines c')"
    unfolding ls(1) list.rel_map by (rule list.rel_refl_strong) (use each(3,5) un in simp)
  have "map (edit_of k v') (str_lines c') = map (edit_of k v') (str_lines c)" using each(4) by (simp add: ls(1))
  moreover have "list_ex (\<lambda>l. line_value k l \<noteq> None) (str_lines c')"
    using ls(2) each(3) by (auto simp: list_ex_iff ls(1))
  ultimately show "edit_text k v' c' = edit_text k v' c" using ls(2) by (simp add: edit_text_eq)
qed

section \<open>Setting a parameter\<close>

lemma digit_plain: "is_digit c \<Longrightarrow> c \<noteq> CHR ''#'' \<and> \<not> is_ws c"
  by (auto simp: is_digit_def is_ws_def less_eq_char_def)

lemma show_int_plain: "plain (show_int n)"
proof -
  have "list_all (\<lambda>c. c \<noteq> CHR ''#'' \<and> \<not> is_ws c) (int_digits m) \<and> int_digits m \<noteq> []" if "0 \<le> m" for m
    using int_digits_val [OF that] digit_plain by (auto simp: list_all_iff)
  from this [of n] this [of "- n"] show ?thesis by (auto simp: plain_def show_int_def is_ws_def)
qed

lemma value_text_plain: "plain (f_show L v) \<Longrightarrow> plain (value_text L v)"
  by (simp add: value_text_def show_int_plain)

lemma rnd_not_NaN [simp]: "rnd x \<noteq> NaN" "NaN \<noteq> rnd x"
  by (auto simp: rnd_def Let_def)

lemma not_flt: "a \<noteq> NaN \<Longrightarrow> \<not> flt v a \<longleftrightarrow> v = NaN \<or> fle a v"
  by (cases v; cases a) auto

lemma not_flt': "a \<noteq> NaN \<Longrightarrow> \<not> flt a v \<longleftrightarrow> v = NaN \<or> fle v a"
  by (cases v; cases a) auto

text \<open>The table: names without repetition, each a section and a key, with ordered bounds.\<close>

lemma spec_sel [simp]: "ps_name (spec n lo hi) = n" "ps_min (spec n lo hi) = flit lo" "ps_max (spec n lo hi) = flit hi"
  by (simp_all add: spec_def)

lemma allowed_names: "distinct (map ps_name allowed_params)"
  unfolding allowed_params_def list.map spec_sel by code_simp

lemma allowed_keys: "list_all (\<lambda>s. case split_once (CHR ''.'') (ps_name s) of Some (section, key) \<Rightarrow> key_ok key | None \<Rightarrow> False) allowed_params"
  unfolding allowed_params_def list.pred_inject spec_sel by code_simp

lemma allowed_bounds: "s \<in> set allowed_params \<Longrightarrow> ps_min s \<noteq> NaN \<and> ps_max s \<noteq> NaN"
  unfolding allowed_params_def spec_def flit_def by auto

lemma find_distinct: "distinct (map f xs) \<Longrightarrow> x \<in> set xs \<Longrightarrow> find (\<lambda>y. f y = f x) xs = Some x"
  by (induction xs) (auto simp: image_iff)

lemmas find_allowed = find_distinct [OF allowed_names]

lemma flt_NaN [simp]: "\<not> flt a NaN" "\<not> flt NaN a"
  by (cases a; simp)+

text \<open>
  C32. The range check. A parameter is accepted exactly when it is in the table, the text is a
  number, and the number is within the bounds of its entry, or is not a number at all: both
  comparisons fail on NaN.
\<close>

theorem validate_param_exact:
  "validate_param L name value = Good v \<longleftrightarrow>
     (case find (\<lambda>s. ps_name s = name) allowed_params of
        None \<Rightarrow> False
      | Some s \<Rightarrow> parse_f64 value = Some v \<and> (v = NaN \<or> (fle (ps_min s) v \<and> fle v (ps_max s))))"
proof (cases "find (\<lambda>s. ps_name s = name) allowed_params")
  case None
  then show ?thesis by (simp add: validate_param_def)
next
  case (Some s)
  then have "s \<in> set allowed_params" by (auto simp: find_Some_iff)
  note b = allowed_bounds [OF this]
  have "\<not> (flt v (ps_min s) \<or> flt (ps_max s) v) \<longleftrightarrow> v = NaN \<or> (fle (ps_min s) v \<and> fle v (ps_max s))" for v
    using not_flt [of "ps_min s" v] not_flt' [of "ps_max s" v] b by auto
  then show ?thesis by (auto simp: validate_param_def Some obind_eq_Good split: if_splits)
qed

lemma nan_accepted: "list_all (\<lambda>s. validate_param L (ps_name s) ''nan'' = Good NaN) allowed_params"
proof -
  have "parse_f64 ''nan'' = Some NaN" by code_simp
  then show ?thesis by (auto simp: list_all_iff validate_param_def find_allowed)
qed

lemma fraction_accepted: "validate_param L ''quoting.max_batches'' ''2.5'' = Good (Fin (5 / 2))"
proof -
  have "find (\<lambda>s. ps_name s = ''quoting.max_batches'') allowed_params = Some (spec ''quoting.max_batches'' 1 5)"
    unfolding allowed_params_def spec_def by simp
  moreover have "parse_f64 ''2.5'' = Some (Fin (5 / 2))" "\<not> flt (Fin (5 / 2)) (flit 1)" "\<not> flt (flit 5) (Fin (5 / 2))" by code_simp+
  ultimately show ?thesis by (simp add: validate_param_def spec_def)
qed

text \<open>
  C31. Writing a validated parameter. The file is replaced exactly when some line assigns the key
  and both the write and the rename succeed; then, line for line, every assignment of the key
  reads the new value with its comment kept and every other line is the same. In every other
  case the file is left as it was. The section of the parameter plays no part.
\<close>

theorem config_write_exact:
  assumes "validate_param L name value = Good v" and "plain (f_show L v)" and "CHR 0x0D \<notin> set c"
  shows "\<exists>section key. split_once (CHR ''.'') name = Some (section, key) \<and>
    (case update_config_file L write_ok rename_ok path name v (Some c) of
       (Good u, file) \<Rightarrow> write_ok \<and> rename_ok \<and> list_ex (\<lambda>l. line_value key l \<noteq> None) (str_lines c)
         \<and> (\<exists>c'. file = Some c' \<and> list_all2 (\<lambda>l l'. if line_value key l = None then l' = l
              else line_value key l' = Some (value_text L v) \<and> line_comment l' = line_comment l) (str_lines c) (str_lines c'))
     | (_, file) \<Rightarrow> file = Some c
         \<and> \<not> (write_ok \<and> rename_ok \<and> list_ex (\<lambda>l. line_value key l \<noteq> None) (str_lines c)))"
proof -
  obtain s where f: "find (\<lambda>s. ps_name s = name) allowed_params = Some s"
    using assms(1) by (auto simp: validate_param_def obind_eq_Good)
  then have s: "s \<in> set allowed_params" "ps_name s = name" by (auto simp: find_Some_iff)
  then obtain sec key where k: "split_once (CHR ''.'') name = Some (sec, key)" "key_ok key"
    using allowed_keys by (fastforce simp: list_all_iff split: option.splits)
  note e = edit_text_exact [OF k(2) value_text_plain [OF assms(2)] assms(3)]
  show ?thesis using e k(1)
    by (cases "edit_text key (value_text L v) c") (auto simp: update_config_file_def list_ex_iff list_all_iff)
qed

text \<open>
  A parameter in two sections of a file is changed in both, whatever section was named.
\<close>

lemma config_write_exact_witness:
  "\<exists>c'. update_config_file (exact_lib\<lparr> f_show := (\<lambda>x. ''0'') \<rparr>) True True ''config.toml'' ''quoting.min_edge'' (Fin 0)
      (Some (''[a]'' @ [CHR 0x0A] @ ''min_edge = 1 # low'' @ [CHR 0x0A] @ ''[quoting]'' @ [CHR 0x0A] @ ''  min_edge=2'')) = (Good (), Some c')
    \<and> list_all2 (\<lambda>l l'. if line_value ''min_edge'' l = None then l' = l
        else line_value ''min_edge'' l' = Some ''0'' \<and> line_comment l' = line_comment l)
       [''[a]'', ''min_edge = 1 # low'', ''[quoting]'', ''  min_edge=2''] (str_lines c')"
proof -
  let ?c = "''[a]'' @ [CHR 0x0A] @ ''min_edge = 1 # low'' @ [CHR 0x0A] @ ''[quoting]'' @ [CHR 0x0A] @ ''  min_edge=2''"
  have v: "validate_param L ''quoting.min_edge'' ''0'' = Good (Fin 0)" for L :: "'a lib_scheme"
  proof -
    have "find (\<lambda>s. ps_name s = ''quoting.min_edge'') allowed_params = Some (spec ''quoting.min_edge'' 0 (1 / 10))"
      unfolding allowed_params_def spec_def by simp
    moreover have "parse_f64 ''0'' = Some (Fin 0)" "\<not> flt (Fin 0) (flit 0)" "\<not> flt (flit (1 / 10)) (Fin 0)" by code_simp+
    ultimately show ?thesis by (simp add: validate_param_def spec_def)
  qed
  define L where "L = exact_lib\<lparr> f_show := (\<lambda>x. ''0'') \<rparr>"
  have l: "str_lines ?c = [''[a]'', ''min_edge = 1 # low'', ''[quoting]'', ''  min_edge=2'']" by code_simp
  have t: "value_text L (Fin 0) = ''0''" "plain (f_show L (Fin 0))" "CHR 0x0D \<notin> set ?c"
    "split_once (CHR ''.'') ''quoting.min_edge'' = Some (''quoting'', ''min_edge'')"
    "list_ex (\<lambda>l. line_value ''min_edge'' l \<noteq> None) [''[a]'', ''min_edge = 1 # low'', ''[quoting]'', ''  min_edge=2'']"
    unfolding L_def by code_simp+
  obtain r f where u: "update_config_file L True True ''config.toml'' ''quoting.min_edge'' (Fin 0) (Some ?c) = (r, f)" by fastforce
  note h = config_write_exact [OF v t(2,3), of True True "''config.toml''", unfolded u l t(1,4)]
  show ?thesis unfolding L_def [symmetric] u
  proof (cases r)
    case (Good x)
    moreover have "x = ()" by simp
    ultimately show "\<exists>c'. (r, f) = (Good (), Some c') \<and> list_all2 (\<lambda>l l'. if line_value ''min_edge'' l = None then l' = l
        else line_value ''min_edge'' l' = Some ''0'' \<and> line_comment l' = line_comment l)
       [''[a]'', ''min_edge = 1 # low'', ''[quoting]'', ''  min_edge=2''] (str_lines c')"
      using h by (simp only: option.inject prod.inject prod.case outcome.case simp_thms) blast
  qed (use h t(5) in \<open>simp_all only: option.inject prod.inject prod.case outcome.case simp_thms, blast+\<close>)
qed

end
