(* ===== verification/Wallet.thy ===== *)
theory Wallet
  imports Json "HOL-Library.List_Lexorder"
begin

text \<open>
  The wallet commands, \<open>src/src/control/wallet.rs\<close>: the printed amounts, the file of condition ids,
  the redemption of positions and its background task. The environment, the chain, the HTTP
  client and the parsers of the crates are arguments. A file is its contents, None when there is
  none that can be read. Strings are ordered by their bytes, as in Rust.
\<close>

type_synonym u256 = "256 word"

section \<open>Amounts\<close>

text \<open>Formatting with \<open>0\<close> as the fill on the left.\<close>

definition pad_zeros :: "nat \<Rightarrow> string \<Rightarrow> string" where
  "pad_zeros width s = replicate (width - length s) CHR ''0'' @ s"

definition show_u256 :: "u256 \<Rightarrow> string" where
  "show_u256 n = show_int (uint n)"

text \<open>The power is taken in \<open>u64\<close>, where it wraps; a division by zero panics.\<close>

definition pow10 :: "u32 \<Rightarrow> u256" where
  "pow10 d = ucast ((10 :: u64) ^ unat d)"

definition format_token :: "u256 \<Rightarrow> u32 \<Rightarrow> string outcome" where
  "format_token raw decimals =
     (let divisor = pow10 decimals in
      if divisor = 0 then Panic
      else Good (show_u256 (raw div divisor) @ ''.'' @ pad_zeros (unat decimals) (show_u256 (raw mod divisor))))"

definition format_wei :: "u256 \<Rightarrow> u32 \<Rightarrow> string outcome" where
  "format_wei raw display_decimals =
     (let divisor = pow10 18; frac_divisor = pow10 (18 - display_decimals) in
      if frac_divisor = 0 then Panic
      else Good (show_u256 (raw div divisor) @ ''.''
        @ pad_zeros (unat display_decimals) (show_u256 (raw mod divisor div frac_divisor))))"

definition short_id :: "string \<Rightarrow> string outcome" where
  "short_id i = (if 10 < length i
     then obind (str_slice 0 6 i) (\<lambda>a. obind (str_slice (length i - 4) (length i) i) (\<lambda>b. Good (a @ ''...'' @ b)))
     else Good i)"

section \<open>The file of condition ids\<close>

definition read_condition_ids_from_file :: "string option \<Rightarrow> string list" where
  "read_condition_ids_from_file file = (case file of None \<Rightarrow> []
     | Some content \<Rightarrow> remdups_adj (sort (filter (\<lambda>l. length l = 66 \<and> starts_with l ''0x'') (map trim (str_lines content)))))"

record file_io =
  fi_remove_ok :: bool
  fi_write_ok :: bool
  fi_rename_ok :: bool

definition remaining_ids :: "string list \<Rightarrow> string \<Rightarrow> string list" where
  "remaining_ids redeemed content =
     filter (\<lambda>l. l \<noteq> [] \<and> to_lowercase l \<notin> set (map to_lowercase redeemed)) (map trim (str_lines content))"

definition remove_redeemed_ids :: "file_io \<Rightarrow> string list \<Rightarrow> string option \<Rightarrow> string option" where
  "remove_redeemed_ids io redeemed file =
     (if redeemed = [] then file
      else case file of None \<Rightarrow> None
        | Some content \<Rightarrow>
            (let remaining = remaining_ids redeemed content in
             if remaining = [] then (if fi_remove_ok io then None else file)
             else if fi_write_ok io \<and> fi_rename_ok io then Some (join [CHR 0x0A] remaining @ [CHR 0x0A])
             else file))"

section \<open>Balances\<close>

definition get_wallet_info :: "(string \<Rightarrow> string option) \<Rightarrow> (string \<Rightarrow> string outcome) \<Rightarrow> string outcome" where
  "get_wallet_info env build_signer =
     obind (oget (env ''PRIVATE_KEY'') ''PRIVATE_KEY not set in env'') build_signer"

definition get_rpc_url :: "(string \<Rightarrow> string option) \<Rightarrow> string" where
  "get_rpc_url env = unwrap_or (env ''POLYGON_RPC_URL'') ''https://rpc.ankr.com/polygon''"

text \<open>A timer around a fallible function whose error is reported with a prefix.\<close>

definition timed :: "bool \<Rightarrow> string \<Rightarrow> string \<Rightarrow> string outcome \<Rightarrow> string outcome" where
  "timed expired failed late r = (if expired then Good late
     else case r of Err e \<Rightarrow> Good (failed @ e) | _ \<Rightarrow> r)"

definition balance_inner :: "(string \<Rightarrow> string option) \<Rightarrow> (string \<Rightarrow> string outcome) \<Rightarrow> (string \<Rightarrow> bool)
    \<Rightarrow> u256 option \<Rightarrow> u256 option \<Rightarrow> string outcome" where
  "balance_inner env build_signer url_ok pol usdc =
     obind (get_wallet_info env build_signer) (\<lambda>address.
     if \<not> url_ok (get_rpc_url env) then Err ''invalid RPC URL'' else
     obind (oget pol ''failed to get POL balance'') (\<lambda>pol_balance.
     obind (oget usdc ''failed to get USDC.e balance'') (\<lambda>usdc_balance.
     obind (format_token usdc_balance 6) (\<lambda>u. obind (format_wei pol_balance 4) (\<lambda>p.
     Good (''Wallet: '' @ address @ [CHR 0x0A] @ ''USDC.e: $'' @ u @ [CHR 0x0A] @ ''POL: '' @ p))))))"

definition handle_balance :: "bool \<Rightarrow> string outcome \<Rightarrow> string outcome" where
  "handle_balance expired inner = timed expired ''Balance check failed: '' ''Balance check timed out (10s).'' inner"

text \<open>A response is None when the request fails, \<open>Some None\<close> when its body is not JSON.\<close>

definition fetched :: "string \<Rightarrow> json option option \<Rightarrow> json outcome" where
  "fetched what r = obind (oget r (''failed to fetch '' @ what)) (\<lambda>body.
     oget body (''failed to parse '' @ what @ '' response''))"

definition polybalance_inner :: "'a lib_scheme \<Rightarrow> (string \<Rightarrow> string option) \<Rightarrow> (string \<Rightarrow> string outcome)
    \<Rightarrow> json option option \<Rightarrow> json option option \<Rightarrow> string outcome" where
  "polybalance_inner L env build_signer positions value =
     obind (get_wallet_info env build_signer) (\<lambda>address.
     obind (fetched ''positions'' positions) (\<lambda>positions_resp.
     let position_count = (case as_array positions_resp of Some a \<Rightarrow> length a | None \<Rightarrow> 0) in
     obind (fetched ''value'' value) (\<lambda>value_resp.
     let total_value = unwrap_or (Option.bind (Option.bind (Option.bind (as_array value_resp)
           (\<lambda>arr. case arr of [] \<Rightarrow> None | x # xs \<Rightarrow> Some x)) (jget ''value'')) as_f64) (flit 0) in
     Good (''Wallet: '' @ address @ [CHR 0x0A] @ ''Positions: '' @ show_int (int position_count) @ [CHR 0x0A]
       @ ''Market value: $'' @ f_fmt L 2 total_value))))"

definition handle_polybalance :: "bool \<Rightarrow> string outcome \<Rightarrow> string outcome" where
  "handle_polybalance expired inner = timed expired ''Polybalance check failed: '' ''Polybalance check timed out (10s).'' inner"

section \<open>Redemption\<close>

text \<open>What becomes of a transaction; a sent one has its hash.\<close>

datatype receipt = GotReceipt bool | ReceiptFailed string | ReceiptLate

datatype tx_answer = SendFailed string | Sent string receipt

fun contains_text :: "string \<Rightarrow> string \<Rightarrow> bool" where
  "contains_text p [] = (p = [])"
| "contains_text p (c # s) = (starts_with (c # s) p \<or> contains_text p s)"

definition position_ids :: "json \<Rightarrow> string list" where
  "position_ids resp = (case as_array resp of None \<Rightarrow> []
     | Some positions \<Rightarrow> List.map_filter (\<lambda>p. Option.bind (or_else (jget ''conditionId'' p) (jget ''condition_id'' p)) as_str) positions)"

definition condition_ids :: "json option option \<Rightarrow> string option \<Rightarrow> string list" where
  "condition_ids positions file =
     remdups_adj (sort ((case positions of Some (Some resp) \<Rightarrow> position_ids resp | _ \<Rightarrow> [])
       @ read_condition_ids_from_file file))"

record redeem_state =
  rd_redeemed :: u32
  rd_skipped :: u32
  rd_errors :: "string list"
  rd_redeemed_ids :: "string list"
  rd_sent :: "string list"

definition redeem_start :: redeem_state where
  "redeem_start = \<lparr> rd_redeemed = 0, rd_skipped = 0, rd_errors = [], rd_redeemed_ids = [], rd_sent = [] \<rparr>"

definition redeem_skip :: "string outcome \<Rightarrow> redeem_state \<Rightarrow> redeem_state outcome" where
  "redeem_skip msg r = obind msg (\<lambda>m. Good (r\<lparr> rd_skipped := rd_skipped r + 1, rd_errors := rd_errors r @ [m] \<rparr>))"

definition redeem_ok :: "string \<Rightarrow> redeem_state \<Rightarrow> redeem_state outcome" where
  "redeem_ok cid r = Good (r\<lparr> rd_redeemed := rd_redeemed r + 1, rd_redeemed_ids := rd_redeemed_ids r @ [cid] \<rparr>)"

text \<open>One condition id: \<open>cid_error\<close> is the parser of 32-byte hex, \<open>answers\<close> the chain.\<close>

definition redeem_one :: "(string \<Rightarrow> string option) \<Rightarrow> (string \<Rightarrow> tx_answer) \<Rightarrow> string \<Rightarrow> redeem_state
    \<Rightarrow> redeem_state outcome" where
  "redeem_one cid_error answers cid r =
     (let note = (\<lambda>e. obind (short_id cid) (\<lambda>s. Good (s @ '': '' @ e))) in
      case cid_error cid of
        Some e \<Rightarrow> redeem_skip (obind (short_id cid) (\<lambda>s. Good (''invalid conditionId '' @ s @ '': '' @ e))) r
      | None \<Rightarrow>
          (let r1 = r\<lparr> rd_sent := rd_sent r @ [cid] \<rparr> in
           case answers cid of
             SendFailed e \<Rightarrow> redeem_skip (note e) r1
           | Sent tx_hash (GotReceipt True) \<Rightarrow> redeem_ok cid r1
           | Sent tx_hash (GotReceipt False) \<Rightarrow> redeem_skip (note ''tx reverted (market not resolved?)'') r1
           | Sent tx_hash (ReceiptFailed e) \<Rightarrow>
               if contains_text ''null response'' e then redeem_ok cid r1
               else redeem_skip (note (''receipt error: '' @ e)) r1
           | Sent tx_hash ReceiptLate \<Rightarrow> redeem_skip (note ''receipt timed out'') r1))"

definition redeem_message :: "redeem_state \<Rightarrow> string" where
  "redeem_message r = ''Redemption complete: '' @ show_int (uint (rd_redeemed r)) @ '' redeemed, ''
     @ show_int (uint (rd_skipped r)) @ '' skipped''
     @ (if rd_errors r = [] then [] else [CHR 0x0A, CHR 0x0A] @ ''Errors:''
          @ concat (map (\<lambda>e. [CHR 0x0A] @ ''- '' @ e) (rd_errors r)))"

text \<open>The message, the transactions sent, and the file afterwards.\<close>

definition redeem_inner :: "(string \<Rightarrow> string option) \<Rightarrow> (string \<Rightarrow> string outcome) \<Rightarrow> (string \<Rightarrow> bool) \<Rightarrow> (string \<Rightarrow> string option)
    \<Rightarrow> json option option \<Rightarrow> (string \<Rightarrow> tx_answer) \<Rightarrow> file_io \<Rightarrow> string option \<Rightarrow> (string \<times> string list \<times> string option) outcome" where
  "redeem_inner env build_signer url_ok cid_error positions answers io file =
     obind (get_wallet_info env build_signer) (\<lambda>_.
     if condition_ids positions file = [] then Good (''No positions found '' @ [CHR 0xE2, CHR 0x80, CHR 0x94] @ '' nothing to redeem.'', [], file)
     else if \<not> url_ok (get_rpc_url env) then Err ''invalid RPC URL''
     else obind (orun (redeem_one cid_error answers) (condition_ids positions file) redeem_start) (\<lambda>r.
       Good (redeem_message r, rd_sent r, remove_redeemed_ids io (rd_redeemed_ids r) file)))"

text \<open>
  The timer may fire after the transactions of the first \<open>k\<close> ids; the rest of the loop is then
  dropped, and the file is not touched.
\<close>

definition handle_redeem :: "nat option \<Rightarrow> (string \<Rightarrow> string option) \<Rightarrow> (string \<Rightarrow> string outcome) \<Rightarrow> (string \<Rightarrow> bool)
    \<Rightarrow> (string \<Rightarrow> string option) \<Rightarrow> json option option \<Rightarrow> (string \<Rightarrow> tx_answer) \<Rightarrow> file_io \<Rightarrow> string option
    \<Rightarrow> (string \<times> string list \<times> string option) outcome" where
  "handle_redeem expired env build_signer url_ok cid_error positions answers io file = (case expired of
      Some k \<Rightarrow> (case get_wallet_info env build_signer of
          Err e \<Rightarrow> Good (''Redemption failed: '' @ e, [], file)
        | Panic \<Rightarrow> Panic
        | Good _ \<Rightarrow> obind (orun (redeem_one cid_error answers)
              (take (if url_ok (get_rpc_url env) then k else 0) (condition_ids positions file)) redeem_start) (\<lambda>r.
            Good (''Redemption timed out (120s).'', rd_sent r, file)))
    | None \<Rightarrow> (case redeem_inner env build_signer url_ok cid_error positions answers io file of
        Err e \<Rightarrow> Good (''Redemption failed: '' @ e, [], file) | r \<Rightarrow> r))"

definition redeem_specific_inner :: "(string \<Rightarrow> string option) \<Rightarrow> (string \<Rightarrow> string outcome) \<Rightarrow> (string \<Rightarrow> bool)
    \<Rightarrow> (string \<Rightarrow> string option) \<Rightarrow> (string \<Rightarrow> tx_answer) \<Rightarrow> file_io \<Rightarrow> string \<Rightarrow> string option
    \<Rightarrow> (string \<times> string option) outcome" where
  "redeem_specific_inner env build_signer url_ok cid_error answers io cid_hex0 file =
     (let cid = trim cid_hex0 in
      if length cid \<noteq> 66 \<or> \<not> starts_with cid ''0x''
      then Err ''Invalid condition ID format. Expected 0x-prefixed 32-byte hex (66 chars).''
      else if cid_error cid \<noteq> None then Err ''failed to parse condition ID as bytes32''
      else obind (get_wallet_info env build_signer) (\<lambda>_.
      if \<not> url_ok (get_rpc_url env) then Err ''invalid RPC URL'' else
      (case answers cid of
         SendFailed e \<Rightarrow> Err ''redeemPositions call failed''
       | Sent tx rec \<Rightarrow> obind (short_id cid) (\<lambda>s. Good (case rec of
           GotReceipt True \<Rightarrow> (''Redeemed '' @ s @ '': tx '' @ tx, remove_redeemed_ids io [cid] file)
         | GotReceipt False \<Rightarrow> (''Tx reverted for '' @ s @ '' (market not resolved?): tx '' @ tx, file)
         | ReceiptFailed e \<Rightarrow>
             if contains_text ''null response'' e
             then (''Redeemed '' @ s @ '' (receipt lost, tx broadcast): tx '' @ tx, remove_redeemed_ids io [cid] file)
             else (''Receipt error for '' @ s @ '': '' @ e, file)
         | ReceiptLate \<Rightarrow> (''Receipt timed out for '' @ s @ '': tx '' @ tx, file))))))"

definition handle_redeem_specific :: "bool \<Rightarrow> string option \<Rightarrow> (string \<times> string option) outcome \<Rightarrow> (string \<times> string option) outcome" where
  "handle_redeem_specific expired file r = (if expired then Good (''Redemption timed out (30s).'', file)
     else case r of Err e \<Rightarrow> Good (''Redemption failed: '' @ e, file) | _ \<Rightarrow> r)"

section \<open>The background task\<close>

definition is_noop :: "string \<Rightarrow> bool" where
  "is_noop result \<longleftrightarrow> contains_text ''nothing to redeem'' result \<or> contains_text ''No positions found'' result
     \<or> contains_text ''No condition IDs'' result \<or> starts_with result ''Redemption complete: 0 redeemed, 0 skipped''"

text \<open>One round of the loop: the message it posts, if any.\<close>

definition auto_redeem_message :: "string \<Rightarrow> string option" where
  "auto_redeem_message result = (if is_noop result then None else Some (''Auto-redeem: '' @ result))"

end
