(* ===== verification/WalletProps.thy ===== *)
theory WalletProps
  imports Wallet TextLines
begin

text \<open>
  The wallet commands: printed amounts read back, a redemption submits every id once and clears
  exactly the confirmed ones from the file, and what a timeout leaves behind.
\<close>

section \<open>The printed amounts\<close>

lemma decimal_text:
  assumes "0 \<le> (x::int)" "0 < k"
  shows "let w = show_int (x div 10 ^ k); f = pad_zeros k (show_int (x mod 10 ^ k)) in
    length f = k \<and> w \<noteq> [] \<and> list_all is_digit (w @ f) \<and> digits_val (w @ f) = x"
proof -
  have m: "0 \<le> x mod 10 ^ k" "x mod 10 ^ k < 10 ^ k" "0 \<le> x div 10 ^ k" using assms by (simp_all add: pos_imp_zdiv_nonneg_iff)
  have s: "show_int (x mod 10 ^ k) = int_digits (x mod 10 ^ k)" "show_int (x div 10 ^ k) = int_digits (x div 10 ^ k)"
    using m(1,3) by (simp_all only: show_int_def not_less [symmetric] if_False)
  have l: "length (int_digits (x mod 10 ^ k)) \<le> k" using int_digits_length [OF m(1,2) assms(2)] .
  then have f: "length (pad_zeros k (show_int (x mod 10 ^ k))) = k" by (simp add: pad_zeros_def s)
  have z: "list_all is_digit (replicate j CHR ''0'')" for j by (induction j) (simp_all add: is_digit_def)
  have v: "digits_val (pad_zeros k (show_int (x mod 10 ^ k))) = x mod 10 ^ k"
    using int_digits_val [OF m(1)] by (simp add: pad_zeros_def digits_val_zeros s)
  have d: "list_all is_digit (pad_zeros k (show_int (x mod 10 ^ k)))" using int_digits_val [OF m(1)] z by (simp add: pad_zeros_def s)
  have "x div 10 ^ k * 10 ^ k + x mod 10 ^ k = x" by (rule div_mult_mod_eq)
  with int_digits_val [OF m(3)] f v d show ?thesis unfolding Let_def digits_val_append list_all_append by (simp add: s(2))
qed

lemma pow10_small: assumes "unat d \<le> 19" shows "uint (pow10 d) = 10 ^ unat d"
proof -
  have "(10::nat) ^ unat d \<le> 10 ^ 19" using assms by (intro power_increasing) auto
  then have lt: "(10::nat) ^ unat d < 2 ^ 64" by simp
  have "(10 :: u64) ^ unat d = of_nat (10 ^ unat d)" by simp
  then have u: "unat ((10 :: u64) ^ unat d) = 10 ^ unat d" using lt by (simp only: unsigned_of_nat) (simp add: take_bit_nat_eq_self)
  have "unat (pow10 d) = 10 ^ unat d" unfolding pow10_def using u lt by (simp add: unsigned_ucast_eq take_bit_nat_eq_self)
  then show ?thesis by (simp add: uint_nat)
qed

text \<open>
  The printed amounts. A token amount is printed with all its decimals and reads back as the
  raw amount; a native amount is printed with the asked decimals, the rest cut off.
\<close>

theorem amounts_read_back:
  assumes "0 < unat d" and "unat d \<le> 18"
  shows "(\<exists>w f. format_token raw d = Good (w @ ''.'' @ f) \<and> w \<noteq> [] \<and> length f = unat d
        \<and> list_all is_digit (w @ f) \<and> digits_val (w @ f) = uint raw)
    \<and> (\<exists>w f. format_wei raw d = Good (w @ ''.'' @ f) \<and> w \<noteq> [] \<and> length f = unat d
        \<and> list_all is_digit (w @ f) \<and> digits_val (w @ f) = uint raw div 10 ^ (18 - unat d))"
proof
  have p: "uint (pow10 d) = 10 ^ unat d" "uint (pow10 18) = 10 ^ 18" using assms(2) by (simp_all add: pow10_small)
  have u: "unat (18 - d) = 18 - unat d" using assms(2) by (simp add: unat_sub word_le_nat_alt)
  have p': "uint (pow10 (18 - d)) = 10 ^ (18 - unat d)" using pow10_small [of "18 - d"] by (simp add: u)
  have nz: "pow10 d \<noteq> 0" "pow10 (18 - d) \<noteq> 0" using p(1) p' by auto
  let ?w = "show_int (uint raw div 10 ^ unat d)" and ?f = "pad_zeros (unat d) (show_int (uint raw mod 10 ^ unat d))"
  have "format_token raw d = Good (?w @ ''.'' @ ?f)"
    by (simp add: format_token_def nz Let_def show_u256_def uint_div uint_mod p)
  then show "\<exists>w f. format_token raw d = Good (w @ ''.'' @ f) \<and> w \<noteq> [] \<and> length f = unat d
      \<and> list_all is_digit (w @ f) \<and> digits_val (w @ f) = uint raw"
    using decimal_text [of "uint raw" "unat d"] assms(1) by (simp add: Let_def) blast
  define y where "y = uint raw div 10 ^ (18 - unat d)"
  have split: "(10::int) ^ (18 - unat d) * 10 ^ unat d = 10 ^ 18" using assms(2) by (simp flip: power_add)
  have d: "uint raw div 10 ^ 18 = y div 10 ^ unat d" unfolding y_def split [symmetric] by (rule zdiv_zmult2_eq) simp
  have m: "uint raw mod 10 ^ 18 div 10 ^ (18 - unat d) = y mod 10 ^ unat d"
    unfolding y_def split [symmetric] by (subst zmod_zmult2_eq) simp_all
  let ?w = "show_int (y div 10 ^ unat d)" and ?f = "pad_zeros (unat d) (show_int (y mod 10 ^ unat d))"
  have "format_wei raw d = Good (show_int (uint raw div 10 ^ 18) @ ''.'' @ pad_zeros (unat d) (show_int (uint raw mod 10 ^ 18 div 10 ^ (18 - unat d))))"
    by (simp only: format_wei_def nz Let_def show_u256_def uint_div uint_mod p p' if_False)
  then have "format_wei raw d = Good (?w @ ''.'' @ ?f)" unfolding d m .
  then show "\<exists>w f. format_wei raw d = Good (w @ ''.'' @ f) \<and> w \<noteq> [] \<and> length f = unat d
      \<and> list_all is_digit (w @ f) \<and> digits_val (w @ f) = uint raw div 10 ^ (18 - unat d)"
    unfolding y_def [symmetric] using decimal_text [of y "unat d"] assms(1)
    by (simp add: Let_def y_def pos_imp_zdiv_nonneg_iff) blast
qed

lemma amounts_read_back_witness:
  "\<exists>w f. format_token 1500000 6 = Good (w @ ''.'' @ f) \<and> length f = 6 \<and> digits_val (w @ f) = 1500000"
  using amounts_read_back [of 6 1500000] by auto

section \<open>Redemption\<close>

text \<open>What the chain confirmed: a good receipt, or one that the RPC lost.\<close>

fun confirms :: "tx_answer \<Rightarrow> bool" where
  "confirms (Sent h (GotReceipt b)) = b"
| "confirms (Sent h (ReceiptFailed e)) = contains_text ''null response'' e"
| "confirms a = False"

definition confirmed :: "(string \<Rightarrow> string option) \<Rightarrow> (string \<Rightarrow> tx_answer) \<Rightarrow> string \<Rightarrow> bool" where
  "confirmed cid_error answers cid \<longleftrightarrow> cid_error cid = None \<and> confirms (answers cid)"

lemma redeem_one_ok:
  assumes "redeem_one E A cid r = Good r'"
  shows "rd_sent r' = rd_sent r @ (if E cid = None then [cid] else [])"
    and "rd_redeemed_ids r' = rd_redeemed_ids r @ (if confirmed E A cid then [cid] else [])"
    and "rd_redeemed r' = rd_redeemed r + (if confirmed E A cid then 1 else 0)"
    and "rd_skipped r' = rd_skipped r + (if confirmed E A cid then 0 else 1)"
proof -
  have "rd_sent r' = rd_sent r @ (if E cid = None then [cid] else [])
      \<and> rd_redeemed_ids r' = rd_redeemed_ids r @ (if confirmed E A cid then [cid] else [])
      \<and> rd_redeemed r' = rd_redeemed r + (if confirmed E A cid then 1 else 0)
      \<and> rd_skipped r' = rd_skipped r + (if confirmed E A cid then 0 else 1)"
  proof (cases "E cid")
    case None
    show ?thesis
    proof (cases "A cid")
      case (Sent h rc)
      with None assms show ?thesis by (cases rc)
        (auto simp: redeem_one_def redeem_skip_def redeem_ok_def confirmed_def obind_eq_Good split: if_splits bool.splits)
    qed (use None assms in \<open>auto simp: redeem_one_def redeem_skip_def confirmed_def obind_eq_Good\<close>)
  qed (use assms in \<open>auto simp: redeem_one_def redeem_skip_def confirmed_def obind_eq_Good\<close>)
  then show "rd_sent r' = rd_sent r @ (if E cid = None then [cid] else [])"
    "rd_redeemed_ids r' = rd_redeemed_ids r @ (if confirmed E A cid then [cid] else [])"
    "rd_redeemed r' = rd_redeemed r + (if confirmed E A cid then 1 else 0)"
    "rd_skipped r' = rd_skipped r + (if confirmed E A cid then 0 else 1)" by blast+
qed

lemma redeem_run:
  "orun (redeem_one E A) ids r = Good r' \<Longrightarrow>
     rd_sent r' = rd_sent r @ filter (\<lambda>c. E c = None) ids
     \<and> rd_redeemed_ids r' = rd_redeemed_ids r @ filter (confirmed E A) ids
     \<and> rd_redeemed r' = rd_redeemed r + of_nat (length (filter (confirmed E A) ids))
     \<and> rd_skipped r' = rd_skipped r + of_nat (length (filter (\<lambda>c. \<not> confirmed E A c) ids))"
proof (induction ids arbitrary: r)
  case (Cons c ids)
  then obtain r1 where r1: "redeem_one E A c r = Good r1" "orun (redeem_one E A) ids r1 = Good r'" by (auto simp: obind_eq_Good)
  from Cons.IH [OF r1(2)] redeem_one_ok [OF r1(1)] show ?case by (simp add: algebra_simps)
qed simp

lemma sorted_remdups: "sorted xs \<Longrightarrow> distinct (remdups_adj (xs :: 'a::linorder list))"
  by (induction xs rule: remdups_adj.induct) (auto simp: le_less)

lemma redeem_not_Err: "orun (redeem_one E A) ids r \<noteq> Err e"
proof (induction ids arbitrary: r)
  case (Cons c ids)
  have s: "short_id i \<noteq> Err e" for i by (auto simp: short_id_def str_slice_def)
  have "obind (obind (short_id i) (\<lambda>s. Good (f s))) (\<lambda>m. Good (g m)) \<noteq> Err e" for i and f :: "string \<Rightarrow> string" and g :: "string \<Rightarrow> redeem_state"
    using s [of i] by (cases "short_id i") auto
  then have "redeem_one E A c r \<noteq> Err e"
    by (auto simp: redeem_one_def redeem_skip_def redeem_ok_def Let_def split: option.splits tx_answer.splits receipt.splits bool.splits)
  with Cons show ?case by (cases "redeem_one E A c r") auto
qed simp

lemma handle_redeem_run:
  assumes "handle_redeem None env build_signer url_ok E positions A io file = Good (msg, sent, file')"
    and "get_wallet_info env build_signer = Good a" and "url_ok (get_rpc_url env)" and "condition_ids positions file \<noteq> []"
  obtains r where "orun (redeem_one E A) (condition_ids positions file) redeem_start = Good r" "msg = redeem_message r"
    "sent = rd_sent r" "file' = remove_redeemed_ids io (rd_redeemed_ids r) file"
proof -
  have "redeem_inner env build_signer url_ok E positions A io file
      = obind (orun (redeem_one E A) (condition_ids positions file) redeem_start) (\<lambda>r.
          Good (redeem_message r, rd_sent r, remove_redeemed_ids io (rd_redeemed_ids r) file))"
    unfolding redeem_inner_def using assms(2-4) by (simp only: obind.simps if_False not_True_eq_False simp_thms)
  then have h: "handle_redeem None env build_signer url_ok E positions A io file
      = (case obind (orun (redeem_one E A) (condition_ids positions file) redeem_start) (\<lambda>r.
            Good (redeem_message r, rd_sent r, remove_redeemed_ids io (rd_redeemed_ids r) file)) of
          Err e \<Rightarrow> Good (''Redemption failed: '' @ e, [], file) | r \<Rightarrow> r)"
    unfolding handle_redeem_def option.case by (rule arg_cong)
  show thesis
  proof (cases "orun (redeem_one E A) (condition_ids positions file) redeem_start")
    case (Good r)
    from assms(1) have "redeem_message r = msg \<and> rd_sent r = sent \<and> remove_redeemed_ids io (rd_redeemed_ids r) file = file'"
      unfolding h Good obind.simps outcome.case outcome.inject prod.inject .
    then show thesis by (intro that [OF Good]) (simp_all only:)
  next
    case (Err e)
    with redeem_not_Err show thesis by blast
  next
    case Panic
    from assms(1) show thesis unfolding h Panic obind.simps outcome.case by (simp only: outcome.distinct)
  qed
qed

lemma distinct_ids: "distinct (condition_ids positions file)"
  by (simp add: condition_ids_def sorted_remdups)

section \<open>The file after a cleanup\<close>

lemma trim_trim: "trim (trim l) = trim l"
  using trim_ws [of "[]" "trim l"] trimmed_trim by simp

lemma set_trim: "set (trim l) \<subseteq> set l"
  by (auto simp: trim_def trim_end_def trim_start_def dest!: set_dropWhileD)

lemma join_unlines:
  assumes "ls \<noteq> []" shows "join [CHR 0x0A] ls @ [CHR 0x0A] = unlines ls"
proof -
  have "concat (map ((@) [CHR 0x0A]) ys) @ [CHR 0x0A] = [CHR 0x0A] @ concat (map (\<lambda>l. l @ [CHR 0x0A]) ys)" for ys
    by (induction ys) simp_all
  with assms show ?thesis by (cases ls) (simp_all add: join_def unlines_def del: append_Cons)
qed

lemma remaining_lines:
  assumes ids: "ids = remaining_ids done c" shows "str_lines (unlines ids) = ids \<and> map trim ids = ids"
proof
  have each: "\<exists>l \<in> set (str_lines c). i = trim l" if "i \<in> set ids" for i using that by (auto simp: ids remaining_ids_def)
  have "CHR 0x0A \<notin> set i \<and> (i = [] \<or> last i \<noteq> CHR 0x0D)" if "i \<in> set ids" for i
    using each [OF that] set_trim str_lines_clean(1) [of _ c] trimmed_trim by (fastforce simp: trimmed_def is_ws_def)
  then show "str_lines (unlines ids) = ids" by (intro lines_unlines) (simp add: list_all_iff)
  show "map trim ids = ids" using each trim_trim by (intro map_idI) fastforce
qed

lemma file_after:
  assumes "fi_remove_ok io" "fi_write_ok io" "fi_rename_ok io"
  shows "set (read_condition_ids_from_file (remove_redeemed_ids io done file))
    = {i \<in> set (read_condition_ids_from_file file). to_lowercase i \<notin> to_lowercase ` set done}"
proof (cases "file")
  case (Some c)
  have r: "set (read_condition_ids_from_file (Some (unlines (remaining_ids done c))))
      = {i \<in> set (read_condition_ids_from_file (Some c)). to_lowercase i \<notin> to_lowercase ` set done}"
    using remaining_lines [of "remaining_ids done c" "done" c] by (auto simp: read_condition_ids_from_file_def remaining_ids_def)
  show ?thesis
  proof (cases "done = [] \<or> remaining_ids done c = []")
    case True
    then show ?thesis using r assms by (auto simp: remove_redeemed_ids_def Some read_condition_ids_from_file_def remaining_ids_def filter_empty_conv Let_def)
  next
    case False
    then show ?thesis using r assms by (simp add: remove_redeemed_ids_def Some Let_def join_unlines)
  qed
qed (simp add: remove_redeemed_ids_def read_condition_ids_from_file_def)

lemma uint_of_small: "n < 2 ^ 32 \<Longrightarrow> uint (of_nat n :: u32) = int n"
  by (simp add: uint_nat unsigned_of_nat take_bit_nat_eq_self)

text \<open>
  C34. A redemption. Every known condition id is submitted once, unless it is not 32 bytes of hex;
  the two counts of the message are the ids the chain confirmed and all the others; and the file
  keeps exactly the ids that were not confirmed, whatever their case.
\<close>

theorem redeem_exact:
  assumes "handle_redeem None env build_signer url_ok E positions A io file = Good (msg, sent, file')"
    and "get_wallet_info env build_signer = Good a" and "url_ok (get_rpc_url env)"
    and "condition_ids positions file \<noteq> []" and "length (condition_ids positions file) < 2 ^ 32"
    and "fi_remove_ok io" and "fi_write_ok io" and "fi_rename_ok io"
  shows "let ids = condition_ids positions file; done = filter (confirmed E A) ids in
    distinct sent \<and> sent = filter (\<lambda>c. E c = None) ids
    \<and> (\<exists>rest. msg = ''Redemption complete: '' @ show_int (int (length done)) @ '' redeemed, ''
          @ show_int (int (length ids - length done)) @ '' skipped'' @ rest)
    \<and> set (read_condition_ids_from_file file')
        = {i \<in> set (read_condition_ids_from_file file). to_lowercase i \<notin> to_lowercase ` set done}"
proof -
  let ?ids = "condition_ids positions file" and ?done = "filter (confirmed E A) (condition_ids positions file)"
  obtain r where r: "orun (redeem_one E A) ?ids redeem_start = Good r" "msg = redeem_message r" "sent = rd_sent r"
    "file' = remove_redeemed_ids io (rd_redeemed_ids r) file" by (rule handle_redeem_run [OF assms(1-4)])
  note run = redeem_run [OF r(1)]
  have len: "length ?done \<le> length ?ids" "length ?ids - length ?done = length (filter (\<lambda>c. \<not> confirmed E A c) ?ids)"
    using sum_length_filter_compl [of "confirmed E A" ?ids] by linarith+
  have small: "length ?done < 2 ^ 32" "length ?ids - length ?done < 2 ^ 32" using len(1) assms(5) by linarith+
  have "rd_redeemed r = of_nat (length ?done)" "rd_skipped r = of_nat (length ?ids - length ?done)"
    using run len(2) by (simp_all add: redeem_start_def)
  then have u: "uint (rd_redeemed r) = int (length ?done)" "uint (rd_skipped r) = int (length ?ids - length ?done)"
    using uint_of_small [OF small(1)] uint_of_small [OF small(2)] by simp_all
  have "msg = ''Redemption complete: '' @ show_int (int (length ?done)) @ '' redeemed, ''
          @ show_int (int (length ?ids - length ?done)) @ '' skipped''
          @ (if rd_errors r = [] then [] else [CHR 0x0A, CHR 0x0A] @ ''Errors:'' @ concat (map (\<lambda>e. [CHR 0x0A] @ ''- '' @ e) (rd_errors r)))"
    unfolding r(2) redeem_message_def u ..
  then have p3: "\<exists>rest. msg = ''Redemption complete: '' @ show_int (int (length ?done)) @ '' redeemed, ''
          @ show_int (int (length ?ids - length ?done)) @ '' skipped'' @ rest" by blast
  have p1: "sent = filter (\<lambda>c. E c = None) ?ids" "rd_redeemed_ids r = ?done" using run by (simp_all add: r(3) redeem_start_def)
  have p2: "distinct sent" using distinct_ids [of positions "file"] p1(1) by simp
  have p4: "set (read_condition_ids_from_file file')
      = {i \<in> set (read_condition_ids_from_file file). to_lowercase i \<notin> to_lowercase ` set ?done}"
    unfolding r(4) p1(2) by (rule file_after [OF assms(6-8)])
  show ?thesis unfolding Let_def by (intro conjI p2 p1(1) p3 p4)
qed

lemma redeem_exact_witness:
  "let aid = ''0x'' @ replicate 64 CHR ''a'';
       env = (\<lambda>k. if k = ''PRIVATE_KEY'' then Some ''k'' else None);
       positions = Some (Some (JArr [JObj [(''conditionId'', JStr ''c1'')], JObj [(''condition_id'', JStr ''bad'')]]));
       E = (\<lambda>c. if c = ''bad'' then Some ''odd'' else None);
       A = (\<lambda>c. if c = ''c1'' then Sent ''h'' (GotReceipt False) else Sent ''h'' (GotReceipt True));
       io = \<lparr> fi_remove_ok = True, fi_write_ok = True, fi_rename_ok = True \<rparr>
   in \<exists>msg file'. handle_redeem None env Good (\<lambda>u. True) E positions A io (Some aid) = Good (msg, [aid, ''c1''], file')
      \<and> set (read_condition_ids_from_file file') = {}"
proof -
  define aid where "aid = ''0x'' @ replicate 64 CHR ''a''"
  let ?env = "\<lambda>k. if k = ''PRIVATE_KEY'' then Some ''k'' else None"
  let ?pos = "Some (Some (JArr [JObj [(''conditionId'', JStr ''c1'')], JObj [(''condition_id'', JStr ''bad'')]]))"
  let ?E = "\<lambda>c. if c = ''bad'' then Some ''odd'' else None"
  let ?A = "\<lambda>c. if c = ''c1'' then Sent ''h'' (GotReceipt False) else Sent ''h'' (GotReceipt True)"
  let ?io = "\<lparr> fi_remove_ok = True, fi_write_ok = True, fi_rename_ok = True \<rparr>"
  let ?r = "handle_redeem None ?env Good (\<lambda>u. True) ?E ?pos ?A ?io (Some aid)"
  have ids: "condition_ids ?pos (Some aid) = [aid, ''bad'', ''c1'']" "read_condition_ids_from_file (Some aid) = [aid]"
    unfolding aid_def by code_simp+
  have n: "aid \<noteq> ''bad''" "aid \<noteq> ''c1''" unfolding aid_def by code_simp+
  have "short_id ''bad'' = Good ''bad''" "short_id ''c1'' = Good ''c1''" by code_simp+
  then have "\<exists>x. ?r = Good x"
    by (simp add: handle_redeem_def redeem_inner_def get_wallet_info_def ids redeem_one_def redeem_skip_def redeem_ok_def Let_def n)
  then obtain msg sent file' where r: "?r = Good (msg, sent, file')" by auto
  have f: "filter (confirmed ?E ?A) [aid, ''bad'', ''c1''] = [aid]" "filter (\<lambda>c. ?E c = None) [aid, ''bad'', ''c1''] = [aid, ''c1'']"
    using n by (auto simp: confirmed_def)
  have "sent = [aid, ''c1''] \<and> set (read_condition_ids_from_file file') = {}"
    using redeem_exact [OF r, of "''k''"] unfolding ids Let_def f by (auto simp: get_wallet_info_def)
  with r show ?thesis unfolding aid_def [symmetric] Let_def by blast
qed

text \<open>When the timer fires, the ids confirmed so far stay in the file and are submitted again.\<close>

lemma redeem_timeout_resends:
  assumes "handle_redeem (Some k) env build_signer url_ok E positions A io file = Good (msg, sent, file')"
    and "handle_redeem None env build_signer url_ok E positions A' io file' = Good (msg', sent', file'')"
    and "get_wallet_info env build_signer = Good a" and "url_ok (get_rpc_url env)"
    and "condition_ids positions file \<noteq> []"
  shows "file' = file \<and> set sent \<subseteq> set sent'"
proof -
  let ?ids = "condition_ids positions file"
  obtain r where r: "orun (redeem_one E A) (take k ?ids) redeem_start = Good r" "sent = rd_sent r" and f: "file' = file"
    using assms(1,3,4) by (auto simp: handle_redeem_def obind_eq_Good)
  obtain r' where r': "orun (redeem_one E A') ?ids redeem_start = Good r'" "sent' = rd_sent r'"
    by (rule handle_redeem_run [OF assms(2)[unfolded f] assms(3-5)])
  show ?thesis using redeem_run [OF r(1)] redeem_run [OF r'(1)] f set_take_subset [of k ?ids]
    by (auto simp: r(2) r'(2) redeem_start_def)
qed

end
