(* ===== verification/EngineFrames.thy ===== *)
theory EngineFrames
  imports StrategyProtocol
begin

text \<open>
  What the parts of the engine (\<open>src/src/engine/strategy.rs\<close>) leave alone: only commands move the
  two switches, only fills and rotations move the position and the pending fill records.
\<close>

section \<open>The mode and the books\<close>

text \<open>The two switches only commands may move.\<close>

definition same_mode :: "engine \<Rightarrow> engine \<Rightarrow> bool" where
  "same_mode e e' \<longleftrightarrow> en_paused e' = en_paused e \<and> en_draining e' = en_draining e"

text \<open>The switches and, with them, what only fills and rotations may move.\<close>

definition same_core :: "engine \<Rightarrow> engine \<Rightarrow> bool" where
  "same_core e e' \<longleftrightarrow> same_mode e e' \<and> en_position e' = en_position e
     \<and> en_pending_fill_records e' = en_pending_fill_records e"

lemmas core_defs = same_core_def same_mode_def

lemma same_mode_refl [simp]: "same_mode e e"
  by (simp add: same_mode_def)

lemma same_mode_trans [trans]: "same_mode a b \<Longrightarrow> same_mode b c \<Longrightarrow> same_mode a c"
  by (simp add: same_mode_def)

lemma same_core_refl [simp]: "same_core e e"
  by (simp add: same_core_def)

lemma same_core_trans [trans]: "same_core a b \<Longrightarrow> same_core b c \<Longrightarrow> same_core a c"
  by (simp add: core_defs)

lemma same_core_mode: "same_core e e' \<Longrightarrow> same_mode e e'"
  by (simp add: same_core_def)

lemma mode_fields [frame_simps]:
  "en_paused (push_fill_message L sd pr sz tk e) = en_paused e" "en_draining (push_fill_message L sd pr sz tk e) = en_draining e"
  "en_paused (push_fill_record L sd pr sz tk fee now e) = en_paused e"
  "en_draining (push_fill_record L sd pr sz tk fee now e) = en_draining e"
  "en_paused (bump_fills sd e) = en_paused e" "en_draining (bump_fills sd e) = en_draining e"
  "en_paused (push_risk_record L now v e) = en_paused e" "en_draining (push_risk_record L now v e) = en_draining e"
  "en_paused (send_session_summary L now e) = en_paused e" "en_draining (send_session_summary L now e) = en_draining e"
  "en_paused (touch now e) = en_paused e" "en_draining (touch now e) = en_draining e"
  "en_pending_fill_records (push_risk_record L now v e) = en_pending_fill_records e"
  "en_pending_fill_records (push_fill_message L sd pr sz tk e) = en_pending_fill_records e"
  "en_pending_fill_records (bump_fills sd e) = en_pending_fill_records e"
  by (cases sd; simp add: push_fill_message_def push_fill_record_def bump_fills_def
    push_risk_record_def send_session_summary_def touch_def Let_def)+

section \<open>Feedback and trades\<close>

lemma mode_feedback: "same_mode e (on_feedback L now fb e)"
  by (cases fb) (simp_all add: same_mode_def fb_order_posted_def fb_cancel_result_def fb_rebalance_result_def mode_fields Let_def
    split: option.splits prod.splits)

lemma mode_trade: "same_mode e (on_trade_status_update L i st m now e)"
  by (simp add: same_mode_def on_trade_status_update_def record_ws_delta_def Let_def mode_fields split: option.splits prod.splits)

lemma mode_rotation: "same_mode e (on_market_rotation L c y n t k now e)"
  by (simp add: same_mode_def on_market_rotation_def send_market_report_def Let_def)

section \<open>Other events\<close>

lemma core_strike: "strike_step L m e = Good e' \<Longrightarrow> same_core e e'"
  by (auto simp: strike_step_def obind_eq_Good core_defs split: if_splits)

lemma core_feed_tick: "feed_tick L now mid m e = Good e' \<Longrightarrow> same_core e e'"
  by (auto simp: feed_tick_def obind_eq_Good core_defs touch_def)

lemma core_tick: "ev_binance_tick L now t e = Good e' \<Longrightarrow> same_core e e'"
  unfolding ev_binance_tick_def Let_def obind_eq_Good
  by (elim exE conjE) (rule same_core_trans [OF core_feed_tick core_strike])

lemma core_depth: "ev_binance_depth L now d e = Good e' \<Longrightarrow> same_core e e'"
  by (auto simp: ev_binance_depth_def obind_eq_Good Let_def core_defs touch_def split: option.splits)

lemma core_after: "after_event L now e = Good e' \<Longrightarrow> same_core e e'"
  by (auto simp: after_event_def obind_eq_Good core_defs Let_def split: if_splits)

lemma core_others:
  "same_core e (ev_book now b e)" "same_core e (ev_best_bid_ask now i bd ak e)" "same_core e (ev_tick_size tk e)"
  "same_core e (ev_heartbeat ok lat e)" "same_core e (touch now e)"
  by (simp_all add: core_defs ev_book_def ev_best_bid_ask_def ev_tick_size_def ev_heartbeat_def touch_def Let_def
    split: option.splits prod.splits)

text \<open>Every event but the report of a trade and a rotation leaves the core alone.\<close>

fun moves_books :: "ingestor_event \<Rightarrow> bool" where
  "moves_books (EvTradeStatus order_id status size_matched original) = True"
| "moves_books (EvMarketRotation cid yes no end_ms tick) = True"
| "moves_books ev = False"

lemma core_handle: "handle_event L now ev e = Good e' \<Longrightarrow> \<not> moves_books ev \<Longrightarrow> same_core e e'"
  by (cases ev) (auto simp: core_others intro: core_tick core_depth, (simp add: core_defs)+)

lemma mode_handle:
  assumes "handle_event L now ev e = Good e'"
  shows "same_mode e e'"
proof (cases "moves_books ev")
  case True
  with assms show ?thesis by (cases ev) (auto simp: mode_trade mode_rotation)
next
  case False
  show ?thesis by (rule same_core_mode [OF core_handle [OF assms False]])
qed

lemma mode_event: "on_event L now ev e = Good e' \<Longrightarrow> same_mode e e'"
  by (auto simp: on_event_def obind_eq_Good intro: same_mode_trans mode_handle same_core_mode [OF core_after])

section \<open>The quoting tick\<close>

lemma core_action: "same_core e (fst (apply_action a e))"
  by (cases a) (simp_all add: core_defs)

lemma core_actions: "same_core e (fst (apply_actions as e))"
proof (induction as arbitrary: e)
  case (Cons a as)
  from Cons.IH [of "fst (apply_action a e)"] core_action [of e a] show ?case
    by (simp add: core_defs case_prod_unfold Let_def)
qed simp

lemma core_maker: "same_core e (fst (snd (maker_quotes L yok nok mn mx y n e)))"
  using core_actions by (simp add: maker_quotes_def Let_def case_prod_unfold core_defs)

lemma core_taker: "same_core e (fst (taker_rebalance L y n e))"
  by (simp add: core_defs taker_rebalance_def Let_def split: option.splits prod.splits)

lemma core_buildup: "same_core e (snd (buildup_step now e))"
  by (simp add: core_defs buildup_step_def check_buildup_guard_def Let_def split: prod.splits)

lemma core_sides: "same_core e (fst (quote_sides L now yok nok mn mx e))"
  using core_buildup [of e now] core_maker [of "snd (buildup_step now e)" L yok nok mn mx]
    core_taker [of "snd (buildup_step now e)" L]
    core_taker [of "fst (snd (maker_quotes L yok nok mn mx y n (snd (buildup_step now e))))" L y n for y n]
  by (simp add: quote_sides_def case_prod_unfold core_defs Let_def split: option.splits)

lemma core_quote: "same_core e (fst (quote_tick L now e))"
  using core_sides [of "push_risk_record L now (risk_view_of L now e) (e\<lparr> en_last_risk := vw_risk (risk_view_of L now e) \<rparr>)" L now]
  by (simp add: quote_tick_def Let_def mode_fields frame_simps core_defs)

end
