(* ===== verification/BotProtocol.thy ===== *)
theory BotProtocol
  imports ExecutorProps
begin

text \<open>
  The executor and the engine running together: one answer per order command, the two channels
  between them, and what reaches the exchange.
\<close>

section \<open>One answer per order command\<close>

lemma answer_frame [simp]:
  "ex_gateway (answer fb x) = ex_gateway x" "ex_cap (answer fb x) = ex_cap x" "ex_calls (answer fb x) = ex_calls x"
  "ex_caches_warm (answer fb x) = ex_caches_warm x" "ex_feedback (answer fb x) = try_send (ex_cap x) fb (ex_feedback x)"
  by (simp_all add: answer_def)

lemma called_frame [simp]:
  "ex_gateway (called cs x) = ex_gateway x" "ex_cap (called cs x) = ex_cap x" "ex_feedback (called cs x) = ex_feedback x"
  "ex_caches_warm (called cs x) = ex_caches_warm x" "ex_calls (called cs x) = ex_calls x @ cs"
  by (simp_all add: called_def)

lemma post_feedback_answers [simp]: "answers (post_feedback sd price sz r) (PostOrder sd tok price' sz')"
  by (auto simp: post_feedback_def Let_def split: sum.splits)

lemma rebalance_feedback_answers [simp]: "answers (rebalance_feedback sd price sz r) (RebalanceTaker sd tok price' sz')"
  by (auto simp: rebalance_feedback_def split: sum.splits)

lemma handle_command_answers:
  assumes "is_order_command c"
  obtains fb where "answers fb c" "ex_feedback (handle_command L s now c x) = try_send (ex_cap x) fb (ex_feedback x)"
    "ex_cap (handle_command L s now c x) = ex_cap x" "ex_gateway (handle_command L s now c x) = ex_gateway x"
    "ex_caches_warm (handle_command L s now c x) = ex_caches_warm x"
proof (cases c)
  case (PostOrder sd tok price sz)
  obtain cs r where r: "place_order s now (ex_gateway x)
    (post_only_gtc tok Buy (round_to_tick L price (dnew 1 2)) (d_trunc_dp L 2 sz)) = (cs, r)" by fastforce
  let ?fb = "if ex_caches_warm x then post_feedback sd (round_to_tick L price (dnew 1 2)) (d_trunc_dp L 2 sz) r else OrderFailed sd"
  have "answers ?fb c" using PostOrder by simp
  with that [of ?fb] r PostOrder show ?thesis by (simp add: handle_post_order_def Let_def)
next
  case (CancelOrder sd i)
  obtain c1 w where w: "cancel_order s (ex_gateway x) i = (c1, w)" by fastforce
  obtain c2 st where st: "get_order_status s (ex_gateway x) i = (c2, st)" by fastforce
  let ?fb = "CancelResult sd i (case st of Inr (status, matched, original) \<Rightarrow> Some matched | Inl er \<Rightarrow> None)"
  show ?thesis by (rule that [of ?fb]) (use w st CancelOrder in \<open>simp_all add: handle_cancel_def Let_def\<close>)
next
  case (RebalanceTaker sd tok price sz)
  obtain cs r where r: "place_order s now (ex_gateway x)
    (emergency_fok tok Buy price (clob_safe_fok_size L price sz)) = (cs, r)" by fastforce
  let ?ok = "ex_caches_warm x \<and> clob_safe_fok_size L price sz \<noteq> 0"
  let ?fb = "if ?ok then rebalance_feedback sd price (clob_safe_fok_size L price sz) r else RebalanceResult sd False 0 price"
  have "answers ?fb c" using RebalanceTaker by simp
  with that [of ?fb] r RebalanceTaker show ?thesis
    by (cases "ex_caches_warm x"; cases "clob_safe_fok_size L price sz = 0") (simp_all add: handle_rebalance_taker_def Let_def)
qed (use assms in simp_all)

lemma handle_command_silent:
  assumes "\<not> is_order_command c"
  shows "ex_feedback (handle_command L s now c x) = ex_feedback x" "ex_cap (handle_command L s now c x) = ex_cap x"
  using assms by (cases c; auto simp: ex_market_rotation_def handle_tick_size_change_def Let_def split: prod.splits)+

section \<open>The executor and the engine together\<close>

text \<open>
  A step of the running bot between two rotations. The engine works through market events, ticks,
  pauses and diagnostics and puts commands on the command channel (a \<open>report\<close> step hands out
  reports and changes nothing the conversation depends on); the executor takes the oldest
  command, with whatever the exchange answers at that moment, and puts its feedback on the
  feedback channel; the engine takes the oldest feedback.
\<close>

record bot =
  bt_engine :: engine
  bt_commands :: "executor_command list"
  bt_executor :: executor

inductive bot_step :: "'a lib_scheme \<Rightarrow> bot \<Rightarrow> bot \<Rightarrow> bool" for L where
  tick: "quote_tick L now (bt_engine b) = (e, cs) \<Longrightarrow>
    bot_step L b (b\<lparr> bt_engine := e, bt_commands := bt_commands b @ cs \<rparr>)"
| drain: "take_pending_commands (bt_engine b) = (cs, e) \<Longrightarrow>
    bot_step L b (b\<lparr> bt_engine := e, bt_commands := bt_commands b @ cs \<rparr>)"
| tick_size: "take_tick_size_change (bt_engine b) = (c, e) \<Longrightarrow> 
    bot_step L b (b\<lparr> bt_engine := e, bt_commands := bt_commands b @ opt_list c \<rparr>)"
| event: "on_event L now ev (bt_engine b) = Good e \<Longrightarrow> \<not> is_rotation ev \<Longrightarrow> bot_step L b (b\<lparr> bt_engine := e \<rparr>)"
| pause: "set_paused p (bt_engine b) = (cs, e) \<Longrightarrow>
    bot_step L b (b\<lparr> bt_engine := e, bt_commands := bt_commands b @ cs \<rparr>)"
| draining: "bot_step L b (b\<lparr> bt_engine := set_draining (bt_engine b) \<rparr>)"
| diagnostic: "bot_step L b (b\<lparr> bt_engine := check_diagnostic L now (bt_engine b) \<rparr>)"
| report: "same_talk (bt_engine b) e \<Longrightarrow> en_pending_tick_change e = en_pending_tick_change (bt_engine b) \<Longrightarrow>
    bot_step L b (b\<lparr> bt_engine := e \<rparr>)"
| execute: "bt_commands b = c # cs \<Longrightarrow>
    bot_step L b (b\<lparr> bt_commands := cs, bt_executor := handle_command L s now c (bt_executor b) \<rparr>)"
| feedback: "ex_feedback (bt_executor b) = fb # fbs \<Longrightarrow>
    bot_step L b (b\<lparr> bt_engine := on_feedback L now fb (bt_engine b),
      bt_executor := (bt_executor b)\<lparr> ex_feedback := fbs \<rparr> \<rparr>)"

inductive bot_run :: "'a lib_scheme \<Rightarrow> bot \<Rightarrow> bot \<Rightarrow> bool" for L where
  none: "bot_run L b b"
| more: "bot_run L a b \<Longrightarrow> bot_step L b c \<Longrightarrow> bot_run L a c"

text \<open>
  The simulation relation: the feedback on the channel answers commands already executed, one
  each and in order; together with the commands on the channel they are the unanswered commands
  of the abstract conversation.
\<close>

definition tick_change_ok :: "engine \<Rightarrow> bool" where
  "tick_change_ok e \<longleftrightarrow> list_all (\<lambda>c. \<not> is_order_command c) (opt_list (en_pending_tick_change e))"

definition bot_inv :: "bot \<Rightarrow> bool" where
  "bot_inv b \<longleftrightarrow> 3 \<le> ex_cap (bt_executor b) \<and> tick_change_ok (bt_engine b) \<and> (\<exists>ans. list_all2 answers (ex_feedback (bt_executor b)) ans
     \<and> eng_inv (bt_engine b) (ans @ bt_commands b @ en_pending_commands (bt_engine b)))"

lemma answered_is_order: "answers fb c \<Longrightarrow> is_order_command c"
  by (cases fb; cases c) auto

lemma num_open_le:
  assumes "eng_inv e xs"
  shows "num is_order_command xs \<le> 3"
proof -
  have n: "num is_order_command ys = num (is_post Yes) ys + num (is_cancel Yes) ys + num (is_post No) ys
    + num (is_cancel No) ys + num is_rebalance ys" for ys
  proof (induction ys)
    case (Cons y ys)
    show ?case
    proof (cases y)
      case (PostOrder sd tok price sz)
      then show ?thesis using Cons.IH by (cases sd) simp_all
    next
      case (CancelOrder sd i)
      then show ?thesis using Cons.IH by (cases sd) simp_all
    qed (use Cons.IH in simp_all)
  qed simp
  have "num (is_post sd) xs + num (is_cancel sd) xs \<le> 1" for sd
    using assms by (auto simp: eng_inv_def flags_ok_def)
  from this [of Yes] this [of No] n [of xs] assms show ?thesis by (simp add: eng_inv_def)
qed

lemma feedback_fits:
  assumes "bot_inv b"
  shows "length (ex_feedback (bt_executor b)) + num is_order_command (bt_commands b) \<le> 3"
proof -
  obtain ans where a: "list_all2 answers (ex_feedback (bt_executor b)) ans"
    "eng_inv (bt_engine b) (ans @ bt_commands b @ en_pending_commands (bt_engine b))"
    using assms by (auto simp: bot_inv_def)
  have "num is_order_command ans = length ans"
    using a(1) by (induction rule: list_all2_induct) (auto dest: answered_is_order)
  then show ?thesis using num_open_le [OF a(2)] list_all2_lengthD [OF a(1)] by simp
qed

lemma eng_inv_drop_other:
  assumes "eng_inv e (xs @ c # ys)" and "\<not> is_order_command c"
  shows "eng_inv e (xs @ ys)"
proof -
  have "\<not> is_post sd c" "\<not> is_cancel sd c" "\<not> is_rebalance c" for sd using assms(2) by (cases c; simp)+
  then show ?thesis using assms(1) by (simp add: eng_inv_def flags_ok_def)
qed

lemma eng_inv_add_other:
  assumes "eng_inv e (xs @ ys)" and "\<not> is_order_command c"
  shows "eng_inv e (xs @ c # ys)"
proof -
  have "\<not> is_post sd c" "\<not> is_cancel sd c" "\<not> is_rebalance c" for sd using assms(2) by (cases c; simp)+
  then show ?thesis using assms(1) by (simp add: eng_inv_def flags_ok_def)
qed

lemma eng_inv_add_others:
  "eng_inv e (xs @ ys) \<Longrightarrow> list_all (\<lambda>c. \<not> is_order_command c) cs \<Longrightarrow> eng_inv e (xs @ cs @ ys)"
  by (induction cs) (auto intro: eng_inv_add_other)

text \<open>The pending change of the tick size is never an order command.\<close>

lemma tick_change_frames:
  "buildup_step now e = (dark, e2) \<Longrightarrow> en_pending_tick_change e2 = en_pending_tick_change e"
  "apply_actions as e = (e', cs) \<Longrightarrow> en_pending_tick_change e' = en_pending_tick_change e"
  "maker_quotes L yok nok mn mx yt nt e = (early, e', c) \<Longrightarrow> en_pending_tick_change e' = en_pending_tick_change e"
  "taker_rebalance L yt nt e = (e', c) \<Longrightarrow> en_pending_tick_change e' = en_pending_tick_change e"
proof -
  show "buildup_step now e = (dark, e2) \<Longrightarrow> en_pending_tick_change e2 = en_pending_tick_change e"
    by (auto simp: buildup_step_def check_buildup_guard_def Let_def split: if_splits prod.splits)
  show a: "apply_actions as e = (e', cs) \<Longrightarrow> en_pending_tick_change e' = en_pending_tick_change e" for e e' as cs
    using apply_actions_frame [of as e e' cs] by auto
  show "maker_quotes L yok nok mn mx yt nt e = (early, e', c) \<Longrightarrow> en_pending_tick_change e' = en_pending_tick_change e"
    by (erule maker_quotes_cases) (auto dest: a)
  show "taker_rebalance L yt nt e = (e', c) \<Longrightarrow> en_pending_tick_change e' = en_pending_tick_change e"
    by (erule taker_rebalance_cases) auto
qed

lemma tick_change_quote_tick:
  "quote_tick L now e = (e', c) \<Longrightarrow> en_pending_tick_change e' = en_pending_tick_change e"
proof (erule quote_tick_cases, goal_cases)
  case 2
  then show ?case by (simp add: push_risk_record_def)
next
  case (3 mx e1 yok nok)
  have "en_pending_tick_change e1 = en_pending_tick_change e" using 3(6) by (simp add: push_risk_record_def)
  moreover from 3(9) have "en_pending_tick_change e' = en_pending_tick_change e1"
  proof (cases rule: quote_sides_cases)
    case (1 dark)
    then show ?thesis by (simp add: tick_change_frames(1))
  next
    case (2 e2 yt nt)
    then show ?thesis using tick_change_frames(1) [OF 2(1)] tick_change_frames(3) [OF 2(4)] by simp
  next
    case (3 dark e2 yt nt e3 c3 c4)
    then show ?thesis
      using tick_change_frames(1) [OF 3(1)] tick_change_frames(3) [of L yok nok "1 - mx" mx yt nt e2 False e3 c3]
        tick_change_frames(4) [OF 3(5)] by (cases dark) auto
  qed
  ultimately show ?case by simp
qed simp

lemma tick_change_reports [simp]:
  "en_pending_tick_change (bump_fills sd e) = en_pending_tick_change e"
  "en_pending_tick_change (push_fill_message L sd pr sz tk e) = en_pending_tick_change e"
  "en_pending_tick_change (push_fill_record L sd pr sz tk fee now e) = en_pending_tick_change e"
  "en_pending_tick_change (touch now e) = en_pending_tick_change e"
  by (simp_all add: bump_fills_def push_fill_message_def push_fill_record_def touch_def Let_def split: market_side.splits)

lemma tick_change_feedback: "en_pending_tick_change (on_feedback L now fb e) = en_pending_tick_change e"
  by (cases fb) (auto simp: fb_order_posted_def fb_cancel_result_def fb_rebalance_result_def Let_def
      split: option.splits market_side.splits)

lemma feed_tick_change: "feed_tick L now mid m e = Good e' \<Longrightarrow> en_pending_tick_change e' = en_pending_tick_change e"
  by (auto simp: feed_tick_def touch_def obind_eq_Good)

lemma strike_step_change: "strike_step L m e = Good e' \<Longrightarrow> en_pending_tick_change e' = en_pending_tick_change e"
  by (auto simp: strike_step_def obind_eq_Good split: if_splits)

lemma tick_change_event:
  assumes "on_event L now ev e = Good e'" and "\<not> is_rotation ev" and "tick_change_ok e"
  shows "tick_change_ok e'"
proof -
  obtain e1 where e1: "handle_event L now ev e = Good e1" "after_event L now e1 = Good e'"
    using assms(1) by (auto simp: on_event_def obind_eq_Good)
  have "en_pending_tick_change e' = en_pending_tick_change e1"
    using e1(2) by (auto simp: after_event_def obind_eq_Good Let_def split: if_splits)
  moreover have "tick_change_ok e1"
  proof (cases ev)
    case (EvTickSizeChange i old new)
    then show ?thesis using e1(1) assms(3)
      by (auto simp: tick_change_ok_def ev_tick_size_def opt_list_def Let_def split: option.splits)
  next
    case (EvTradeStatus i st m orig)
    then show ?thesis using e1(1) assms(3)
      by (auto simp: tick_change_ok_def on_trade_status_update_def record_ws_delta_def Let_def split: option.splits if_splits prod.splits)
  next
    case (EvBinanceTick t)
    then show ?thesis using e1(1) assms(3)
      by (auto simp: tick_change_ok_def ev_binance_tick_def obind_eq_Good Let_def dest!: feed_tick_change strike_step_change)
  next
    case (EvBinanceDepth d)
    then show ?thesis using e1(1) assms(3)
      by (auto simp: tick_change_ok_def ev_binance_depth_def obind_eq_Good Let_def split: option.splits)
  next
    case (EvHeartbeat ok lat)
    then show ?thesis using e1(1) assms(3)
      by (auto simp: tick_change_ok_def ev_heartbeat_def Let_def split: if_splits prod.splits)
  qed (use e1(1) assms(2,3) in \<open>auto simp: tick_change_ok_def ev_book_def ev_best_bid_ask_def Let_def\<close>)
  ultimately show ?thesis by (simp add: tick_change_ok_def)
qed

lemma bot_inv_step: "bot_step L b b' \<Longrightarrow> bot_inv b \<Longrightarrow> bot_inv b'"
proof (induction rule: bot_step.induct)
  case (tick now b e cs)
  obtain ans where a: "list_all2 answers (ex_feedback (bt_executor b)) ans"
    "eng_inv (bt_engine b) ((ans @ bt_commands b) @ en_pending_commands (bt_engine b))" and t: "tick_change_ok (bt_engine b)" and cp: "3 \<le> ex_cap (bt_executor b)"
    using tick(2) by (auto simp: bot_inv_def)
  from eng_inv_tick [OF a(2) tick(1)] a(1) tick_change_quote_tick [OF tick(1)] t show ?case
    by (auto simp: bot_inv_def tick_change_ok_def cp)
next
  case (drain b cs e)
  then show ?case by (auto simp: bot_inv_def take_pending_commands_def eng_inv_def tick_change_ok_def)
next
  case (tick_size b c e)
  then have e: "e = (bt_engine b)\<lparr> en_pending_tick_change := None \<rparr>" "c = en_pending_tick_change (bt_engine b)"
    by (auto simp: take_tick_size_change_def)
  obtain ans where a: "list_all2 answers (ex_feedback (bt_executor b)) ans"
    "eng_inv (bt_engine b) ((ans @ bt_commands b) @ en_pending_commands (bt_engine b))" and t: "tick_change_ok (bt_engine b)" and cp: "3 \<le> ex_cap (bt_executor b)"
    using tick_size(2) by (auto simp: bot_inv_def)
  have "eng_inv (bt_engine b) ((ans @ bt_commands b) @ opt_list c @ en_pending_commands (bt_engine b))"
    using eng_inv_add_others [OF a(2)] t e(2) by (simp add: tick_change_ok_def)
  with a(1) show ?case unfolding e(1) by (auto simp: bot_inv_def eng_inv_def tick_change_ok_def opt_list_def cp)
next
  case (event now ev b e)
  obtain ans where a: "list_all2 answers (ex_feedback (bt_executor b)) ans" 
    "sys_inv (bt_engine b, ans @ bt_commands b)" and t: "tick_change_ok (bt_engine b)" and cp: "3 \<le> ex_cap (bt_executor b)"
    using event(3) by (auto simp: bot_inv_def sys_inv_def)
  from sys_inv_step [OF sys_step.event [OF event(1,2)] a(2)] a(1) tick_change_event [OF event(1,2) t] show ?case
    by (auto simp: bot_inv_def sys_inv_def cp)
next
  case (pause p b cs e)
  obtain ans where a: "list_all2 answers (ex_feedback (bt_executor b)) ans" 
    "sys_inv (bt_engine b, ans @ bt_commands b)" and t: "tick_change_ok (bt_engine b)" and cp: "3 \<le> ex_cap (bt_executor b)"
    using pause(2) by (auto simp: bot_inv_def sys_inv_def)
  have "en_pending_tick_change e = en_pending_tick_change (bt_engine b)"
    using pause(1) by (auto simp: set_paused_def Let_def split: if_splits prod.splits)
  with sys_inv_step [OF sys_step.pause [OF pause(1)] a(2)] a(1) t show ?case
    by (auto simp: bot_inv_def sys_inv_def tick_change_ok_def cp)
next
  case (draining b)
  then show ?case by (auto simp: bot_inv_def set_draining_def eng_inv_def tick_change_ok_def)
next
  case (diagnostic b now)
  then show ?case by (auto simp: bot_inv_def check_diagnostic_def eng_inv_def tick_change_ok_def)
next
  case (report b e)
  then show ?case by (auto simp: bot_inv_def same_talk_inv) (auto simp: tick_change_ok_def same_talk_def)
next
  case (execute b c cs s now)
  obtain ans where a: "list_all2 answers (ex_feedback (bt_executor b)) ans"
    "eng_inv (bt_engine b) (ans @ c # cs @ en_pending_commands (bt_engine b))" and t: "tick_change_ok (bt_engine b)" and cp: "3 \<le> ex_cap (bt_executor b)"
    using execute(1,2) by (auto simp: bot_inv_def)
  show ?case
  proof (cases "is_order_command c")
    case True
    have room: "length (ex_feedback (bt_executor b)) < ex_cap (bt_executor b)"
      using feedback_fits [OF execute(2)] execute True by (simp add: bot_inv_def)
    from True show ?thesis
    proof (cases rule: handle_command_answers [where L = L and s = s and now = now and x = "bt_executor b"])
      case (1 fb)
      have "ex_feedback (handle_command L s now c (bt_executor b)) = ex_feedback (bt_executor b) @ [fb]"
        using room 1(2) by (simp add: try_send_def)
      moreover have "list_all2 answers (ex_feedback (bt_executor b) @ [fb]) (ans @ [c])"
        using a(1) 1(1) by (intro list_all2_appendI) simp_all
      ultimately show ?thesis using a(2) t 1(3) execute(2)
        by (auto simp: bot_inv_def intro!: exI [of _ "ans @ [c]"])
    qed
  next
    case False
    have "3 \<le> ex_cap (bt_executor b)" using execute(2) by (simp add: bot_inv_def)
    with eng_inv_drop_other [OF a(2) False] a(1) t show ?thesis
      by (auto simp: bot_inv_def handle_command_silent [OF False])
  qed
next
  case (feedback b fb fbs now)
  obtain c as where a: "answers fb c" "list_all2 answers fbs as"
    "eng_inv (bt_engine b) ([] @ c # (as @ bt_commands b @ en_pending_commands (bt_engine b)))" and t: "tick_change_ok (bt_engine b)" and cp: "3 \<le> ex_cap (bt_executor b)"
    using feedback by (auto simp: bot_inv_def list_all2_Cons1)
  from feedback_inv [OF a(3,1), of L now] a(2) t feedback(2) show ?case
    by (auto simp: bot_inv_def tick_change_ok_def tick_change_feedback)
qed

lemma bot_inv_run: "bot_run L b b' \<Longrightarrow> bot_inv b \<Longrightarrow> bot_inv b'"
  by (induction rule: bot_run.induct) (auto intro: bot_inv_step)

lemma bot_inv_start:
  assumes "has_no_open_position (bt_engine b)" and "\<not> en_pending_rebalance (bt_engine b)"
    and "list_all (\<lambda>c. \<not> is_order_command c) (bt_commands b @ en_pending_commands (bt_engine b) @ opt_list (en_pending_tick_change (bt_engine b)))"
    and "ex_feedback (bt_executor b) = []" and "3 \<le> ex_cap (bt_executor b)"
  shows "bot_inv b"
proof -
  have "sys_inv (bt_engine b, bt_commands b)" by (rule sys_inv_start [OF assms(1,2)]) (use assms(3) in simp)
  then show ?thesis using assms(3-5) by (simp add: bot_inv_def sys_inv_def tick_change_ok_def)
qed


definition demo_bot :: bot where
  "demo_bot = \<lparr> bt_engine = demo_engine position_new, bt_commands = [],
     bt_executor = executor_new \<lparr> gw_signer = False, gw_sdk = False \<rparr> 8192 \<rparr>"


section \<open>When the exchange does not answer\<close>


definition deaf_sdk :: sdk where
  "deaf_sdk = \<lparr> sdk_u256 = (\<lambda>t. None), sdk_timestamp = (\<lambda>t. None), sdk_build = (\<lambda>o1. False), sdk_sign = (\<lambda>o1. False),
     sdk_post = (\<lambda>o1. None), sdk_cancel = (\<lambda>i. None), sdk_order = (\<lambda>i. None), sdk_cancel_all = False,
     sdk_tick_size = (\<lambda>t. False), sdk_neg_risk = (\<lambda>t. False), sdk_fee_rate = (\<lambda>t. False), sdk_tick_ok = (\<lambda>t. False) \<rparr>"


section \<open>What reaches the exchange\<close>

fun order_call :: "sdk_call \<Rightarrow> bool" where
  "order_call (CallBuild lo) = True"
| "order_call (CallSign lo) = True"
| "order_call (CallPost lo) = True"
| "order_call c = False"

fun sane_call :: "sdk_call \<Rightarrow> bool" where
  "sane_call (CallPost lo) = (lo_side lo = SdkBuy \<and> lo_expiration lo = None
     \<and> (if lo_post_only lo then lo_type lo = GTC \<and> grid 2 (lo_size lo) else lo_type lo = FOK \<and> lo_size lo \<noteq> 0))"
| "sane_call c = True"

text \<open>Every rotation among the commands fails to warm the caches up.\<close>

definition never_warms :: "(executor_command \<times> sdk \<times> u64) list \<Rightarrow> bool" where
  "never_warms cmds = list_all (\<lambda>(c, s, now). case c of
      CmdMarketRotation cid y n tick \<Rightarrow> \<not> (snd (prewarm_token s y) \<and> snd (prewarm_token s n)) | _ \<Rightarrow> True) cmds"

lemma prewarm_calls: "prewarm_token s t = (cs, ok) \<Longrightarrow> list_all (\<lambda>c. \<not> order_call c) cs"
  by (auto simp: prewarm_token_def split: option.splits)

lemma cancel_calls:
  "cancel_order s g i = (cs, r) \<Longrightarrow> list_all (\<lambda>c. \<not> order_call c) cs"
  "get_order_status s g i = (cs, r') \<Longrightarrow> list_all (\<lambda>c. \<not> order_call c) cs"
  "cancel_all s g = (cs, r'') \<Longrightarrow> list_all (\<lambda>c. \<not> order_call c) cs"
  by (auto simp: cancel_order_def get_order_status_def cancel_all_def split: if_splits)

lemma rotation_calls: "\<exists>cs. ex_calls (ex_market_rotation s cid y n tick x) = ex_calls x @ cs \<and> list_all (\<lambda>c. \<not> order_call c) cs"
proof -
  obtain c0 r where 0: "cancel_all s (ex_gateway x) = (c0, r)" by fastforce
  obtain c1 b1 where 1: "prewarm_token s y = (c1, b1)" by fastforce
  obtain c2 b2 where 2: "prewarm_token s n = (c2, b2)" by fastforce
  show ?thesis using prewarm_calls [OF 1] prewarm_calls [OF 2] cancel_calls(3) [OF 0]
    by (simp add: ex_market_rotation_def 0 1 2 Let_def)
qed

lemma rotation_warm:
  "\<not> (snd (prewarm_token s y) \<and> snd (prewarm_token s n)) \<Longrightarrow> \<not> ex_caches_warm (ex_market_rotation s cid y n tick x)"
  by (auto simp: ex_market_rotation_def Let_def split: prod.splits)

lemma tick_calls: "\<exists>cs. ex_calls (handle_tick_size_change s y n tick x) = ex_calls x @ cs \<and> list_all (\<lambda>c. \<not> order_call c) cs"
  by (auto simp: handle_tick_size_change_def list_all_iff split: option.splits)

lemma cold_step:
  assumes "\<not> ex_caches_warm x" and "never_warms [(c, s, now)]"
  shows "\<not> ex_caches_warm (handle_command L s now c x)
    \<and> (\<exists>cs. ex_calls (handle_command L s now c x) = ex_calls x @ cs \<and> list_all (\<lambda>c. \<not> order_call c) cs)"
proof (cases c)
  case (CancelOrder sd i)
  obtain c1 w where 1: "cancel_order s (ex_gateway x) i = (c1, w)" by fastforce
  obtain c2 st where 2: "get_order_status s (ex_gateway x) i = (c2, st)" by fastforce
  show ?thesis using CancelOrder assms cancel_calls(1) [OF 1] cancel_calls(2) [OF 2] by (simp add: handle_cancel_def 1 2 Let_def)
next
  case (CmdMarketRotation cid y n tick)
  then show ?thesis using rotation_calls [of s cid y n tick x] rotation_warm assms(2) by (simp add: never_warms_def)
next
  case (TickSizeChanged y n tick)
  have "ex_caches_warm (handle_tick_size_change s y n tick x) = ex_caches_warm x" by (simp add: handle_tick_size_change_def)
  then show ?thesis using TickSizeChanged tick_calls [of s y n tick x] assms(1) by simp
qed (use assms in \<open>simp_all add: handle_post_order_def handle_rebalance_taker_def\<close>)

lemma place_calls:
  "\<exists>cs. fst (place_order s now g rq) = cs \<and> list_all sane_call cs"
  if "rq_side rq = Buy" and "rq_expiration rq = None"
    and "if rq_post_only rq then rq_order_type rq = Gtc \<and> grid 2 (rq_size rq) else rq_order_type rq = Fok \<and> rq_size rq \<noteq> 0"
  using that by (auto simp: place_order_def limit_order_of_def Let_def split: option.splits if_splits)

lemma sane_step:
  assumes "trunc_dp_law L" and "list_all sane_call (ex_calls x)"
  shows "list_all sane_call (ex_calls (handle_command L s now c x))"
proof -
  have "\<not> order_call k \<Longrightarrow> sane_call k" for k by (cases k) simp_all
  then have o: "list_all (\<lambda>c. \<not> order_call c) cs \<Longrightarrow> list_all sane_call cs" for cs
    by (auto simp: list_all_iff)
  show ?thesis
  proof (cases c)
    case (PostOrder sd tok price sz)
    let ?rq = "post_only_gtc tok Buy (round_to_tick L price (dnew 1 2)) (d_trunc_dp L 2 sz)"
    have "list_all sane_call (fst (place_order s now (ex_gateway x) ?rq))"
      using place_calls [of ?rq s now "ex_gateway x"] assms(1) by (simp add: post_only_gtc_def trunc_dp_law_def)
    then show ?thesis using PostOrder assms(2)
      by (cases "place_order s now (ex_gateway x) ?rq") (simp add: handle_post_order_def Let_def)
  next
    case (CancelOrder sd i)
    obtain c1 w where 1: "cancel_order s (ex_gateway x) i = (c1, w)" by fastforce
    obtain c2 st where 2: "get_order_status s (ex_gateway x) i = (c2, st)" by fastforce
    show ?thesis using CancelOrder assms(2) o [OF cancel_calls(1) [OF 1]] o [OF cancel_calls(2) [OF 2]]
      by (simp add: handle_cancel_def 1 2 Let_def)
  next
    case (RebalanceTaker sd tok price sz)
    let ?rq = "emergency_fok tok Buy price (clob_safe_fok_size L price sz)"
    have "list_all sane_call (fst (place_order s now (ex_gateway x) ?rq))" if "clob_safe_fok_size L price sz \<noteq> 0"
      using place_calls [of ?rq s now "ex_gateway x"] that by (simp add: emergency_fok_def)
    then show ?thesis using RebalanceTaker assms(2)
      by (cases "place_order s now (ex_gateway x) ?rq"; cases "clob_safe_fok_size L price sz = 0")
        (simp_all add: handle_rebalance_taker_def Let_def)
  next
    case (CmdMarketRotation cid y n tick)
    then show ?thesis using rotation_calls [of s cid y n tick x] assms(2) o by auto
  next
    case (TickSizeChanged y n tick)
    then show ?thesis using tick_calls [of s y n tick x] assms(2) o by auto
  qed
qed

lemma run_cold:
  assumes "\<not> ex_caches_warm x" and "never_warms cmds"
  shows "\<not> ex_caches_warm (run L cmds x) \<and> (\<exists>cs. ex_calls (run L cmds x) = ex_calls x @ cs \<and> list_all (\<lambda>c. \<not> order_call c) cs)"
  using assms
proof (induction cmds arbitrary: x)
  case (Cons m cmds)
  obtain c s now where m: "m = (c, s, now)" by (cases m)
  have nw: "never_warms [(c, s, now)]" "never_warms cmds" using Cons.prems(2) by (simp_all add: m never_warms_def)
  from cold_step [OF Cons.prems(1) nw(1), of L] Cons.IH [OF _ nw(2), of "handle_command L s now c x"] show ?case
    by (auto simp: m)
qed simp

lemma run_sane:
  assumes "trunc_dp_law L" and "list_all sane_call (ex_calls x)"
  shows "list_all sane_call (ex_calls (run L cmds x))"
  using assms(2) by (induction cmds arbitrary: x) (auto simp: sane_step [OF assms(1)])

text \<open>
  C29. What the executor sends. From a fresh executor, for any commands and any answers of the
  exchange, every order it posts is a buy without expiry, either post-only good-till-cancelled
  with a size of two decimal places or fill-or-kill with a size that is not zero; and as long as
  no rotation has warmed up the caches of both tokens, it builds, signs and posts nothing.
\<close>

theorem executor_sends_only_sane_orders:
  assumes "trunc_dp_law L"
  shows "list_all sane_call (ex_calls (run L cmds (executor_new g cap)))
    \<and> (never_warms cmds \<longrightarrow> list_all (\<lambda>c. \<not> order_call c) (ex_calls (run L cmds (executor_new g cap))))"
  using run_sane [OF assms, of "executor_new g cap" cmds] run_cold [of "executor_new g cap" cmds L]
  by (auto simp: executor_new_def)

lemma executor_sends_only_sane_orders_witness:
  "list_all (\<lambda>c. \<not> order_call c) (ex_calls (run exact_lib [(PostOrder Yes ''1'' (1 / 2) 10, deaf_sdk, 0)]
     (executor_new \<lparr> gw_signer = True, gw_sdk = True \<rparr> 8192)))"
  using executor_sends_only_sane_orders [of exact_lib "[(PostOrder Yes ''1'' (1 / 2) 10, deaf_sdk, 0)]"]
  by (simp add: never_warms_def)

text \<open>
  A post the exchange answers with the status \<open>Canceled\<close>, or with a status the SDK does not
  know, counts as resting: the executor answers \<open>OrderPosted\<close>, not filled.
\<close>

theorem cancelled_post_counts_as_resting:
  assumes "pa_success a" and "pa_status a \<noteq> SdkMatched"
  shows "post_feedback sd price sz (Inr (response_of now a)) = OrderPosted sd (pa_order_id a) price sz False"
  using assms by (cases "pa_status a") (simp_all add: post_feedback_def response_of_def)

lemma cancelled_post_counts_as_resting_witness:
  "post_feedback Yes (1 / 2) 10 (Inr (response_of 0 \<lparr> pa_order_id = ''o'', pa_status = SdkCanceled, pa_success = True,
     pa_taking_amount = 0 \<rparr>)) = OrderPosted Yes ''o'' (1 / 2) 10 False"
  by (subst cancelled_post_counts_as_resting) simp_all

end
