(* ===== verification/EngineLoop.thy ===== *)
theory EngineLoop
  imports BotProtocol ColdStorage
begin

text \<open>
  The engine thread of \<open>src/src/main.rs\<close>: one iteration of its receive loop per ingestor event.
  What an iteration reads from outside (the clock at each reading, the feedback waiting on the
  channel, the notification flags, whether the executor and the database accept what is sent) is
  the record \<open>io\<close>; what it sends is appended to the fields of \<open>loop_state\<close>.
\<close>

section \<open>State\<close>

record io =
  io_feedback :: "(executor_feedback \<times> u64) list"
  io_now_event :: u64
  io_now_quote :: u64
  io_now_diag :: u64
  io_now_cold :: u64
  io_now_status :: u64
  io_flags :: notify_flags
  io_connected :: bool
  io_flush :: "nat \<Rightarrow> bool"

record loop_state =
  lp_engine :: engine
  lp_cold :: "cold_storage option"
  lp_last_tick_record_ms :: u64
  lp_last_status_publish_ms :: u64
  lp_exit_code :: "int option"
  lp_running :: bool
  lp_commands :: "executor_command list"
  lp_drain :: "drain_status list"
  lp_redeems :: nat
  lp_telegram :: "string list"
  lp_reports :: "string list"
  lp_statuses :: "bot_status list"

definition tick_record_interval_ms :: u64 where
  "tick_record_interval_ms = 1000"

definition status_interval_ms :: u64 where
  "status_interval_ms = 5000"

definition loop_start :: "engine \<Rightarrow> cold_storage option \<Rightarrow> loop_state" where
  "loop_start e cold = \<lparr> lp_engine = e, lp_cold = cold, lp_last_tick_record_ms = 0,
     lp_last_status_publish_ms = 0, lp_exit_code = None, lp_running = True, lp_commands = [],
     lp_drain = [], lp_redeems = 0, lp_telegram = [], lp_reports = [], lp_statuses = [] \<rparr>"

section \<open>Parts of an iteration\<close>

definition drain_feedback :: "'a lib_scheme \<Rightarrow> (executor_feedback \<times> u64) list \<Rightarrow> engine \<Rightarrow> engine" where
  "drain_feedback L fbs e = foldl (\<lambda>e (fb, now). on_feedback L now fb e) e fbs"

text \<open>A send fails only when the executor is gone; then nothing more gets through.\<close>

definition send :: "io \<Rightarrow> executor_command list \<Rightarrow> loop_state \<Rightarrow> loop_state" where
  "send i cs lp = (if io_connected i then lp\<lparr> lp_commands := lp_commands lp @ cs \<rparr> else lp)"

definition drain_request :: "'a lib_scheme \<Rightarrow> io \<Rightarrow> int \<Rightarrow> string \<Rightarrow> string \<Rightarrow> loop_state \<Rightarrow> loop_state" where
  "drain_request L i exit_code reason summary lp =
     (let lp1 = lp\<lparr> lp_engine := set_draining (lp_engine lp), lp_exit_code := Some exit_code \<rparr>
      in if has_no_open_position (lp_engine lp1)
         then lp1\<lparr> lp_engine := send_session_summary L (io_now_event i) (lp_engine lp1),
                   lp_drain := lp_drain lp1 @ [DrainComplete exit_code summary], lp_running := False \<rparr>
         else lp1\<lparr> lp_drain := lp_drain lp1 @ [Draining reason ''Waiting for market rotation''] \<rparr>)"

definition pause_request :: "bool \<Rightarrow> io \<Rightarrow> loop_state \<Rightarrow> loop_state" where
  "pause_request p i lp = (let (cs, e) = set_paused p (lp_engine lp) in send i cs (lp\<lparr> lp_engine := e \<rparr>))"

fun control_event :: "'a lib_scheme \<Rightarrow> io \<Rightarrow> ingestor_event \<Rightarrow> loop_state \<Rightarrow> loop_state option" where
  "control_event L i EvShutdown lp =
     Some (drain_request L i 0 ''shutdown'' ''No open positions. Bot stopped.'' lp)"
| "control_event L i EvDrainAndRestart lp =
     Some (drain_request L i 42 ''config change'' ''No open positions. Restarting...'' lp)"
| "control_event L i EvPauseTrading lp = Some (pause_request True i lp)"
| "control_event L i EvResumeTrading lp = Some (pause_request False i lp)"
| "control_event L i ev lp = None"

definition cold_calls :: "'a lib_scheme \<Rightarrow> io \<Rightarrow> nat \<Rightarrow> call list \<Rightarrow> cold_storage option \<Rightarrow> cold_storage option" where
  "cold_calls L i k cs c = map_option (\<lambda>s. foldl (\<lambda>s (j, cl). cold_call L (cl, io_flush i j, io_now_cold i) s) s
     (zip [k ..< k + length cs] cs)) c"

text \<open>Binance ticks are recorded at most once a second, by their own timestamps.\<close>

fun record_spot :: "'a lib_scheme \<Rightarrow> io \<Rightarrow> ingestor_event \<Rightarrow> loop_state \<Rightarrow> loop_state" where
  "record_spot L i (EvBinanceTick t) lp =
     (if tick_record_interval_ms \<le> saturating_sub (bt_timestamp_ms t) (lp_last_tick_record_ms lp)
      then lp\<lparr> lp_cold := cold_calls L i 0 [CallTick t] (lp_cold lp), lp_last_tick_record_ms := bt_timestamp_ms t \<rparr>
      else lp)"
| "record_spot L i ev lp = lp"

definition forward_pending :: "io \<Rightarrow> loop_state \<Rightarrow> loop_state" where
  "forward_pending i lp =
     (let (cs, e1) = take_pending_commands (lp_engine lp); (c, e2) = take_tick_size_change e1
      in send i (cs @ opt_list c) (lp\<lparr> lp_engine := e2 \<rparr>))"

definition quote :: "'a lib_scheme \<Rightarrow> io \<Rightarrow> loop_state \<Rightarrow> loop_state" where
  "quote L i lp = (let (e, cs) = quote_tick L (io_now_quote i) (lp_engine lp) in send i cs (lp\<lparr> lp_engine := e \<rparr>))"

text \<open>A requested drain completes as soon as nothing rests and nothing is in flight.\<close>

definition drain_check :: "'a lib_scheme \<Rightarrow> io \<Rightarrow> loop_state \<Rightarrow> loop_state" where
  "drain_check L i lp = (case lp_exit_code lp of
      None \<Rightarrow> lp
    | Some exit_code \<Rightarrow>
        if has_no_open_position (lp_engine lp)
        then lp\<lparr> lp_engine := send_session_summary L (io_now_quote i) (lp_engine lp),
                 lp_drain := lp_drain lp @ [DrainComplete exit_code
                   (if exit_code = 0 then ''Bot stopped.'' else ''Restarting with new config...'')],
                 lp_running := False \<rparr>
        else lp)"

definition diagnostics :: "'a lib_scheme \<Rightarrow> io \<Rightarrow> loop_state \<Rightarrow> loop_state" where
  "diagnostics L i lp =
     (let (msg, e) = take_pending_telegram_diag (check_diagnostic L (io_now_diag i) (lp_engine lp))
      in lp\<lparr> lp_engine := e, lp_telegram := lp_telegram lp
           @ (if diagnostics_on (io_flags i) then opt_list msg else []) \<rparr>)"

definition fill_messages :: "io \<Rightarrow> loop_state \<Rightarrow> loop_state" where
  "fill_messages i lp = (let (msgs, e) = take_pending_fill_messages (lp_engine lp)
     in lp\<lparr> lp_engine := e, lp_telegram := lp_telegram lp @ (if trades_on (io_flags i) then msgs else []) \<rparr>)"

definition market_report :: "io \<Rightarrow> loop_state \<Rightarrow> loop_state" where
  "market_report i lp = (let (rep, e) = take_pending_market_report (lp_engine lp)
     in lp\<lparr> lp_engine := e, lp_reports := lp_reports lp
          @ (if summary_on (io_flags i) \<and> en_reporter e then opt_list rep else []) \<rparr>)"

definition store_records :: "'a lib_scheme \<Rightarrow> io \<Rightarrow> loop_state \<Rightarrow> loop_state" where
  "store_records L i lp =
     (let (fills, e1) = take_pending_fill_records (lp_engine lp);
          (summary, e2) = take_pending_market_summary e1; (risks, e3) = take_pending_risk_records e2
      in lp\<lparr> lp_engine := e3, lp_cold := cold_calls L i 1
           (map CallFill fills @ map CallSummary (opt_list summary) @ map CallRisk risks) (lp_cold lp) \<rparr>)"

definition publish_status :: "'a lib_scheme \<Rightarrow> io \<Rightarrow> loop_state \<Rightarrow> loop_state" where
  "publish_status L i lp =
     (if status_interval_ms \<le> saturating_sub (io_now_status i) (lp_last_status_publish_ms lp)
      then lp\<lparr> lp_statuses := lp_statuses lp @ [(build_status L (io_now_status i) ''v2-live'' (lp_engine lp))
               \<lparr> bs_trades_enabled := trades_on (io_flags i), bs_summary_enabled := summary_on (io_flags i) \<rparr>],
             lp_last_status_publish_ms := io_now_status i \<rparr>
      else lp)"

section \<open>The loop\<close>

definition report_all :: "'a lib_scheme \<Rightarrow> io \<Rightarrow> loop_state \<Rightarrow> loop_state" where
  "report_all L i lp = publish_status L i (store_records L i (market_report i (fill_messages i (diagnostics L i lp))))"

definition after_engine :: "'a lib_scheme \<Rightarrow> io \<Rightarrow> ingestor_event \<Rightarrow> loop_state \<Rightarrow> loop_state" where
  "after_engine L i ev lp =
     (let lp1 = forward_pending i lp;
          lp2 = (if is_rotation ev then lp1\<lparr> lp_redeems := lp_redeems lp1 + 1 \<rparr> else lp1);
          lp3 = drain_check L i (quote L i lp2)
      in if lp_running lp3 then report_all L i lp3 else lp3)"

definition iteration :: "'a lib_scheme \<Rightarrow> io \<Rightarrow> ingestor_event \<Rightarrow> loop_state \<Rightarrow> loop_state outcome" where
  "iteration L i ev lp =
     (let lp1 = lp\<lparr> lp_engine := drain_feedback L (io_feedback i) (lp_engine lp) \<rparr>
      in case control_event L i ev lp1 of
          Some lp2 \<Rightarrow> Good lp2
        | None \<Rightarrow> (let lp2 = record_spot L i ev lp1
            in obind (on_event L (io_now_event i) ev (lp_engine lp2)) (\<lambda>e.
               Good (after_engine L i ev (lp2\<lparr> lp_engine := e \<rparr>)))))"

text \<open>The loop ends when the channel is closed (the list is empty) or a drain completes.\<close>

fun loop :: "'a lib_scheme \<Rightarrow> (io \<times> ingestor_event) list \<Rightarrow> loop_state \<Rightarrow> loop_state outcome" where
  "loop L [] lp = Good lp"
| "loop L ((i, ev) # rest) lp = (if lp_running lp then obind (iteration L i ev lp) (loop L rest) else Good lp)"

text \<open>After the loop the session summary goes out and the database buffer is flushed.\<close>

definition finish :: "notify_flags \<Rightarrow> bool \<Rightarrow> u64 \<Rightarrow> loop_state \<Rightarrow> loop_state" where
  "finish flags flush_ok now lp =
     (let (summary, e) = take_pending_session_summary (lp_engine lp)
      in lp\<lparr> lp_engine := e,
           lp_reports := lp_reports lp @ (if summary_on flags \<and> en_reporter e then opt_list summary else []),
           lp_cold := map_option (\<lambda>s. snd (flush_ticks flush_ok now s)) (lp_cold lp) \<rparr>)"

section \<open>An iteration refines the conversation with the executor\<close>

lemma bot_run_trans: "bot_run L b c \<Longrightarrow> bot_run L a b \<Longrightarrow> bot_run L a c"
  by (induction rule: bot_run.induct) (auto intro: bot_run.more)

lemma bot_run_one: "bot_step L a b \<Longrightarrow> bot_run L a b"
  by (rule bot_run.more [OF bot_run.none])

lemma drain_feedback_run:
  assumes "ex_feedback (bt_executor b) = map fst fbs @ rest"
  shows "bot_run L b (b\<lparr> bt_engine := drain_feedback L fbs (bt_engine b), bt_executor := (bt_executor b)\<lparr> ex_feedback := rest \<rparr> \<rparr>)"
  using assms
proof (induction fbs arbitrary: b)
  case Nil
  have "b\<lparr> bt_engine := bt_engine b, bt_executor := (bt_executor b)\<lparr> ex_feedback := rest \<rparr> \<rparr> = b" using Nil by simp
  then show ?case by (simp add: drain_feedback_def bot_run.none)
next
  case (Cons f fbs)
  obtain fb now where f: "f = (fb, now)" by (cases f)
  have h: "ex_feedback (bt_executor b) = fb # (map fst fbs @ rest)" using Cons.prems by (simp add: f)
  have s: "bot_step L b (b\<lparr> bt_engine := on_feedback L now fb (bt_engine b),
      bt_executor := (bt_executor b)\<lparr> ex_feedback := map fst fbs @ rest \<rparr> \<rparr>)" by (rule bot_step.feedback [OF h])
  from bot_run_trans [OF Cons.IH bot_run_one [OF s]] show ?case by (simp add: drain_feedback_def f)
qed

definition refines :: "'a lib_scheme \<Rightarrow> loop_state \<Rightarrow> loop_state \<Rightarrow> bool" where
  "refines L lp lp' \<longleftrightarrow> (\<exists>cs. lp_commands lp' = lp_commands lp @ cs
     \<and> (\<forall>b. bt_engine b = lp_engine lp \<longrightarrow> bot_run L b (b\<lparr> bt_engine := lp_engine lp', bt_commands := bt_commands b @ cs \<rparr>)))"

lemma refines_same_commands:
  assumes "lp_commands lp' = lp_commands lp" and "\<And>b. bt_engine b = lp_engine lp \<Longrightarrow> bot_run L b (b\<lparr> bt_engine := lp_engine lp' \<rparr>)"
  shows "refines L lp lp'"
  using assms by (simp add: refines_def)

lemma refines_trans [trans]:
  assumes "refines L a b" and "refines L b c"
  shows "refines L a c"
proof -
  obtain cs where 1: "lp_commands b = lp_commands a @ cs"
    "\<And>x. bt_engine x = lp_engine a \<Longrightarrow> bot_run L x (x\<lparr> bt_engine := lp_engine b, bt_commands := bt_commands x @ cs \<rparr>)"
    using assms(1) by (auto simp: refines_def)
  obtain ds where 2: "lp_commands c = lp_commands b @ ds"
    "\<And>x. bt_engine x = lp_engine b \<Longrightarrow> bot_run L x (x\<lparr> bt_engine := lp_engine c, bt_commands := bt_commands x @ ds \<rparr>)"
    using assms(2) by (auto simp: refines_def)
  have "bot_run L x (x\<lparr> bt_engine := lp_engine c, bt_commands := bt_commands x @ cs @ ds \<rparr>)" if "bt_engine x = lp_engine a" for x
    using bot_run_trans [OF 2(2) 1(2) [OF that]] by simp
  with 1(1) 2(1) show ?thesis by (auto simp: refines_def)
qed

lemma refines_report:
  "lp_commands lp' = lp_commands lp \<Longrightarrow> same_talk (lp_engine lp) (lp_engine lp') \<Longrightarrow>
     en_pending_tick_change (lp_engine lp') = en_pending_tick_change (lp_engine lp) \<Longrightarrow> refines L lp lp'"
  by (rule refines_same_commands) (auto intro!: bot_run_one bot_step.report)

lemma refines_refl: "refines L lp lp"
  by (rule refines_report) (simp_all add: same_talk_def)

lemma summary_talk: "same_talk e (send_session_summary L now e)" "en_pending_tick_change (send_session_summary L now e) = en_pending_tick_change e"
  by (simp_all add: same_talk_def send_session_summary_def Let_def)

lemma refines_drain_request:
  "refines L lp (drain_request L i code reason summary lp)"
proof (rule refines_same_commands)
  show "lp_commands (drain_request L i code reason summary lp) = lp_commands lp" by (simp add: drain_request_def Let_def)
next
  fix b :: bot assume b: "bt_engine b = lp_engine lp"
  let ?d = "b\<lparr> bt_engine := set_draining (lp_engine lp) \<rparr>"
  have 1: "bot_run L b ?d" using bot_run_one [OF bot_step.draining [of L b]] b by simp
  have 2: "bot_step L ?d (?d\<lparr> bt_engine := send_session_summary L (io_now_event i) (set_draining (lp_engine lp)) \<rparr>)"
    by (rule bot_step.report) (simp_all add: summary_talk)
  show "bot_run L b (b\<lparr> bt_engine := lp_engine (drain_request L i code reason summary lp) \<rparr>)"
    using 1 bot_run_trans [OF bot_run_one [OF 2] 1] by (simp add: drain_request_def Let_def)
qed

lemma refines_pause:
  assumes "io_connected i"
  shows "refines L lp (pause_request p i lp)"
proof -
  obtain cs e where p: "set_paused p (lp_engine lp) = (cs, e)" by fastforce
  then have "\<And>b. bt_engine b = lp_engine lp \<Longrightarrow> bot_run L b (b\<lparr> bt_engine := e, bt_commands := bt_commands b @ cs \<rparr>)"
    by (auto intro!: bot_run_one bot_step.pause)
  then show ?thesis using p assms by (auto simp: pause_request_def send_def refines_def)
qed

lemma refines_control:
  "io_connected i \<Longrightarrow> control_event L i ev lp = Some lp' \<Longrightarrow> refines L lp lp'"
  by (cases ev) (auto intro: refines_drain_request refines_pause)

lemma refines_forward:
  assumes "io_connected i"
  shows "refines L lp (forward_pending i lp)"
proof -
  obtain cs e1 where 1: "take_pending_commands (lp_engine lp) = (cs, e1)" by fastforce
  obtain c e2 where 2: "take_tick_size_change e1 = (c, e2)" by fastforce
  have "bot_run L b (b\<lparr> bt_engine := e2, bt_commands := bt_commands b @ cs @ opt_list c \<rparr>)" if b: "bt_engine b = lp_engine lp" for b
  proof -
    have "bot_step L b (b\<lparr> bt_engine := e1, bt_commands := bt_commands b @ cs \<rparr>)" by (rule bot_step.drain) (simp add: b 1)
    moreover have "bot_step L (b\<lparr> bt_engine := e1, bt_commands := bt_commands b @ cs \<rparr>)
      ((b\<lparr> bt_engine := e1, bt_commands := bt_commands b @ cs \<rparr>)\<lparr> bt_engine := e2,
        bt_commands := bt_commands (b\<lparr> bt_engine := e1, bt_commands := bt_commands b @ cs \<rparr>) @ opt_list c \<rparr>)"
      by (rule bot_step.tick_size) (simp add: 2)
    ultimately show ?thesis using bot_run_trans [OF bot_run_one bot_run_one] by fastforce
  qed
  then show ?thesis using assms 1 2 by (auto simp: forward_pending_def send_def refines_def)
qed

lemma refines_quote:
  assumes "io_connected i"
  shows "refines L lp (quote L i lp)"
proof -
  obtain e cs where q: "quote_tick L (io_now_quote i) (lp_engine lp) = (e, cs)" by fastforce
  then have "\<And>b. bt_engine b = lp_engine lp \<Longrightarrow> bot_run L b (b\<lparr> bt_engine := e, bt_commands := bt_commands b @ cs \<rparr>)"
    by (auto intro!: bot_run_one bot_step.tick)
  then show ?thesis using q assms by (auto simp: quote_def send_def refines_def)
qed

lemma refines_event:
  assumes "on_event L (io_now_event i) ev (lp_engine lp) = Good e" and "\<not> is_rotation ev"
  shows "refines L lp (lp\<lparr> lp_engine := e \<rparr>)"
  by (rule refines_same_commands) (use assms in \<open>auto intro!: bot_run_one bot_step.event\<close>)

lemma refines_drain_check: "refines L lp (drain_check L i lp)"
  by (rule refines_report) (auto simp: drain_check_def summary_talk same_talk_def [of "lp_engine lp" "lp_engine lp"] split: option.splits)

lemma diagnostic_talk: "same_talk e (check_diagnostic L now e)" "en_pending_tick_change (check_diagnostic L now e) = en_pending_tick_change e"
  by (simp_all add: same_talk_def check_diagnostic_def)

lemma refines_report_all: "refines L lp (report_all L i lp)"
  by (rule refines_report)
    (use diagnostic_talk [where e = "lp_engine lp" and L = L and now = "io_now_diag i"] in
      \<open>simp_all add: report_all_def publish_status_def store_records_def market_report_def fill_messages_def diagnostics_def
        take_pending_fill_records_def take_pending_market_summary_def take_pending_risk_records_def
        take_pending_market_report_def take_pending_fill_messages_def take_pending_telegram_diag_def Let_def same_talk_def\<close>)

lemma refines_spot: "refines L lp (record_spot L i ev lp)"
  by (rule refines_report) (cases ev; simp add: same_talk_def)+

lemma refines_after_engine:
  assumes "io_connected i" and "\<not> is_rotation ev"
  shows "refines L lp (after_engine L i ev lp)"
proof -
  let ?f = "forward_pending i lp"
  have "refines L lp ?f" by (rule refines_forward [OF assms(1)])
  also have "refines L ?f (quote L i ?f)" by (rule refines_quote [OF assms(1)])
  also have "refines L (quote L i ?f) (drain_check L i (quote L i ?f))" by (rule refines_drain_check)
  finally have d: "refines L lp (drain_check L i (quote L i ?f))" .
  show ?thesis
  proof (cases "lp_running (drain_check L i (quote L i ?f))")
    case True
    with refines_trans [OF d refines_report_all] assms(2) show ?thesis by (simp add: after_engine_def Let_def)
  next
    case False
    with d assms(2) show ?thesis by (simp add: after_engine_def Let_def)
  qed
qed


text \<open>An iteration that finds one answer waiting and can send.\<close>

definition demo_io :: "(executor_feedback \<times> u64) list \<Rightarrow> io" where
  "demo_io fbs = \<lparr> io_feedback = fbs, io_now_event = 1000, io_now_quote = 1000, io_now_diag = 1000, io_now_cold = 1000,
     io_now_status = 1000, io_flags = notify_new, io_connected = True, io_flush = (\<lambda>n. True) \<rparr>"


section \<open>Draining\<close>

lemma summary_open [simp]: "has_no_open_position (send_session_summary L now e) = has_no_open_position e"
  by (simp add: has_no_open_position_def send_session_summary_def Let_def)

lemma summary_pending [simp]: "en_pending_fill_records (send_session_summary L now e) = en_pending_fill_records e"
  by (simp add: send_session_summary_def Let_def)

lemma set_draining_keeps [simp]:
  "has_no_open_position (set_draining e) = has_no_open_position e"
  "en_pending_fill_records (set_draining e) = en_pending_fill_records e"
  by (simp_all add: has_no_open_position_def set_draining_def)

text \<open>The iteration ended the loop, and how it did so.\<close>

definition drained :: "loop_state \<Rightarrow> loop_state \<Rightarrow> bool" where
  "drained lp lp' = (has_no_open_position (lp_engine lp')
     \<and> (\<exists>code text. lp_exit_code lp' = Some code \<and> lp_drain lp' = lp_drain lp @ [DrainComplete code text]))"

lemma drain_request_drained:
  "lp_running lp \<Longrightarrow> \<not> lp_running (drain_request L i code reason summary lp) \<Longrightarrow>
     drained lp (drain_request L i code reason summary lp)"
  by (simp add: drain_request_def Let_def drained_def split: if_splits)

lemma drain_check_drained:
  "lp_running lp \<Longrightarrow> \<not> lp_running (drain_check L i lp) \<Longrightarrow> drained lp (drain_check L i lp)"
  by (simp add: drain_check_def drained_def split: if_splits option.splits)

lemma send_keeps [simp]:
  "lp_running (send i cs lp) = lp_running lp" "lp_drain (send i cs lp) = lp_drain lp" "lp_engine (send i cs lp) = lp_engine lp"
  "lp_exit_code (send i cs lp) = lp_exit_code lp" "lp_cold (send i cs lp) = lp_cold lp"
  by (simp_all add: send_def)

lemma parts_keep [simp]:
  "lp_running (forward_pending i lp) = lp_running lp" "lp_drain (forward_pending i lp) = lp_drain lp"
  "lp_running (quote L i lp) = lp_running lp" "lp_drain (quote L i lp) = lp_drain lp"
  "lp_running (pause_request p i lp) = lp_running lp"
  "lp_running (report_all L i lp) = lp_running lp"
  "lp_cold (forward_pending i lp) = lp_cold lp" "lp_cold (quote L i lp) = lp_cold lp" "lp_cold (drain_check L i lp) = lp_cold lp"
  by (simp_all add: forward_pending_def quote_def pause_request_def drain_check_def report_all_def publish_status_def store_records_def
      market_report_def fill_messages_def diagnostics_def Let_def split: prod.splits option.splits)

lemma spot_keeps [simp]:
  "lp_running (record_spot L i ev lp) = lp_running lp" "lp_drain (record_spot L i ev lp) = lp_drain lp"
  by (cases ev; simp)+

lemma iteration_drained:
  assumes "iteration L i ev lp = Good lp'" and "lp_running lp" and "\<not> lp_running lp'"
  shows "drained lp lp'"
proof -
  define lp1 where "lp1 = lp\<lparr> lp_engine := drain_feedback L (io_feedback i) (lp_engine lp) \<rparr>"
  have "drained lp1 lp'"
  proof (cases "control_event L i ev lp1")
    case (Some lp2)
    then have "lp' = lp2" using assms(1) by (simp add: iteration_def lp1_def)
    with Some assms(2,3) show ?thesis by (cases ev) (auto simp: lp1_def intro!: drain_request_drained)
  next
    case None
    let ?s = "record_spot L i ev lp1"
    obtain e where e: "lp' = after_engine L i ev (?s\<lparr> lp_engine := e \<rparr>)"
      using assms(1) None by (auto simp: iteration_def lp1_def [symmetric] obind_eq_Good Let_def)
    define q where "q = quote L i (let lp1 = forward_pending i (?s\<lparr> lp_engine := e \<rparr>)
      in if is_rotation ev then lp1\<lparr> lp_redeems := lp_redeems lp1 + 1 \<rparr> else lp1)"
    have a: "lp' = (if lp_running (drain_check L i q) then report_all L i (drain_check L i q) else drain_check L i q)"
      by (simp add: e after_engine_def Let_def q_def)
    have q: "lp_running q" "lp_drain q = lp_drain lp1" using assms(2) by (simp_all add: q_def Let_def lp1_def)
    have n: "\<not> lp_running (drain_check L i q)" using a assms(3) by auto
    with drain_check_drained [OF q(1) n] a q(2) show ?thesis by (simp add: drained_def)
  qed
  then show ?thesis by (simp add: drained_def lp1_def)
qed

text \<open>An iteration after which the loop goes on publishes at most that it drains.\<close>

lemma drain_check_running: "lp_running (drain_check L i lp) \<Longrightarrow> lp_drain (drain_check L i lp) = lp_drain lp"
  by (simp add: drain_check_def split: if_splits option.splits)

lemma report_drain [simp]: "lp_drain (report_all L i lp) = lp_drain lp"
  by (simp add: report_all_def publish_status_def store_records_def market_report_def fill_messages_def diagnostics_def
      Let_def split: prod.splits)

lemma iteration_draining:
  assumes "iteration L i ev lp = Good lp'" and "lp_running lp'"
  shows "\<exists>ds. lp_drain lp' = lp_drain lp @ ds \<and> (\<forall>d \<in> set ds. \<exists>reason info. d = Draining reason info)"
proof -
  define lp1 where "lp1 = lp\<lparr> lp_engine := drain_feedback L (io_feedback i) (lp_engine lp) \<rparr>"
  have d: "lp_drain lp = lp_drain lp1" by (simp add: lp1_def)
  show ?thesis
  proof (cases "control_event L i ev lp1")
    case (Some lp2)
    then have "lp' = lp2" using assms(1) by (simp add: iteration_def lp1_def)
    with Some assms(2) show ?thesis unfolding d
      by (cases ev) (auto simp: drain_request_def pause_request_def Let_def split: if_splits prod.splits)
  next
    case None
    let ?s = "record_spot L i ev lp1"
    obtain e where e: "lp' = after_engine L i ev (?s\<lparr> lp_engine := e \<rparr>)"
      using assms(1) None by (auto simp: iteration_def lp1_def [symmetric] obind_eq_Good Let_def)
    define q where "q = quote L i (let lp1 = forward_pending i (?s\<lparr> lp_engine := e \<rparr>)
      in if is_rotation ev then lp1\<lparr> lp_redeems := lp_redeems lp1 + 1 \<rparr> else lp1)"
    have a: "lp' = (if lp_running (drain_check L i q) then report_all L i (drain_check L i q) else drain_check L i q)"
      by (simp add: e after_engine_def Let_def q_def)
    have "lp_drain q = lp_drain lp1" by (simp add: q_def Let_def)
    with a assms(2) drain_check_running [of L i q] d show ?thesis by (auto split: if_splits)
  qed
qed

text \<open>
  The bot stops only when nothing is at stake on the exchange. If an iteration ends the
  loop, then no order rests and no post or cancel is unanswered, the exit code is the one of the
  last drain request, and it has been published as the completion of the drain.
\<close>

theorem drain_exit_is_clean:
  assumes "iteration L i ev lp = Good lp'" and "lp_running lp" and "\<not> lp_running lp'"
  shows "\<not> has_resting_orders (en_quoter (lp_engine lp')) \<and> \<not> is_pending sd (en_quoter (lp_engine lp'))
    \<and> (\<exists>code text. lp_exit_code lp' = Some code \<and> lp_drain lp' = lp_drain lp @ [DrainComplete code text])"
  using iteration_drained [OF assms] by (cases sd) (auto simp: drained_def has_no_open_position_def)

lemma drain_exit_is_clean_witness:
  "let lp = loop_start (engine_new exact_lib demo_config 0) None
   in \<exists>lp'. iteration exact_lib (demo_io []) EvDrainAndRestart lp = Good lp' \<and> \<not> lp_running lp'
       \<and> (\<exists>code text. lp_exit_code lp' = Some code \<and> lp_drain lp' = [DrainComplete code text])"
proof -
  let ?lp = "loop_start (engine_new exact_lib demo_config 0) None"
  let ?r = "drain_request exact_lib (demo_io []) 42 ''config change'' ''No open positions. Restarting...'' ?lp"
  have lp: "iteration exact_lib (demo_io []) EvDrainAndRestart ?lp = Good ?r"
    by (simp add: iteration_def loop_start_def demo_io_def drain_feedback_def)
  have r: "lp_running ?lp" "lp_drain ?lp = []" by (simp_all add: loop_start_def)
  have s: "\<not> lp_running ?r"
    by (simp add: drain_request_def loop_start_def engine_new_def Let_def has_no_open_position_def quoter_new_def
        has_resting_orders_def is_pending_def set_draining_def)
  from drain_exit_is_clean [OF lp r(1) s] lp s r(2) show ?thesis unfolding Let_def by auto
qed

lemma demo_pending: "en_pending_fill_records (demo_engine p) = []"
  by (simp add: demo_engine_def engine_new_def Let_def)

text \<open>
  A fill that arrives with the request to stop is not stored. When the answer that says an
  order matched is taken in the same iteration as the shutdown and nothing else is open, the
  position counts the fill, but its record is still pending when the loop ends, the storage has
  not been called, and neither has it after the loop.
\<close>

theorem shutdown_drops_last_fill:
  "\<exists>lp'. iteration exact_lib (demo_io [(RebalanceResult Yes True 5 (1 / 2), 900)]) EvShutdown
       (loop_start (demo_engine position_new) cold) = Good lp'
     \<and> \<not> lp_running lp' \<and> total_shares (yes_pos (en_position (lp_engine lp'))) = 5
     \<and> length (en_pending_fill_records (lp_engine lp')) = 1
     \<and> lp_cold lp' = cold \<and> map_option rows_of (lp_cold (finish flags ok now lp')) = map_option rows_of cold"
proof -
  let ?e = "on_feedback exact_lib 900 (RebalanceResult Yes True 5 (1 / 2)) (demo_engine position_new)"
  let ?lp = "(loop_start (demo_engine position_new) cold)\<lparr> lp_engine := ?e \<rparr>"
  let ?r = "drain_request exact_lib (demo_io [(RebalanceResult Yes True 5 (1 / 2), 900)]) 0 ''shutdown'' ''No open positions. Bot stopped.'' ?lp"
  have i: "iteration exact_lib (demo_io [(RebalanceResult Yes True 5 (1 / 2), 900)]) EvShutdown
       (loop_start (demo_engine position_new) cold) = Good ?r"
    by (simp add: iteration_def demo_io_def drain_feedback_def loop_start_def)
  have e: "en_quoter ?e = quoter_new" "length (en_pending_fill_records ?e) = 1" "total_shares (yes_pos (en_position ?e)) = 5"
    by (simp_all add: fb_rebalance_result_def Let_def push_fill_record_def push_fill_message_def
        demo_pending record_fill_def side_record_fill_def side_mut_def position_new_def side_new_def)
  have "has_no_open_position ?e"
    unfolding has_no_open_position_def e(1) by (simp add: quoter_new_def has_resting_orders_def is_pending_def)
  then have r: "\<not> lp_running ?r" "lp_cold ?r = cold" "en_pending_fill_records (lp_engine ?r) = en_pending_fill_records ?e"
    "en_position (lp_engine ?r) = en_position ?e"
    by (simp_all add: drain_request_def Let_def loop_start_def) (simp_all add: send_session_summary_def set_draining_def Let_def)
  have "map_option rows_of (lp_cold (finish flags ok now ?r)) = map_option rows_of (lp_cold ?r)"
    by (simp add: finish_def Let_def take_pending_session_summary_def option.map_comp comp_def)
  with i r e show ?thesis by (intro exI [of _ ?r]) simp
qed

section \<open>What an iteration stores\<close>

lemma cold_calls_rows:
  "\<exists>s'. cold_calls L i k cs (Some s) = Some s' \<and> rows_of s' = rows_of s @ map (call_row L) cs"
proof -
  have "rows_of (foldl (\<lambda>s (j, cl). cold_call L (cl, io_flush i j, io_now_cold i) s) s (zip [k ..< k + length cs] cs))
      = rows_of s @ map (call_row L) cs" for k s
  proof (induction cs arbitrary: k s)
    case Nil
    then show ?case by simp
  next
    case (Cons a cs)
    from Cons.IH [of _ "Suc k"] show ?case by (simp add: cold_call_rows upt_conv_Cons del: upt_Suc)
  qed
  then show ?thesis by (simp add: cold_calls_def)
qed

text \<open>
  What the engine records is stored once and in order. When an iteration does not end the
  loop, the rows of the storage grow by exactly the fills, the market summary and the risk scores
  that were pending after the quoting tick, in that order, whatever flushes fail; and afterwards
  the engine has nothing pending, so nothing is stored twice.
\<close>

theorem records_stored_once:
  assumes "lp_cold lp = Some s" and "lp_running (after_engine L i ev lp)" and "\<not> is_rotation ev"
  shows "let e = lp_engine (drain_check L i (quote L i (forward_pending i lp))); lp' = after_engine L i ev lp
    in map_option rows_of (lp_cold lp') = Some (rows_of s @ map fill_row (en_pending_fill_records e)
          @ map market_summary_row (opt_list (en_pending_market_summary e)) @ map risk_score_row (en_pending_risk_records e))
     \<and> en_pending_fill_records (lp_engine lp') = [] \<and> en_pending_market_summary (lp_engine lp') = None
     \<and> en_pending_risk_records (lp_engine lp') = [] \<and> en_pending_fill_messages (lp_engine lp') = []
     \<and> en_pending_market_report (lp_engine lp') = None"
proof -
  let ?d = "drain_check L i (quote L i (forward_pending i lp))"
  have run: "lp_running ?d" using assms(2,3) by (auto simp: after_engine_def Let_def split: if_splits)
  then have a: "after_engine L i ev lp = report_all L i ?d" using assms(3) by (simp add: after_engine_def Let_def)
  obtain t where t: "cold_calls L i 1 (map CallFill (en_pending_fill_records (lp_engine ?d))
        @ map CallSummary (opt_list (en_pending_market_summary (lp_engine ?d)))
        @ map CallRisk (en_pending_risk_records (lp_engine ?d))) (Some s) = Some t"
    "rows_of t = rows_of s @ map fill_row (en_pending_fill_records (lp_engine ?d))
        @ map market_summary_row (opt_list (en_pending_market_summary (lp_engine ?d)))
        @ map risk_score_row (en_pending_risk_records (lp_engine ?d))"
    using cold_calls_rows [of L i 1 "map CallFill (en_pending_fill_records (lp_engine ?d))
        @ map CallSummary (opt_list (en_pending_market_summary (lp_engine ?d)))
        @ map CallRisk (en_pending_risk_records (lp_engine ?d))" s] by (auto simp: comp_def)
  have c: "lp_cold ?d = Some s" using assms(1) by simp
  have k: "en_pending_fill_records (check_diagnostic L now e) = en_pending_fill_records e"
    "en_pending_market_summary (check_diagnostic L now e) = en_pending_market_summary e"
    "en_pending_risk_records (check_diagnostic L now e) = en_pending_risk_records e" for now e
    by (simp_all add: check_diagnostic_def)
  show ?thesis using t c
    by (simp add: a Let_def report_all_def publish_status_def store_records_def market_report_def fill_messages_def diagnostics_def
        take_pending_fill_records_def take_pending_market_summary_def take_pending_risk_records_def
        take_pending_market_report_def take_pending_fill_messages_def take_pending_telegram_diag_def k)
qed

lemma forward_idle:
  assumes "en_pending_commands (lp_engine lp) = []" and "en_pending_tick_change (lp_engine lp) = None"
  shows "forward_pending i lp = lp"
proof -
  have "(lp_engine lp)\<lparr> en_pending_commands := [], en_pending_tick_change := None \<rparr> = lp_engine lp"
    by (rule engine.equality) (simp_all add: assms)
  then show ?thesis using assms
    by (simp add: forward_pending_def take_pending_commands_def take_tick_size_change_def send_def opt_list_def)
qed

lemma quote_idle: "\<not> quote_gate (io_now_quote i) (lp_engine lp) \<Longrightarrow> quote L i lp = lp"
  by (simp add: quote_def quote_tick_def send_def)

lemma records_stored_once_witness:
  "let e = on_feedback exact_lib 900 (RebalanceResult Yes True 5 (1 / 2)) (engine_new exact_lib demo_config 0);
     s = \<lparr> cs_buffer = [], cs_tick_count = 0, cs_last_flush_ms = 0, cs_delivered = [] \<rparr>;
     lp' = after_engine exact_lib (demo_io []) (EvHeartbeat True 3) (loop_start e (Some s))
   in \<exists>r. map_option rows_of (lp_cold lp') = Some [fill_row r] \<and> en_pending_fill_records (lp_engine lp') = []"
proof -
  define e where "e = on_feedback exact_lib 900 (RebalanceResult Yes True 5 (1 / 2)) (engine_new exact_lib demo_config 0)"
  let ?s = "\<lparr> cs_buffer = [], cs_tick_count = 0, cs_last_flush_ms = 0, cs_delivered = [] \<rparr>"
  let ?lp = "loop_start e (Some ?s)"
  have p: "en_pending_market_summary e = None" "en_pending_risk_records e = []" "en_pending_commands e = []"
    "en_pending_tick_change e = None" "\<not> quote_gate 1000 e"
    by (simp_all add: e_def fb_rebalance_result_def push_fill_record_def push_fill_message_def engine_new_def Let_def quote_gate_def)
  obtain r where r: "en_pending_fill_records e = [r]"
    by (simp add: e_def fb_rebalance_result_def push_fill_record_def push_fill_message_def engine_new_def Let_def)
  have l: "lp_engine ?lp = e" "lp_cold ?lp = Some ?s" "lp_running ?lp" by (simp_all add: loop_start_def)
  have f: "forward_pending (demo_io []) ?lp = ?lp" by (rule forward_idle) (use p l in simp_all)
  have q: "quote exact_lib (demo_io []) ?lp = ?lp" by (rule quote_idle) (use p(5) l in \<open>simp add: demo_io_def\<close>)
  have d: "drain_check exact_lib (demo_io []) ?lp = ?lp" by (simp add: drain_check_def loop_start_def)
  have run: "lp_running (after_engine exact_lib (demo_io []) (EvHeartbeat True 3) ?lp)"
    by (simp add: after_engine_def f q d l(3))
  have "rows_of ?s = []" by (simp add: rows_of_def)
  with records_stored_once [OF l(2) run] show ?thesis unfolding e_def [symmetric] by (simp add: Let_def f q d l(1) p r opt_list_def) blast
qed

end
