(* ===== verification/LoopFrames.thy ===== *)
theory LoopFrames
  imports EngineFrames EngineLoop
begin

text \<open>
  One iteration of the loop of \<open>src/src/main.rs\<close>, taken apart: either a command of the owner is
  carried out, or the engine takes the event and the parts after it run. What these parts leave
  alone, and what they do while the bot quotes nothing because it is paused or drains.
\<close>

section \<open>The mode and the exit code\<close>


text \<open>A relation every answer of the executor respects is respected by draining all that wait.\<close>

locale feedback_relation =
  fixes L :: "'a lib_scheme" and R :: "engine \<Rightarrow> engine \<Rightarrow> bool" and ok :: "executor_feedback \<Rightarrow> bool"
  assumes stays: "R e e" and chain: "R a b \<Longrightarrow> R b c \<Longrightarrow> R a c"
    and answer_respects: "ok fb \<Longrightarrow> R e (on_feedback L now fb e)"
begin

lemma drain_respects: "\<forall>f \<in> set fbs. ok (fst f) \<Longrightarrow> R e (drain_feedback L fbs e)"
proof (induction fbs arbitrary: e)
  case Nil
  show ?case by (simp add: drain_feedback_def stays)
next
  case (Cons f fbs)
  obtain fb now where f: "f = (fb, now)" by (cases f)
  from Cons.prems have "R e (on_feedback L now fb e)" by (intro answer_respects) (simp add: f)
  moreover have "R (on_feedback L now fb e) (drain_feedback L fbs (on_feedback L now fb e))" using Cons by simp
  ultimately show ?case using chain by (simp add: drain_feedback_def f)
qed

end

interpretation mode_answers: feedback_relation L same_mode "\<lambda>fb. True" for L
  by unfold_locales (auto intro: same_mode_trans mode_feedback)

lemma mode_drain: "same_mode e (drain_feedback L fbs e)"
  by (rule mode_answers.drain_respects) simp

lemma drain_feedback_append: "drain_feedback L (fs @ gs) e = drain_feedback L gs (drain_feedback L fs e)"
  by (simp add: drain_feedback_def)

lemma drain_feedback_one: "drain_feedback L ((fb, now) # fbs) e = drain_feedback L fbs (on_feedback L now fb e)"
  by (simp add: drain_feedback_def)

lemma mode_loop:
  "same_mode (lp_engine lp) (lp_engine (forward_pending i lp))" "same_mode (lp_engine lp) (lp_engine (quote L i lp))"
  "same_mode (lp_engine lp) (lp_engine (drain_check L i lp))" "same_mode (lp_engine lp) (lp_engine (report_all L i lp))"
  "lp_exit_code (forward_pending i lp) = lp_exit_code lp" "lp_exit_code (quote L i lp) = lp_exit_code lp"
  "lp_exit_code (drain_check L i lp) = lp_exit_code lp" "lp_exit_code (report_all L i lp) = lp_exit_code lp"
  using same_core_mode [OF core_quote [of "lp_engine lp" L "io_now_quote i"]]
  by (simp_all add: forward_pending_def quote_def drain_check_def report_all_def publish_status_def store_records_def
      market_report_def fill_messages_def diagnostics_def check_diagnostic_def take_pending_commands_def
      take_tick_size_change_def take_pending_telegram_diag_def take_pending_fill_messages_def take_pending_market_report_def
      take_pending_fill_records_def take_pending_market_summary_def take_pending_risk_records_def
      case_prod_unfold Let_def same_mode_def mode_fields split: option.splits)

lemma mode_spot: "lp_engine (record_spot L i ev lp) = lp_engine lp" "lp_exit_code (record_spot L i ev lp) = lp_exit_code lp"
  by (cases ev; simp)+

lemma mode_after:
  "same_mode (lp_engine lp) (lp_engine (after_engine L i ev lp)) \<and> lp_exit_code (after_engine L i ev lp) = lp_exit_code lp"
proof -
  define b where "b = (let a = forward_pending i lp in if is_rotation ev then a\<lparr> lp_redeems := lp_redeems a + 1 \<rparr> else a)"
  define c where "c = drain_check L i (quote L i b)"
  have a: "after_engine L i ev lp = (if lp_running c then report_all L i c else c)"
    by (simp add: after_engine_def Let_def c_def b_def)
  have "same_mode (lp_engine lp) (lp_engine b)" using mode_loop(1) [of lp i] by (simp add: b_def Let_def same_mode_def)
  also have "same_mode (lp_engine b) (lp_engine c)"
    using mode_loop(2) [of b L i] mode_loop(3) [of "quote L i b" L i] by (simp add: c_def same_mode_def)
  also have "same_mode (lp_engine c) (lp_engine (after_engine L i ev lp))" using mode_loop(4) [of c L i] by (simp add: a)
  finally show ?thesis by (simp add: a mode_loop c_def b_def Let_def)
qed

lemma drain_request_mode:
  "lp_exit_code (drain_request L i code reason summary lp) = Some code"
  "en_paused (lp_engine (drain_request L i code reason summary lp)) = en_paused (lp_engine lp)"
  "en_draining (lp_engine (drain_request L i code reason summary lp))"
  by (simp_all add: drain_request_def set_draining_def Let_def mode_fields)

lemma pause_request_mode:
  "lp_exit_code (pause_request b i lp) = lp_exit_code lp" "en_paused (lp_engine (pause_request b i lp)) = b"
  "en_draining (lp_engine (pause_request b i lp)) = en_draining (lp_engine lp)"
  by (simp_all add: pause_request_def set_paused_def Let_def split: prod.splits)

section \<open>The two kinds of iterations\<close>

lemma iteration_cases:
  assumes "iteration L i ev lp = Good lp'"
  obtains (request) "control_event L i ev (lp\<lparr> lp_engine := drain_feedback L (io_feedback i) (lp_engine lp) \<rparr>) = Some lp'"
  | (event) lp1 e where "lp_engine lp1 = drain_feedback L (io_feedback i) (lp_engine lp)"
      "lp_running lp1 = lp_running lp" "lp_exit_code lp1 = lp_exit_code lp" "lp_commands lp1 = lp_commands lp" "lp_drain lp1 = lp_drain lp"
      "control_event L i ev lp1 = None"
      "on_event L (io_now_event i) ev (lp_engine lp1) = Good e" "lp' = after_engine L i ev (lp1\<lparr> lp_engine := e \<rparr>)"
proof (cases "control_event L i ev (lp\<lparr> lp_engine := drain_feedback L (io_feedback i) (lp_engine lp) \<rparr>)")
  case (Some lp2)
  with assms request show ?thesis by (simp add: iteration_def)
next
  case None
  let ?lp1 = "record_spot L i ev (lp\<lparr> lp_engine := drain_feedback L (io_feedback i) (lp_engine lp) \<rparr>)"
  have c: "control_event L i ev ?lp1 = None" using None by (cases ev) simp_all
  have k: "lp_commands ?lp1 = lp_commands lp" by (cases ev) simp_all
  from assms None obtain e where "on_event L (io_now_event i) ev (lp_engine ?lp1) = Good e" "lp' = after_engine L i ev (?lp1\<lparr> lp_engine := e \<rparr>)"
    by (auto simp: iteration_def Let_def obind_eq_Good)
  with c k show ?thesis by (intro event [of ?lp1 e]) (simp_all add: mode_spot)
qed

section \<open>While the bot quotes nothing\<close>

lemma quote_closed: "en_paused (lp_engine lp) \<or> en_draining (lp_engine lp) \<Longrightarrow> quote L i lp = lp"
  by (auto simp: quote_def quote_tick_def quote_gate_def send_def)

lemma report_talk:
  "en_quoter (lp_engine (report_all L i lp)) = en_quoter (lp_engine lp)"
  "en_pending_commands (lp_engine (report_all L i lp)) = en_pending_commands (lp_engine lp)"
  "en_pending_tick_change (lp_engine (report_all L i lp)) = en_pending_tick_change (lp_engine lp)"
  "lp_commands (report_all L i lp) = lp_commands lp"
  by (simp_all add: report_all_def publish_status_def store_records_def market_report_def fill_messages_def diagnostics_def
      check_diagnostic_def take_pending_telegram_diag_def take_pending_fill_messages_def take_pending_market_report_def
      take_pending_fill_records_def take_pending_market_summary_def take_pending_risk_records_def case_prod_unfold Let_def)

lemma after_closed:
  assumes "en_paused (lp_engine lp) \<or> en_draining (lp_engine lp)"
  shows "en_quoter (lp_engine (after_engine L i ev lp)) = en_quoter (lp_engine lp)"
    and "en_pending_commands (lp_engine (after_engine L i ev lp)) = []"
    and "lp_commands (after_engine L i ev lp) = lp_commands lp
      @ (if io_connected i then en_pending_commands (lp_engine lp) @ opt_list (en_pending_tick_change (lp_engine lp)) else [])"
    and "en_pending_tick_change (lp_engine (after_engine L i ev lp)) = None"
    and "same_mode (lp_engine lp) (lp_engine (after_engine L i ev lp))"
    and "lp_exit_code (after_engine L i ev lp) = lp_exit_code lp"
    and "lp_running (after_engine L i ev lp) \<longleftrightarrow> lp_running lp \<and> (lp_exit_code lp = None \<or> \<not> has_no_open_position (lp_engine lp))"
proof -
  define m where "m = (let lp1 = forward_pending i lp in if is_rotation ev then lp1\<lparr> lp_redeems := lp_redeems lp1 + 1 \<rparr> else lp1)"
  have m: "en_quoter (lp_engine m) = en_quoter (lp_engine lp)" "en_pending_commands (lp_engine m) = []"
    "en_pending_tick_change (lp_engine m) = None" "lp_commands m = lp_commands lp
      @ (if io_connected i then en_pending_commands (lp_engine lp) @ opt_list (en_pending_tick_change (lp_engine lp)) else [])"
    "same_mode (lp_engine lp) (lp_engine m)" "lp_exit_code m = lp_exit_code lp" "lp_running m = lp_running lp"
    by (simp_all add: m_def forward_pending_def send_def take_pending_commands_def take_tick_size_change_def same_mode_def Let_def)
  have q: "quote L i m = m" using assms m(5) by (intro quote_closed) (simp add: same_mode_def)
  define d where "d = drain_check L i m"
  have d: "en_quoter (lp_engine d) = en_quoter (lp_engine m)" "en_pending_commands (lp_engine d) = en_pending_commands (lp_engine m)"
    "en_pending_tick_change (lp_engine d) = en_pending_tick_change (lp_engine m)" "lp_commands d = lp_commands m" "same_mode (lp_engine m) (lp_engine d)" "lp_exit_code d = lp_exit_code m"
    "lp_running d \<longleftrightarrow> lp_running m \<and> (lp_exit_code m = None \<or> \<not> has_no_open_position (lp_engine m))"
    by (auto simp: d_def drain_check_def send_session_summary_def same_mode_def Let_def split: option.splits)
  have a: "after_engine L i ev lp = (if lp_running d then report_all L i d else d)"
    by (simp add: after_engine_def Let_def m_def [unfolded Let_def, symmetric] q d_def)
  have h: "has_no_open_position (lp_engine m) = has_no_open_position (lp_engine lp)" using m(1) by (simp add: has_no_open_position_def)
  have s: "same_mode (lp_engine lp) (lp_engine d)" by (rule same_mode_trans [OF m(5) d(5)])
  show "en_quoter (lp_engine (after_engine L i ev lp)) = en_quoter (lp_engine lp)" by (simp add: a d m report_talk)
  show "en_pending_commands (lp_engine (after_engine L i ev lp)) = []" by (simp add: a d m report_talk)
  show "lp_commands (after_engine L i ev lp) = lp_commands lp
      @ (if io_connected i then en_pending_commands (lp_engine lp) @ opt_list (en_pending_tick_change (lp_engine lp)) else [])"
    by (simp add: a d m report_talk)
  show "en_pending_tick_change (lp_engine (after_engine L i ev lp)) = None" by (simp add: a d m report_talk)
  show "same_mode (lp_engine lp) (lp_engine (after_engine L i ev lp))"
    using s mode_loop(4) [of d L i] by (simp add: a same_mode_def)
  show "lp_exit_code (after_engine L i ev lp) = lp_exit_code lp" by (simp add: a d m mode_loop)
  show "lp_running (after_engine L i ev lp) \<longleftrightarrow> lp_running lp \<and> (lp_exit_code lp = None \<or> \<not> has_no_open_position (lp_engine lp))"
    by (simp add: a d m h)
qed

end
