(* ===== verification/Control.thy ===== *)
theory Control
  imports ConfigEditor Wallet EngineLoop
begin

text \<open>
  The command listener and its handlers, \<open>src/src/control/listener.rs\<close> and
  \<open>src/src/control/handlers.rs\<close>: authorisation, parsing, the rate limit, the dispatch of every
  command, the polling of Telegram and the watcher of the drain status. What a message meets
  outside (the clock, the channel to the engine, the status, the environment, the file system)
  is the record \<open>world\<close>; jobs of the wallet run on their own and are logged.
\<close>

section \<open>State\<close>

text \<open>\<open>wo_tx\<close> is the error of a send to the engine, None when the channel takes it.\<close>

record world =
  wo_now :: u64
  wo_tx :: "string option"
  wo_status :: bot_status
  wo_config_file :: "string option"
  wo_write_ok :: bool
  wo_rename_ok :: bool
  wo_toml_parse :: "string \<Rightarrow> toml option"
  wo_toml_show :: "toml \<Rightarrow> string"

datatype wallet_job = JobBalance | JobPolybalance | JobRedeem | JobRedeemSpecific string

record control =
  ct_flags :: notify_flags
  ct_last_command_ms :: u64
  ct_file :: "string option"
  ct_sent :: "ingestor_event list"
  ct_jobs :: "wallet_job list"

definition control_new :: "string option \<Rightarrow> control" where
  "control_new file = \<lparr> ct_flags = notify_new, ct_last_command_ms = 0, ct_file = file, ct_sent = [], ct_jobs = [] \<rparr>"

section \<open>Handlers\<close>

text \<open>Every handler returns the reply and the new state.\<close>

definition handle_trades :: "string \<Rightarrow> control \<Rightarrow> string \<times> control" where
  "handle_trades args c =
     (let a = to_lowercase (trim args) in
      if a = ''on'' then (''Trade notifications enabled.'', c\<lparr> ct_flags := (ct_flags c)\<lparr> trades_on := True \<rparr> \<rparr>)
      else if a = ''off'' then (''Trade notifications disabled.'', c\<lparr> ct_flags := (ct_flags c)\<lparr> trades_on := False \<rparr> \<rparr>)
      else (''Usage: /trades on|off'', c))"

definition handle_summary :: "string \<Rightarrow> control \<Rightarrow> string \<times> control" where
  "handle_summary args c =
     (let a = to_lowercase (trim args) in
      if a = ''on'' then (''Market summary notifications enabled.'', c\<lparr> ct_flags := (ct_flags c)\<lparr> summary_on := True \<rparr> \<rparr>)
      else if a = ''off'' then (''Market summary notifications disabled.'', c\<lparr> ct_flags := (ct_flags c)\<lparr> summary_on := False \<rparr> \<rparr>)
      else (''Usage: /summary on|off'', c))"

definition handle_diag :: "string \<Rightarrow> control \<Rightarrow> string \<times> control" where
  "handle_diag args c =
     (let a = to_lowercase (trim args) in
      if a = ''on'' then (''Diagnostic forwarding enabled.'', c\<lparr> ct_flags := (ct_flags c)\<lparr> diagnostics_on := True \<rparr> \<rparr>)
      else if a = ''off'' then (''Diagnostic forwarding disabled.'', c\<lparr> ct_flags := (ct_flags c)\<lparr> diagnostics_on := False \<rparr> \<rparr>)
      else (''Usage: /diag on|off'', c))"

definition tell_engine :: "world \<Rightarrow> ingestor_event \<Rightarrow> string \<Rightarrow> string \<Rightarrow> control \<Rightarrow> string \<times> control" where
  "tell_engine w ev done failed c = (case wo_tx w of
      None \<Rightarrow> (done, c\<lparr> ct_sent := ct_sent c @ [ev] \<rparr>)
    | Some e \<Rightarrow> (failed @ e, c))"

definition handle_stop :: "world \<Rightarrow> control \<Rightarrow> string \<times> control" where
  "handle_stop w c = tell_engine w EvPauseTrading ''Trading paused. Use /resume to restart.'' ''Failed: '' c"

definition handle_resume :: "world \<Rightarrow> control \<Rightarrow> string \<times> control" where
  "handle_resume w c = tell_engine w EvResumeTrading ''Trading resumed.'' ''Failed: '' c"

definition handle_shutdown :: "world \<Rightarrow> control \<Rightarrow> string \<times> control" where
  "handle_shutdown w c = tell_engine w EvShutdown ''Shutting down...'' ''Failed: '' c"

definition config_path :: "world \<Rightarrow> string" where
  "config_path w = unwrap_or (wo_config_file w) ''config.toml''"

definition handle_set :: "'a lib_scheme \<Rightarrow> world \<Rightarrow> string \<Rightarrow> control \<Rightarrow> string \<times> control" where
  "handle_set L w args c = (case split_once (CHR '' '') (trim args) of
      None \<Rightarrow> (''Usage: /set <section.param> <value>'', c)
    | Some (param_name, v) \<Rightarrow>
        (let value_str = trim v in
         case validate_param L param_name value_str of
           Good value \<Rightarrow>
             (case update_config_file L (wo_write_ok w) (wo_rename_ok w) (config_path w) param_name value (ct_file c) of
                (Good u, file) \<Rightarrow> tell_engine w EvDrainAndRestart
                    (''Config updated: '' @ param_name @ '' = '' @ value_str @ ''. Restarting...'')
                    ''Config updated but restart failed: '' (c\<lparr> ct_file := file \<rparr>)
              | (Err e, file) \<Rightarrow> (''Config write error: '' @ e, c\<lparr> ct_file := file \<rparr>)
              | (Panic, file) \<Rightarrow> ([], c\<lparr> ct_file := file \<rparr>))
         | Err e \<Rightarrow> (''Validation error: '' @ e, c)
         | Panic \<Rightarrow> ([], c)))"

definition handle_config :: "'a lib_scheme \<Rightarrow> world \<Rightarrow> string \<Rightarrow> control \<Rightarrow> string \<times> control" where
  "handle_config L w args c =
     (let section = trim args;
          result = (if section = [] then read_config_all L (wo_toml_show w) (wo_toml_parse w) (config_path w) (ct_file c)
                    else read_config_section L (wo_toml_show w) (wo_toml_parse w) (config_path w) section (ct_file c))
      in (case result of Good t \<Rightarrow> t | Err e \<Rightarrow> ''Error reading config: '' @ e | Panic \<Rightarrow> [], c))"

definition show_u64 :: "u64 \<Rightarrow> string" where
  "show_u64 n = show_int (uint n)"

text \<open>The last five bytes of a long market id; the slice may fall inside a character.\<close>

definition market_text :: "string option \<Rightarrow> string outcome" where
  "market_text m = (case m of None \<Rightarrow> Good ''none''
     | Some t \<Rightarrow> if 8 < length t then obind (str_slice (length t - 5) (length t) t) (\<lambda>s. Good (''...'' @ s)) else Good t)"

definition on_off :: "bool \<Rightarrow> string" where
  "on_off b = (if b then ''on'' else ''off'')"

definition handle_status :: "bot_status \<Rightarrow> string outcome" where
  "handle_status s = obind (market_text (bs_current_market s)) (\<lambda>market.
     let up = bs_uptime_secs s; eol = [CHR 0x0A];
         two = (\<lambda>n. pad_zeros 2 (show_u64 n));
         drain = (if bs_draining s then '' [DRAINING]'' else if bs_paused s then '' [PAUSED]'' else []);
         heartbeat = (if bs_heartbeat_healthy s then ''OK ('' @ show_u64 (bs_heartbeat_latency_ms s) @ ''ms)''
                      else ''DOWN ('' @ show_int (uint (bs_heartbeat_failures s)) @ '' consecutive)'')
     in Good (''Uptime: '' @ show_u64 (up div 3600) @ ''h '' @ two (up mod 3600 div 60) @ ''m '' @ two (up mod 60) @ ''s'' @ drain @ eol
       @ ''Mode: '' @ bs_mode s @ '' ['' @ bs_phase s @ '']'' @ eol
       @ ''Heartbeat: '' @ heartbeat @ eol
       @ ''Market: '' @ market @ eol
       @ ''Position: '' @ bs_position_summary s @ eol
       @ ''Paired: '' @ bs_pairing_summary s @ eol
       @ ''Unpaired: YES:'' @ bs_unpaired_yes s @ '' | NO:'' @ bs_unpaired_no s @ eol
       @ ''Markets: '' @ show_u64 (bs_markets_traded s) @ '' | Fills: '' @ show_u64 (bs_total_fills s) @ eol
       @ ''Trades notify: '' @ on_off (bs_trades_enabled s) @ '' | Summary notify: '' @ on_off (bs_summary_enabled s)))"

definition dash :: string where
  "dash = [CHR '' '', CHR 0xE2, CHR 0x80, CHR 0x94, CHR '' '']"

definition handle_help :: string where
  "handle_help = join [CHR 0x0A]
     [''/trades on|off'' @ dash @ ''Toggle trade notifications'',
      ''/summary on|off'' @ dash @ ''Toggle market summary notifications'',
      ''/diag on|off'' @ dash @ ''Toggle 60s diagnostic forwarding'',
      ''/stop'' @ dash @ ''Pause trading (keeps connections alive)'',
      ''/resume'' @ dash @ ''Resume trading after /stop'',
      ''/shutdown'' @ dash @ ''Graceful shutdown (drains open position)'',
      ''/set <param> <value>'' @ dash @ ''Update config + restart'',
      ''/config [section]'' @ dash @ ''Show current config'',
      ''/status'' @ dash @ ''Bot status and counters'',
      ''/balance'' @ dash @ ''Wallet balance (USDC.e + POL)'',
      ''/polybalance'' @ dash @ ''Polymarket positions and value'',
      ''/redeem'' @ dash @ ''Redeem resolved positions to USDC.e'',
      ''/redeem <condition_id>'' @ dash @ ''Redeem a specific condition ID'',
      ''/help'' @ dash @ ''This message'']"

section \<open>One message\<close>

record tg_message =
  tm_text :: "string option"
  tm_from :: "int option"
  tm_chat :: int

definition authorised :: "int \<Rightarrow> string \<Rightarrow> tg_message \<Rightarrow> bool" where
  "authorised allowed_user_id chat_id m \<longleftrightarrow> unwrap_or (tm_from m) 0 = allowed_user_id \<and> show_int (tm_chat m) = chat_id"

definition command_rate_limit_ms :: u64 where
  "command_rate_limit_ms = 2000"

text \<open>The command and its arguments, None when the text is no command.\<close>

definition parse_command :: "tg_message \<Rightarrow> (string \<times> string) option" where
  "parse_command m = Option.bind (tm_text m) (\<lambda>t. Option.bind (strip_prefix ''/'' (trim t)) (\<lambda>rest.
     let (cmd, args) = (case split_once (CHR '' '') rest of Some ca \<Rightarrow> ca | None \<Rightarrow> (rest, []))
     in Some (hd (split_char (CHR ''@'') cmd), args)))"

definition is_critical :: "string \<Rightarrow> bool" where
  "is_critical cmd \<longleftrightarrow> cmd \<in> {''stop'', ''shutdown'', ''resume''}"

text \<open>The reply of a command; a job of the wallet sends its own reply later.\<close>

definition dispatch :: "'a lib_scheme \<Rightarrow> world \<Rightarrow> string \<Rightarrow> string \<Rightarrow> control \<Rightarrow> (string option \<times> control) outcome" where
  "dispatch L w cmd args c =
     (let reply = (\<lambda>(t, c'). Good (Some t, c')); job = (\<lambda>j. Good (None, c\<lparr> ct_jobs := ct_jobs c @ [j] \<rparr>)) in
      if cmd = ''trades'' then reply (handle_trades args c)
      else if cmd = ''summary'' then reply (handle_summary args c)
      else if cmd = ''diag'' then reply (handle_diag args c)
      else if cmd = ''stop'' then reply (handle_stop w c)
      else if cmd = ''resume'' then reply (handle_resume w c)
      else if cmd = ''shutdown'' then reply (handle_shutdown w c)
      else if cmd = ''set'' then reply (handle_set L w args c)
      else if cmd = ''config'' then reply (handle_config L w args c)
      else if cmd = ''status'' then obind (handle_status (wo_status w)) (\<lambda>t. Good (Some t, c))
      else if cmd = ''balance'' then job JobBalance
      else if cmd = ''polybalance'' then job JobPolybalance
      else if cmd = ''redeem'' then job (if trim args = [] then JobRedeem else JobRedeemSpecific (trim args))
      else if cmd = ''help'' then reply (handle_help, c)
      else reply (''Unknown command: /'' @ cmd @ ''. Send /help for usage.'', c))"

definition rate_text :: string where
  "rate_text = ''Rate limited'' @ dash @ ''wait 2s between commands.''"

definition handle_message :: "'a lib_scheme \<Rightarrow> int \<Rightarrow> string \<Rightarrow> world \<Rightarrow> tg_message \<Rightarrow> control
    \<Rightarrow> (string option \<times> control) outcome" where
  "handle_message L allowed_user_id chat_id w m c =
     (if \<not> authorised allowed_user_id chat_id m then Good (None, c)
      else case parse_command m of
        None \<Rightarrow> Good (None, c)
      | Some (cmd, args) \<Rightarrow>
          if \<not> is_critical cmd \<and> saturating_sub (wo_now w) (ct_last_command_ms c) < command_rate_limit_ms
          then Good (Some rate_text, c)
          else dispatch L w cmd args (c\<lparr> ct_last_command_ms := wo_now w \<rparr>))"

section \<open>Polling\<close>

record tg_update =
  tu_id :: int
  tu_message :: "tg_message option"

text \<open>An answer to \<open>getUpdates\<close>: an error, nothing in time, or the parsed response.\<close>

datatype poll_answer = PollFailed | PollLate | PollOk bool "tg_update list"

text \<open>The updates taken; \<open>last_update_id\<close> ends as the largest id seen.\<close>

definition poll_updates :: "bool \<Rightarrow> tg_update list \<Rightarrow> int \<Rightarrow> tg_message list \<times> int" where
  "poll_updates ok updates last_update_id =
     (if ok then (List.map_filter tu_message updates, foldl (\<lambda>l u. if l < tu_id u then tu_id u else l) last_update_id updates)
      else ([], last_update_id))"

record listener =
  li_last_update_id :: int
  li_control :: control
  li_replies :: "string list"
  li_waits_ms :: "nat list"

definition run_messages :: "'a lib_scheme \<Rightarrow> int \<Rightarrow> string \<Rightarrow> (tg_message \<times> world) list \<Rightarrow> listener
    \<Rightarrow> listener outcome" where
  "run_messages L allowed_user_id chat_id = orun (\<lambda>(m, w) li.
     obind (handle_message L allowed_user_id chat_id w m (li_control li)) (\<lambda>(reply, c).
     Good (li\<lparr> li_control := c, li_replies := li_replies li @ opt_list reply \<rparr>)))"

text \<open>At the start every pending update is taken and dropped; a failure here is ignored.\<close>

definition listener_start :: "control \<Rightarrow> poll_answer \<Rightarrow> listener" where
  "listener_start c a = \<lparr> li_last_update_id = (case a of PollOk ok us \<Rightarrow> snd (poll_updates ok us 0) | _ \<Rightarrow> 0),
     li_control = c, li_replies = [], li_waits_ms = [] \<rparr>"

definition listener_turn :: "'a lib_scheme \<Rightarrow> int \<Rightarrow> string \<Rightarrow> (nat \<Rightarrow> world) \<Rightarrow> poll_answer \<Rightarrow> listener
    \<Rightarrow> listener outcome" where
  "listener_turn L allowed_user_id chat_id worlds a li = (case a of
      PollOk ok us \<Rightarrow> (let (messages, l) = poll_updates ok us (li_last_update_id li)
        in run_messages L allowed_user_id chat_id (zip messages (map worlds [0 ..< length messages])) (li\<lparr> li_last_update_id := l \<rparr>))
    | PollFailed \<Rightarrow> Good (li\<lparr> li_waits_ms := li_waits_ms li @ [5000] \<rparr>)
    | PollLate \<Rightarrow> Good (li\<lparr> li_waits_ms := li_waits_ms li @ [1000] \<rparr>))"

text \<open>\<open>server\<close> answers the request of turn \<open>n\<close> with its offset; \<open>worlds n k\<close> is what its \<open>k\<close>-th message meets.\<close>

fun listener_run :: "'a lib_scheme \<Rightarrow> int \<Rightarrow> string \<Rightarrow> (nat \<Rightarrow> nat \<Rightarrow> world) \<Rightarrow> (nat \<Rightarrow> int \<Rightarrow> poll_answer) \<Rightarrow> nat
    \<Rightarrow> listener \<Rightarrow> listener outcome" where
  "listener_run L allowed chat worlds server 0 li = Good li"
| "listener_run L allowed chat worlds server (Suc n) li =
     obind (listener_run L allowed chat worlds server n li) (\<lambda>li'.
     listener_turn L allowed chat (worlds n) (server n (li_last_update_id li' + 1)) li')"

section \<open>The drain watcher\<close>

text \<open>The messages for the values of the watch channel it sees, and the exit code that ends the process.\<close>

fun drain_watcher :: "drain_status list \<Rightarrow> string list \<times> int option" where
  "drain_watcher [] = ([], None)"
| "drain_watcher (DrainIdle # ds) = drain_watcher ds"
| "drain_watcher (Draining reason position_info # ds) =
     (let (ms, e) = drain_watcher ds in ((''Drain mode activated ('' @ reason @ '')'' @ dash @ position_info) # ms, e))"
| "drain_watcher (DrainComplete exit_code summary # ds) = ([summary], Some exit_code)"

end
