(* ===== verification/Process.thy ===== *)
theory Process
  imports Control Heartbeat Sbe FuturesFeed UserFeed Rotation
begin

text \<open>
  The whole process, \<open>async_main\<close> of \<open>src/src/main.rs\<close>: the six feeds inside one \<open>select!\<close>, the
  bounded channel to the engine, the engine task with its loop, the command listener with the
  drain watcher, and the ways the process ends. The tasks run in any order: the process is a step
  relation. The executor is the environment of the engine loop (\<open>BotProtocol\<close> follows the two
  together): its responses are the feedback an iteration reads.
\<close>

section \<open>The feeds\<close>

text \<open>The branches of the \<open>select!\<close> of the ingestor thread, and the kinds of events each sends.\<close>

datatype feed = FeedSpot | FeedFutures | FeedMarket | FeedRotation | FeedUser | FeedHeartbeat

definition feed_event :: "feed \<Rightarrow> ingestor_event \<Rightarrow> bool" where
  "feed_event f ev = (case f of
      FeedSpot \<Rightarrow> (case ev of EvBinanceTick t \<Rightarrow> True | EvBinanceDepth d \<Rightarrow> True | EvSpotTrade t \<Rightarrow> True
        | EvWsStatus src up \<Rightarrow> src = Binance | _ \<Rightarrow> False)
    | FeedFutures \<Rightarrow> (case ev of EvFuturesAggTrade t \<Rightarrow> True | EvFuturesBookTicker t \<Rightarrow> True
        | EvFuturesForceOrder t \<Rightarrow> True | EvWsStatus src up \<Rightarrow> src = BinanceFutures | _ \<Rightarrow> False)
    | FeedMarket \<Rightarrow> (case ev of EvBook b \<Rightarrow> True | EvPriceChange asset_id price sz sd bid ask \<Rightarrow> True
        | EvBestBidAsk asset_id bid ask \<Rightarrow> True | EvTickSizeChange asset_id old_tick new_tick \<Rightarrow> True
        | EvMarketResolved market winner \<Rightarrow> True | EvWsStatus src up \<Rightarrow> src = PolymarketMarket | _ \<Rightarrow> False)
    | FeedRotation \<Rightarrow> (case ev of EvMarketRotation cid yes no end_ms tick \<Rightarrow> True | EvBook b \<Rightarrow> True | _ \<Rightarrow> False)
    | FeedUser \<Rightarrow> (case ev of EvTradeStatus order_id status size_matched original \<Rightarrow> True
        | EvWsStatus src up \<Rightarrow> src = PolymarketUser | _ \<Rightarrow> False)
    | FeedHeartbeat \<Rightarrow> (case ev of EvHeartbeat success latency \<Rightarrow> True | _ \<Rightarrow> False))"

lemma feed_event_simps [simp]:
  "feed_event FeedSpot (EvBinanceTick t)" "feed_event FeedSpot (EvBinanceDepth d)" "feed_event FeedSpot (EvSpotTrade tr)"
  "feed_event FeedSpot (EvWsStatus Binance up)"
  "feed_event FeedFutures (EvFuturesAggTrade fa)" "feed_event FeedFutures (EvFuturesBookTicker fb)"
  "feed_event FeedFutures (EvFuturesForceOrder fo)" "feed_event FeedFutures (EvWsStatus BinanceFutures up)"
  "feed_event FeedMarket (EvBook b)" "feed_event FeedMarket (EvPriceChange i p sz sd bid ask)"
  "feed_event FeedMarket (EvBestBidAsk i bid ask)" "feed_event FeedMarket (EvTickSizeChange i old new)"
  "feed_event FeedMarket (EvMarketResolved mk w)" "feed_event FeedMarket (EvWsStatus PolymarketMarket up)"
  "feed_event FeedRotation (EvMarketRotation c y n e tick)" "feed_event FeedRotation (EvBook b)"
  "feed_event FeedUser (EvTradeStatus oid st sm orig)" "feed_event FeedUser (EvWsStatus PolymarketUser up)"
  "feed_event FeedHeartbeat (EvHeartbeat ok lat)"
  by (simp_all add: feed_event_def)

definition is_request :: "ingestor_event \<Rightarrow> bool" where
  "is_request ev \<longleftrightarrow> ev \<in> {EvShutdown, EvDrainAndRestart, EvPauseTrading, EvResumeTrading}"

lemma feed_event_no_request: "feed_event f ev \<Longrightarrow> \<not> is_request ev"
  by (cases ev; cases f) (simp_all add: feed_event_def is_request_def)

lemma control_event_request: "control_event L i ev lp = None \<longleftrightarrow> \<not> is_request ev"
  by (cases ev) (auto simp: is_request_def)

section \<open>The gateway of the exchange\<close>

text \<open>
  \<open>PolymarketWsGateway\<close> of \<open>gateway/polymarket/mod.rs\<close> holds the credentials and passes them to
  its feeds; \<open>async_main\<close> builds it from the configuration. Its \<open>shutdown\<close> flag starts unset and
  has no setter: the feeds get it as False.
\<close>

record ws_gateway =
  pg_api_key :: "string option"
  pg_secret :: "string option"
  pg_passphrase :: "string option"
  pg_private_key :: "string option"
  pg_shutdown :: bool

definition ws_gateway_new :: "string option \<Rightarrow> string option \<Rightarrow> string option \<Rightarrow> string option \<Rightarrow> ws_gateway" where
  "ws_gateway_new api_key secret passphrase private_key = \<lparr> pg_api_key = api_key, pg_secret = secret,
     pg_passphrase = passphrase, pg_private_key = private_key, pg_shutdown = False \<rparr>"

definition ws_gateway_of :: "config \<Rightarrow> ws_gateway" where
  "ws_gateway_of cfg = ws_gateway_new (Some (cf_polymarket_api_key cfg)) (Some (cf_polymarket_secret cfg))
     (Some (cf_polymarket_passphrase cfg)) (Some (cf_private_key cfg))"

definition gateway_user_ws :: "'a lib_scheme \<Rightarrow> (string \<Rightarrow> json option) \<Rightarrow> ws_gateway \<Rightarrow> ws_session list
    \<Rightarrow> (ingestor_event list \<times> u64 list) outcome" where
  "gateway_user_ws L json_parse g ss = run_user_ws L json_parse (pg_api_key g) (pg_secret g) (pg_passphrase g)
     (map (\<lambda>s. if pg_shutdown g then None else Some s) ss)"

definition gateway_heartbeat :: "(string \<Rightarrow> json option) \<Rightarrow> (string \<Rightarrow> bool) \<Rightarrow> (string \<Rightarrow> string option) \<Rightarrow> bool
    \<Rightarrow> ws_gateway \<Rightarrow> beat list \<Rightarrow> heartbeat_state outcome" where
  "gateway_heartbeat json_parse signer_ok uuid_parse sdk_auth g bs =
     obind (heartbeat_setup signer_ok uuid_parse sdk_auth (pg_api_key g) (pg_secret g) (pg_passphrase g) (pg_private_key g))
       (\<lambda>h. Good (run_heartbeat json_parse uuid_parse (map (\<lambda>b. b\<lparr> be_shutdown := pg_shutdown g \<rparr>) bs) h))"

text \<open>With a loaded configuration the user feed does not return with an error; the heartbeat may.\<close>

lemma user_feed_stays: "gateway_user_ws L json_parse (ws_gateway_of cfg) ss \<noteq> Err e"
  by (simp add: gateway_user_ws_def ws_gateway_of_def ws_gateway_new_def run_user_ws_def)

lemma heartbeat_returns_iff:
  "(\<exists>e. gateway_heartbeat json_parse signer_ok uuid_parse sdk_auth (ws_gateway_of cfg) bs = Err e) \<longleftrightarrow>
     \<not> signer_ok (cf_private_key cfg) \<or> uuid_parse (cf_polymarket_api_key cfg) = None \<or> \<not> sdk_auth"
  by (cases "uuid_parse (cf_polymarket_api_key cfg)")
    (simp_all add: gateway_heartbeat_def ws_gateway_of_def ws_gateway_new_def heartbeat_setup_def)

section \<open>State\<close>

definition channel_cap :: nat where
  "channel_cap = 8192"

text \<open>
  \<open>pc_feeds\<close>: the \<open>select!\<close> still runs. \<open>pc_engine\<close>: so does the engine task, which holds the
  receiver. \<open>pc_listener\<close> is the allowed user and the chat of the listener, None when it was not
  started or has panicked; \<open>pc_sender\<close>: a sender for commands is alive.
\<close>

record process =
  pc_feeds :: bool
  pc_channel :: "ingestor_event list"
  pc_loop :: loop_state
  pc_engine :: bool
  pc_control :: control
  pc_listener :: "(int \<times> string) option"
  pc_sender :: bool
  pc_watcher :: bool
  pc_replies :: "string list"
  pc_exit :: "int option"

text \<open>The listener is started for the allowed user, if there is one.\<close>

definition listener_owner :: "config \<Rightarrow> (int \<times> string) option" where
  "listener_owner cfg = map_option (\<lambda>user_id. (user_id, cf_telegram_chat_id cfg)) (cf_telegram_allowed_user_id cfg)"

text \<open>
  The start: without a configuration \<open>main\<close> returns the error; without a database the engine runs
  unrecorded; without an allowed user no listener is started, and \<open>async_main\<close> keeps the sender.
\<close>

definition process_start :: "'a lib_scheme \<Rightarrow> (string \<Rightarrow> string option) \<Rightarrow> (string \<Rightarrow> string option option)
    \<Rightarrow> (string \<Rightarrow> bot_config option) \<Rightarrow> bool \<Rightarrow> u64 \<Rightarrow> u64 \<Rightarrow> string option \<Rightarrow> process outcome" where
  "process_start L env file toml db_connects now now_cold config_text =
     obind (config_load env file toml) (\<lambda>cfg.
     let engine = (engine_new L (cf_bot cfg) now)\<lparr> en_reporter := True \<rparr>;
         cold = (case cold_new (cf_questdb_url cfg) db_connects now_cold of Good c \<Rightarrow> Some c | _ \<Rightarrow> None);
         owner = listener_owner cfg
     in Good \<lparr> pc_feeds = True, pc_channel = [], pc_loop = loop_start engine cold, pc_engine = True,
          pc_control = control_new config_text, pc_listener = owner, pc_sender = True, pc_watcher = (owner \<noteq> None),
          pc_replies = [], pc_exit = None \<rparr>)"

text \<open>What a send of the listener meets: the texts are those of the channel library.\<close>

definition channel_error :: "process \<Rightarrow> string option" where
  "channel_error p =
     (if \<not> pc_engine p then Some ''sending on a disconnected channel''
      else if channel_cap \<le> length (pc_channel p) then Some ''sending on a full channel''
      else None)"

definition last_status :: "loop_state \<Rightarrow> bot_status" where
  "last_status lp = (if lp_statuses lp = [] then bot_status_default else last (lp_statuses lp))"

definition engine_ends :: "loop_state \<Rightarrow> process \<Rightarrow> process" where
  "engine_ends lp p = p\<lparr> pc_loop := lp, pc_engine := False, pc_channel := [] \<rparr>"

text \<open>
  \<open>async_main\<close> waits for the engine, the executor and the ingestor, and then returns. The executor
  ends when the engine has dropped the channel of commands.
\<close>

definition main_exit :: "process \<Rightarrow> int option" where
  "main_exit p = (if \<not> pc_engine p \<and> \<not> pc_feeds p then Some 0 else None)"

section \<open>Steps\<close>

inductive process_step :: "'a lib_scheme \<Rightarrow> process \<Rightarrow> process \<Rightarrow> bool" for L :: "'a lib_scheme" where
  feed_sends: "pc_exit p = None \<Longrightarrow> pc_feeds p \<Longrightarrow> feed_event f ev \<Longrightarrow>
    process_step L p (p\<lparr> pc_channel := if pc_engine p then try_send channel_cap ev (pc_channel p) else pc_channel p \<rparr>)"
| feed_returns: "pc_exit p = None \<Longrightarrow> pc_feeds p \<Longrightarrow> process_step L p (p\<lparr> pc_feeds := False \<rparr>)"
| message: "pc_exit p = None \<Longrightarrow> pc_listener p = Some (user, chat) \<Longrightarrow> wo_tx w = channel_error p \<Longrightarrow>
    wo_status w = last_status (pc_loop p) \<Longrightarrow> handle_message L user chat w m (pc_control p) = Good (reply, c) \<Longrightarrow>
    process_step L p (p\<lparr> pc_control := c, pc_replies := pc_replies p @ opt_list reply,
      pc_channel := pc_channel p @ drop (length (ct_sent (pc_control p))) (ct_sent c) \<rparr>)"
| message_panics: "pc_exit p = None \<Longrightarrow> pc_listener p = Some (user, chat) \<Longrightarrow> wo_status w = last_status (pc_loop p) \<Longrightarrow>
    handle_message L user chat w m (pc_control p) = Panic \<Longrightarrow>
    process_step L p (p\<lparr> pc_listener := None, pc_sender := False \<rparr>)"
| engine_takes: "pc_exit p = None \<Longrightarrow> pc_engine p \<Longrightarrow> lp_running (pc_loop p) \<Longrightarrow> pc_channel p = ev # rest \<Longrightarrow>
    io_flags i = ct_flags (pc_control p) \<Longrightarrow> iteration L i ev (pc_loop p) = Good lp \<Longrightarrow>
    process_step L p (p\<lparr> pc_channel := rest, pc_loop := lp \<rparr>)"
| engine_panics: "pc_exit p = None \<Longrightarrow> pc_engine p \<Longrightarrow> lp_running (pc_loop p) \<Longrightarrow> pc_channel p = ev # rest \<Longrightarrow>
    iteration L i ev (pc_loop p) = Panic \<Longrightarrow> process_step L p (engine_ends (pc_loop p) p)"
| engine_finishes: "pc_exit p = None \<Longrightarrow> pc_engine p \<Longrightarrow>
    \<not> lp_running (pc_loop p) \<or> pc_channel p = [] \<and> \<not> pc_feeds p \<and> \<not> pc_sender p \<Longrightarrow>
    process_step L p (engine_ends (finish (ct_flags (pc_control p)) flush_ok now (pc_loop p)) p)"
| watcher_exits: "pc_exit p = None \<Longrightarrow> pc_watcher p \<Longrightarrow> drain_watcher (lp_drain (pc_loop p)) = (texts, Some code) \<Longrightarrow>
    process_step L p (p\<lparr> pc_exit := Some code \<rparr>)"
| main_returns: "pc_exit p = None \<Longrightarrow> main_exit p = Some code \<Longrightarrow> process_step L p (p\<lparr> pc_exit := Some code \<rparr>)"

inductive process_run :: "'a lib_scheme \<Rightarrow> process \<Rightarrow> process \<Rightarrow> bool" for L :: "'a lib_scheme" where
  stay: "process_run L p p"
| more: "process_run L p q \<Longrightarrow> process_step L q r \<Longrightarrow> process_run L p r"

inductive_cases process_stepE: "process_step L p q"

section \<open>Retention of the database\<close>

text \<open>
  The task that wakes every day: for each table the URL of the query it sends. A failure of one
  table does not keep the next from its turn.
\<close>

definition retention_tables :: "string list" where
  "retention_tables = [''binance_ticks'', ''v2_fills'', ''v2_market_summaries'']"

definition str_contains :: "string \<Rightarrow> string \<Rightarrow> bool" where
  "str_contains s p = list_ex (\<lambda>i. starts_with (drop i s) p) [0 ..< Suc (length s)]"

text \<open>An answer is a transport failure (None) or the status class and the body.\<close>

definition drop_old_partitions :: "(bool \<times> string) option \<Rightarrow> unit outcome" where
  "drop_old_partitions response =
     obind (oget response ''QuestDB retention HTTP request failed'') (\<lambda>(success, body).
     if \<not> success \<and> \<not> str_contains body ''no partitions''
     then Err (''QuestDB retention query failed: '' @ body) else Good ())"

definition retention_round :: "string \<Rightarrow> (string \<Rightarrow> (bool \<times> string) option)
    \<Rightarrow> (string \<times> string \<times> unit outcome) list" where
  "retention_round questdb_http_url responses = map (\<lambda>table.
     (questdb_http_url @ ''/exec'', retention_query table 7, drop_old_partitions (responses table))) retention_tables"

end
