(* ===== verification/ControlProps.thy ===== *)
theory ControlProps
  imports Control
begin

text \<open>
  What the command listener guarantees: only the owner's messages act, the three commands that
  stop or start trading are never held back and take effect in the engine, every update is
  processed at most once, and a restart follows only a configuration that was written.
\<close>

section \<open>Authorisation\<close>

lemma unauthorised_ignored: "\<not> authorised a ch m \<Longrightarrow> handle_message L a ch w m c = Good (None, c)"
  by (simp add: handle_message_def)

lemma run_messages_Nil [simp]: "run_messages L a ch [] li = Good li"
  by (simp add: run_messages_def)

lemma run_messages_Cons [simp]:
  "run_messages L a ch ((m, w) # ms) li = obind (handle_message L a ch w m (li_control li)) (\<lambda>(reply, c).
     run_messages L a ch ms (li\<lparr> li_control := c, li_replies := li_replies li @ opt_list reply \<rparr>))"
  by (cases "handle_message L a ch w m (li_control li)") (auto simp: run_messages_def split: prod.splits)

lemma run_messages_authorised:
  "run_messages L a ch ms li = run_messages L a ch (filter (\<lambda>(m, w). authorised a ch m) ms) li"
proof (induction ms arbitrary: li)
  case (Cons mw ms)
  obtain m w where mw: "mw = (m, w)" by (cases mw)
  show ?case
  proof (cases "authorised a ch m")
    case True
    then show ?thesis by (cases "handle_message L a ch w m (li_control li)") (auto simp: mw Cons split: prod.splits)
  next
    case False
    have "li\<lparr> li_control := li_control li, li_replies := li_replies li @ opt_list None \<rparr> = li" by (cases li) (simp add: opt_list_def)
    with False Cons show ?thesis by (simp add: mw unauthorised_ignored)
  qed
qed simp

section \<open>Each update once\<close>

lemma foldl_max: "foldl (\<lambda>l u. if l < tu_id u then tu_id u else l) l us = fold max (map tu_id us) l"
  by (induction us arbitrary: l) (simp_all add: max_def not_less)

lemma fold_max_ge: "(l::int) \<le> fold max xs l \<and> (\<forall>x \<in> set xs. x \<le> fold max xs l)"
proof (induction xs arbitrary: l)
  case (Cons x xs)
  show ?case using Cons [of "max x l"] by auto
qed simp

lemma run_messages_append:
  "run_messages L a ch (xs @ ys) li = obind (run_messages L a ch xs li) (run_messages L a ch ys)"
  unfolding run_messages_def by (rule orun_append)

text \<open>The messages do not look at the polling state.\<close>

lemma run_messages_frame:
  "run_messages L a ch ms (li\<lparr> li_last_update_id := l, li_waits_ms := ws \<rparr>)
     = obind (run_messages L a ch ms li) (\<lambda>li'. Good (li'\<lparr> li_last_update_id := l, li_waits_ms := ws \<rparr>))"
proof (induction ms arbitrary: li)
  case (Cons mw ms)
  obtain m w where mw: "mw = (m, w)" by (cases mw)
  have swap: "li\<lparr> li_last_update_id := l, li_waits_ms := ws, li_control := c, li_replies := r \<rparr>
      = li\<lparr> li_control := c, li_replies := r, li_last_update_id := l, li_waits_ms := ws \<rparr>" for c r by (cases li) simp
  show ?case by (cases "handle_message L a ch w m (li_control li)") (auto simp: mw swap Cons split: prod.splits)
qed simp

text \<open>
  The documented law of \<open>getUpdates\<close>: it returns each pending update once, none below the offset.
\<close>

definition server_law :: "(nat \<Rightarrow> int \<Rightarrow> poll_answer) \<Rightarrow> bool" where
  "server_law server \<longleftrightarrow> (\<forall>n offset ok us. server n offset = PollOk ok us \<longrightarrow>
     distinct (map tu_id us) \<and> (\<forall>u \<in> set us. offset \<le> tu_id u))"

lemma listener_run_messages:
  assumes law: "server_law server" and "listener_run L a ch worlds server n li = Good li'"
  shows "\<exists>(us :: tg_update list) mws. map fst mws = List.map_filter tu_message us \<and> distinct (map tu_id us)
    \<and> (\<forall>u \<in> set us. li_last_update_id li < tu_id u \<and> tu_id u \<le> li_last_update_id li') \<and> li_last_update_id li \<le> li_last_update_id li'
    \<and> (\<exists>li''. run_messages L a ch mws li = Good li'' \<and> li_control li'' = li_control li' \<and> li_replies li'' = li_replies li')"
  using assms(2)
proof (induction n arbitrary: li')
  case 0
  then show ?case by (intro exI [of _ "[]"]) (simp add: map_filter_def)
next
  case (Suc n)
  obtain l1 where l1: "listener_run L a ch worlds server n li = Good l1"
    and turn: "listener_turn L a ch (worlds n) (server n (li_last_update_id l1 + 1)) l1 = Good li'"
    using Suc.prems by (auto simp: obind_eq_Good)
  from Suc.IH [OF l1] obtain us :: "tg_update list" and mws l2 where us: "map fst mws = List.map_filter tu_message us" "distinct (map tu_id us)"
    "\<forall>u \<in> set us. li_last_update_id li < tu_id u \<and> tu_id u \<le> li_last_update_id l1" "li_last_update_id li \<le> li_last_update_id l1"
    and l2: "run_messages L a ch mws li = Good l2" "li_control l2 = li_control l1" "li_replies l2 = li_replies l1" by blast
  consider vs where "server n (li_last_update_id l1 + 1) = PollOk True vs"
    | "li_control li' = li_control l1" "li_replies li' = li_replies l1" "li_last_update_id li' = li_last_update_id l1"
    using turn by (cases "server n (li_last_update_id l1 + 1)") (auto simp: listener_turn_def poll_updates_def split: if_splits)
  then show ?case
  proof cases
    case (1 vs)
    let ?ms = "List.map_filter tu_message vs"
    let ?p = "zip ?ms (map (worlds n) [0 ..< length ?ms])" and ?m = "fold max (map tu_id vs) (li_last_update_id l1)"
    have vs: "distinct (map tu_id vs)" "\<forall>u \<in> set vs. li_last_update_id l1 < tu_id u"
      using law 1 unfolding server_law_def by (blast, fastforce)
    from turn have r: "run_messages L a ch ?p (l1\<lparr> li_last_update_id := ?m \<rparr>) = Good li'"
      by (simp add: listener_turn_def 1 poll_updates_def foldl_max)
    have "l1\<lparr> li_last_update_id := ?m \<rparr> = l2\<lparr> li_last_update_id := ?m, li_waits_ms := li_waits_ms l1 \<rparr>"
      using l2(2,3) by (cases l1, cases l2) simp
    with r obtain l3 where l3: "run_messages L a ch ?p l2 = Good l3"
      "li' = l3\<lparr> li_last_update_id := ?m, li_waits_ms := li_waits_ms l1 \<rparr>"
      unfolding run_messages_frame by (auto simp: run_messages_frame obind_eq_Good)
    have "map fst (mws @ ?p) = List.map_filter tu_message (us @ vs)" using us(1) by (simp add: map_filter_def)
    moreover have "distinct (map tu_id (us @ vs))" using us(2,3) vs by fastforce
    moreover have "\<forall>u \<in> set (us @ vs). li_last_update_id li < tu_id u \<and> tu_id u \<le> ?m" "li_last_update_id li \<le> ?m"
      using us(3,4) vs(2) fold_max_ge [of "li_last_update_id l1" "map tu_id vs"] by fastforce+
    moreover have "run_messages L a ch (mws @ ?p) li = Good l3" using l2(1) l3(1) by (simp add: run_messages_append)
    ultimately show ?thesis by (intro exI [of _ "us @ vs"] exI [of _ "mws @ ?p"] conjI) (simp_all add: l3(2))
  next
    case 2
    with us l2 show ?thesis by auto
  qed
qed


definition demo_world :: world where
  "demo_world = \<lparr> wo_now = 100, wo_tx = None, wo_status = bot_status_default, wo_config_file = None, wo_write_ok = True,
     wo_rename_ok = True, wo_toml_parse = (\<lambda>s. None), wo_toml_show = (\<lambda>t. []) \<rparr>"

definition demo_server :: "nat \<Rightarrow> int \<Rightarrow> poll_answer" where
  "demo_server n offset = PollOk True (filter (\<lambda>u. offset \<le> tu_id u)
     [\<lparr> tu_id = 5, tu_message = Some \<lparr> tm_text = Some ''/stop@bot'', tm_from = Some 1, tm_chat = 2 \<rparr> \<rparr>,
      \<lparr> tu_id = 6, tu_message = Some \<lparr> tm_text = Some ''/shutdown'', tm_from = Some 9, tm_chat = 2 \<rparr> \<rparr>])"


section \<open>Commands that stop and start trading\<close>

definition critical_event :: "string \<Rightarrow> ingestor_event" where
  "critical_event cmd = (if cmd = ''stop'' then EvPauseTrading else if cmd = ''resume'' then EvResumeTrading else EvShutdown)"

lemma gate_shut: "en_paused e \<or> en_draining e \<Longrightarrow> snd (quote_tick L now e) = []"
  by (auto simp: quote_tick_def quote_gate_def)

lemma iteration_pause:
  "\<exists>lp'. iteration L i EvPauseTrading lp = Good lp' \<and> en_paused (lp_engine lp')"
  by (simp add: iteration_def Let_def pause_request_def set_paused_def send_def split_beta)

lemma iteration_resume:
  "\<exists>lp'. iteration L i EvResumeTrading lp = Good lp' \<and> \<not> en_paused (lp_engine lp')"
  by (simp add: iteration_def Let_def pause_request_def set_paused_def send_def split_beta)

lemma iteration_shutdown:
  "\<exists>lp'. iteration L i EvShutdown lp = Good lp' \<and> lp_exit_code lp' = Some 0 \<and> en_draining (lp_engine lp')"
  by (simp add: iteration_def Let_def drain_request_def set_draining_def send_session_summary_def)

text \<open>
  C9. The commands in an emergency. Whatever was sent before and however recently, a \<open>/stop\<close>,
  \<open>/resume\<close> or \<open>/shutdown\<close> of the owner reaches the engine when the channel has room, and the
  iteration that takes it pauses, resumes or starts the drain; after a pause or a shutdown no
  quoting tick sends anything.
\<close>

theorem critical_commands_act:
  assumes "authorised a ch m" and "parse_command m = Some (cmd, args)" and "is_critical cmd" and "wo_tx w = None"
  shows "(\<exists>reply. handle_message L a ch w m c = Good (Some reply,
      c\<lparr> ct_last_command_ms := wo_now w, ct_sent := ct_sent c @ [critical_event cmd] \<rparr>))
    \<and> (\<exists>lp'. iteration L i (critical_event cmd) lp = Good lp'
        \<and> (cmd = ''stop'' \<longrightarrow> en_paused (lp_engine lp')) \<and> (cmd = ''resume'' \<longrightarrow> \<not> en_paused (lp_engine lp'))
        \<and> (cmd = ''shutdown'' \<longrightarrow> lp_exit_code lp' = Some 0 \<and> en_draining (lp_engine lp'))
        \<and> (cmd \<noteq> ''resume'' \<longrightarrow> snd (quote_tick L now (lp_engine lp')) = []))"
proof
  from assms(3) consider "cmd = ''stop''" | "cmd = ''resume''" | "cmd = ''shutdown''" by (auto simp: is_critical_def)
  then show "\<exists>reply. handle_message L a ch w m c = Good (Some reply,
      c\<lparr> ct_last_command_ms := wo_now w, ct_sent := ct_sent c @ [critical_event cmd] \<rparr>)"
    by cases (use assms in \<open>simp_all add: handle_message_def dispatch_def handle_stop_def handle_resume_def
      handle_shutdown_def tell_engine_def critical_event_def\<close>)
  from assms(3) consider "cmd = ''stop''" "critical_event cmd = EvPauseTrading" | "cmd = ''resume''" "critical_event cmd = EvResumeTrading"
    | "cmd = ''shutdown''" "critical_event cmd = EvShutdown" by (auto simp: is_critical_def critical_event_def)
  then show "\<exists>lp'. iteration L i (critical_event cmd) lp = Good lp'
        \<and> (cmd = ''stop'' \<longrightarrow> en_paused (lp_engine lp')) \<and> (cmd = ''resume'' \<longrightarrow> \<not> en_paused (lp_engine lp'))
        \<and> (cmd = ''shutdown'' \<longrightarrow> lp_exit_code lp' = Some 0 \<and> en_draining (lp_engine lp'))
        \<and> (cmd \<noteq> ''resume'' \<longrightarrow> snd (quote_tick L now (lp_engine lp')) = [])"
    by cases (use iteration_pause [of L i lp] iteration_resume [of L i lp] iteration_shutdown [of L i lp] gate_shut in fastforce)+
qed

lemma critical_commands_act_witness:
  "let m = \<lparr> tm_text = Some ''/stop now'', tm_from = Some 1, tm_chat = 2 \<rparr>; c = (control_new None)\<lparr> ct_last_command_ms := 99 \<rparr>;
       lp = loop_start (engine_new exact_lib bot_default 0) None
   in (\<exists>reply. handle_message exact_lib 1 ''2'' demo_world m c
         = Good (Some reply, c\<lparr> ct_last_command_ms := 100, ct_sent := [EvPauseTrading] \<rparr>))
     \<and> (\<exists>lp'. iteration exact_lib (demo_io []) EvPauseTrading lp = Good lp' \<and> snd (quote_tick exact_lib 7 (lp_engine lp')) = [])"
proof -
  let ?m = "\<lparr> tm_text = Some ''/stop now'', tm_from = Some 1, tm_chat = 2 \<rparr>"
  have p: "parse_command ?m = Some (''stop'', ''now'')" "authorised 1 ''2'' ?m" "is_critical ''stop''" "wo_tx demo_world = None"
    unfolding parse_command_def authorised_def by (code_simp, code_simp) (simp_all add: is_critical_def demo_world_def)
  define c where "c = (control_new None)\<lparr> ct_last_command_ms := 99 \<rparr>"
  define lp where "lp = loop_start (engine_new exact_lib bot_default 0) None"
  have e: "critical_event ''stop'' = EvPauseTrading" "wo_now demo_world = 100" "ct_sent c = []" "''stop'' \<noteq> ''resume''"
    by (simp_all add: critical_event_def demo_world_def c_def control_new_def)
  show ?thesis unfolding Let_def c_def [symmetric] lp_def [symmetric]
    using critical_commands_act [OF p(2,1,3,4), of exact_lib c "demo_io []" lp 7, unfolded e append_Nil] e(4) by blast
qed

section \<open>Setting a parameter\<close>

text \<open>
  C33. The restart. \<open>/set\<close> sends the restart to the engine exactly when the parameter passes the
  range check, the file is rewritten and the channel has room; the file changes only by such a
  rewrite, and nothing else of the state changes.
\<close>

theorem set_restarts_after_write:
  assumes "handle_set L w args c = (reply, c')"
  shows "c' = c\<lparr> ct_file := ct_file c', ct_sent := ct_sent c' \<rparr>
    \<and> (ct_sent c' = ct_sent c @ [EvDrainAndRestart] \<longleftrightarrow> wo_tx w = None \<and> (\<exists>name v value.
        split_once (CHR '' '') (trim args) = Some (name, v) \<and> validate_param L name (trim v) = Good value
        \<and> fst (update_config_file L (wo_write_ok w) (wo_rename_ok w) (config_path w) name value (ct_file c)) = Good ()))
    \<and> (ct_sent c' \<noteq> ct_sent c @ [EvDrainAndRestart] \<longrightarrow> ct_sent c' = ct_sent c)
    \<and> (ct_file c' \<noteq> ct_file c \<longrightarrow> (\<exists>name v value.
        split_once (CHR '' '') (trim args) = Some (name, v) \<and> validate_param L name (trim v) = Good value
        \<and> update_config_file L (wo_write_ok w) (wo_rename_ok w) (config_path w) name value (ct_file c) = (Good (), ct_file c')))"
proof (cases "split_once (CHR '' '') (trim args)")
  case None
  with assms show ?thesis by (auto simp: handle_set_def)
next
  case (Some nv)
  obtain name v where nv: "nv = (name, v)" by (cases nv)
  have keep: "snd (update_config_file L a b p n x f) = f" if "fst (update_config_file L a b p n x f) \<noteq> Good ()" for a b p n x f
    using that by (auto simp: update_config_file_def split: option.splits prod.splits)
  show ?thesis
  proof (cases "validate_param L name (trim v)")
    case (Good vl)
    show ?thesis
    proof (cases "update_config_file L (wo_write_ok w) (wo_rename_ok w) (config_path w) name vl (ct_file c)")
      case (Pair r f)
      with assms Some nv Good keep [of "wo_write_ok w" "wo_rename_ok w" "config_path w" name vl "ct_file c"] show ?thesis
        by (cases r) (auto simp: handle_set_def tell_engine_def Let_def split: option.splits)
    qed
  qed (use assms Some nv in \<open>auto simp: handle_set_def Let_def\<close>)
qed

lemma set_restarts_after_write_witness:
  "\<exists>reply c'. handle_set exact_lib demo_world ''quoting.min_edge 0'' (control_new (Some ''min_edge = 1'')) = (reply, c')
     \<and> ct_sent c' = [EvDrainAndRestart]"
proof -
  let ?c = "control_new (Some ''min_edge = 1'')"
  obtain reply c' where h: "handle_set exact_lib demo_world ''quoting.min_edge 0'' ?c = (reply, c')" by fastforce
  have s: "split_once (CHR '' '') (trim ''quoting.min_edge 0'') = Some (''quoting.min_edge'', ''0'')" "trim ''0'' = ''0''" by code_simp+
  have "find (\<lambda>s. ps_name s = ''quoting.min_edge'') allowed_params = Some (spec ''quoting.min_edge'' 0 (1 / 10))"
    unfolding allowed_params_def spec_def by simp
  moreover have "parse_f64 ''0'' = Some (Fin 0)" "\<not> flt (Fin 0) (flit 0)" "\<not> flt (flit (1 / 10)) (Fin 0)" by code_simp+
  ultimately have v: "validate_param exact_lib ''quoting.min_edge'' ''0'' = Good (Fin 0)" by (simp add: validate_param_def spec_def)
  have u: "fst (update_config_file exact_lib True True ''config.toml'' ''quoting.min_edge'' (Fin 0) (Some ''min_edge = 1'')) = Good ()"
    by code_simp
  have d: "wo_write_ok demo_world" "wo_rename_ok demo_world" "config_path demo_world = ''config.toml''" "wo_tx demo_world = None"
    "ct_file ?c = Some ''min_edge = 1''" "ct_sent ?c = []"
    by (simp_all add: demo_world_def config_path_def control_new_def)
  from set_restarts_after_write [OF h] have "ct_sent c' = [EvDrainAndRestart]" using s v u d by auto
  with h show ?thesis by blast
qed

end
