(* ===== verification/ProcessProps.thy ===== *)
theory ProcessProps
  imports LoopFrames Process ControlProps FeedProps
begin

text \<open>
  What holds of the process of \<open>src/src/main.rs\<close> whatever the order of its tasks: only the owner's
  commands pause it or end it, it ends with nothing open on the exchange, and what the death of
  the feeds or of the engine leaves behind.
\<close>

section \<open>One iteration\<close>

text \<open>An iteration on an event that is no command leaves the mode and the exit code alone.\<close>

lemma iteration_plain:
  assumes "iteration L i ev lp = Good lp'" and "\<not> is_request ev"
  shows "same_mode (lp_engine lp) (lp_engine lp') \<and> lp_exit_code lp' = lp_exit_code lp"
  using assms(1)
proof (cases rule: iteration_cases)
  case request
  with assms(2) show ?thesis by (metis control_event_request option.distinct(1))
next
  case (event lp1 e)
  have "same_mode (lp_engine lp) (lp_engine lp1)" using mode_drain event(1) by simp
  also note mode_event [OF event(7)]
  finally show ?thesis
    using mode_after [of "lp1\<lparr> lp_engine := e \<rparr>" L i ev] event(3,8) by (simp add: same_mode_def)
qed

text \<open>Everything the engine was told was sent by the listener.\<close>

definition asked :: "ingestor_event list \<Rightarrow> loop_state \<Rightarrow> bool" where
  "asked sent lp \<longleftrightarrow> (en_paused (lp_engine lp) \<longrightarrow> EvPauseTrading \<in> set sent)
     \<and> (en_draining (lp_engine lp) \<longrightarrow> EvShutdown \<in> set sent \<or> EvDrainAndRestart \<in> set sent)
     \<and> (\<forall>code. lp_exit_code lp = Some code \<longrightarrow>
          code = 0 \<and> EvShutdown \<in> set sent \<or> code = 42 \<and> EvDrainAndRestart \<in> set sent)"

lemma asked_more: "asked sent lp \<Longrightarrow> set sent \<subseteq> set sent' \<Longrightarrow> asked sent' lp"
  unfolding asked_def by blast

lemma iteration_asked:
  assumes it: "iteration L i ev lp = Good lp'" and a: "asked sent lp" and r: "is_request ev \<Longrightarrow> ev \<in> set sent"
  shows "asked sent lp'"
proof (cases "is_request ev")
  case False
  from iteration_plain [OF it False] a show ?thesis by (simp add: asked_def same_mode_def)
next
  case True
  define lp1 where "lp1 = lp\<lparr> lp_engine := drain_feedback L (io_feedback i) (lp_engine lp) \<rparr>"
  have a1: "asked sent lp1" using a mode_drain [of "lp_engine lp" L "io_feedback i"] by (simp add: asked_def lp1_def same_mode_def)
  from True it have c: "control_event L i ev lp1 = Some lp'"
    using control_event_request [of L i ev lp1] by (auto simp: iteration_def lp1_def [symmetric] split: option.splits)
  from True consider "ev = EvShutdown" | "ev = EvDrainAndRestart" | "ev = EvPauseTrading" | "ev = EvResumeTrading"
    by (auto simp: is_request_def)
  then show ?thesis
  proof cases
    case 1
    with c r [OF True] a1 show ?thesis unfolding asked_def by (metis control_event.simps(1) drain_request_mode option.inject)
  next
    case 2
    with c r [OF True] a1 show ?thesis unfolding asked_def by (metis control_event.simps(2) drain_request_mode option.inject)
  next
    case 3
    with c r [OF True] a1 show ?thesis unfolding asked_def by (metis control_event.simps(3) pause_request_mode option.inject)
  next
    case 4
    with c r [OF True] a1 show ?thesis unfolding asked_def by (metis control_event.simps(4) pause_request_mode option.inject)
  qed
qed

text \<open>Whether the drain is complete.\<close>

definition drain_ok :: "loop_state \<Rightarrow> bool" where
  "drain_ok lp \<longleftrightarrow> (if lp_running lp then \<forall>code t. DrainComplete code t \<notin> set (lp_drain lp)
     else has_no_open_position (lp_engine lp) \<and> (\<forall>code t. DrainComplete code t \<in> set (lp_drain lp) \<longrightarrow> lp_exit_code lp = Some code))"

lemma iteration_drain_ok:
  assumes it: "iteration L i ev lp = Good lp'" and d: "drain_ok lp" and r: "lp_running lp"
  shows "drain_ok lp'"
proof (cases "lp_running lp'")
  case True
  from iteration_draining [OF it True] d r True show ?thesis by (auto simp: drain_ok_def)
next
  case False
  from iteration_drained [OF it r False] d r False show ?thesis by (auto simp: drained_def drain_ok_def)
qed

section \<open>The listener\<close>

lemma tell_engine_sent:
  "is_request ev \<Longrightarrow> \<exists>new. ct_sent (snd (tell_engine w ev d f c)) = ct_sent c @ new \<and> (\<forall>ev \<in> set new. is_request ev)
     \<and> (wo_tx w \<noteq> None \<longrightarrow> new = [])"
  by (cases "wo_tx w") (simp_all add: tell_engine_def)

lemma quiet_handlers [simp]:
  "ct_sent (snd (handle_trades args c)) = ct_sent c" "ct_sent (snd (handle_summary args c)) = ct_sent c"
  "ct_sent (snd (handle_diag args c)) = ct_sent c" "ct_sent (snd (handle_config L w args c)) = ct_sent c"
  by (simp_all add: handle_trades_def handle_summary_def handle_diag_def handle_config_def Let_def)

lemma handle_set_sent:
  "\<exists>new. ct_sent (snd (handle_set L w args c)) = ct_sent c @ new \<and> (\<forall>ev \<in> set new. is_request ev) \<and> (wo_tx w \<noteq> None \<longrightarrow> new = [])"
  by (cases "wo_tx w") (simp_all add: handle_set_def tell_engine_def is_request_def Let_def split: option.splits outcome.splits prod.splits)

text \<open>A message adds at most commands to what was sent, and nothing when the channel refuses.\<close>

lemma handle_message_sent:
  assumes "handle_message L a ch w m c = Good (reply, c')"
  shows "\<exists>new. ct_sent c' = ct_sent c @ new \<and> (\<forall>ev \<in> set new. is_request ev) \<and> (wo_tx w \<noteq> None \<longrightarrow> new = [])"
proof -
  have keep: ?thesis if "ct_sent c' = ct_sent c" using that by simp
  have "ct_sent c' = ct_sent c \<or> (\<exists>cmd args d. dispatch L w cmd args d = Good (reply, c') \<and> ct_sent d = ct_sent c)"
    using assms by (force simp: handle_message_def split: if_splits option.splits)
  then obtain cmd args d where h: "ct_sent c' = ct_sent c \<or> dispatch L w cmd args d = Good (reply, c') \<and> ct_sent d = ct_sent c"
    by blast
  have tell: ?thesis if "Good (Some (fst x), snd x) = Good (reply, c')" "ct_sent d = ct_sent c"
    "\<exists>new. ct_sent (snd x) = ct_sent d @ new \<and> (\<forall>ev \<in> set new. is_request ev) \<and> (wo_tx w \<noteq> None \<longrightarrow> new = [])" for x :: "string \<times> control"
    using that by auto
  have r: "is_request EvPauseTrading" "is_request EvResumeTrading" "is_request EvShutdown" by (simp_all add: is_request_def)
  from h show ?thesis
  proof (elim disjE conjE)
    assume g: "dispatch L w cmd args d = Good (reply, c')" and s: "ct_sent d = ct_sent c"
    consider "cmd = ''stop''" | "cmd = ''resume''" | "cmd = ''shutdown''" | "cmd = ''set''" | "cmd \<notin> {''stop'', ''resume'', ''shutdown'', ''set''}"
      by blast
    then show ?thesis
    proof cases
      case 1
      with g show ?thesis by (intro tell [OF _ s tell_engine_sent [OF r(1)]]) (simp add: dispatch_def handle_stop_def case_prod_unfold)
    next
      case 2
      with g show ?thesis by (intro tell [OF _ s tell_engine_sent [OF r(2)]]) (simp add: dispatch_def handle_resume_def case_prod_unfold)
    next
      case 3
      with g show ?thesis by (intro tell [OF _ s tell_engine_sent [OF r(3)]]) (simp add: dispatch_def handle_shutdown_def case_prod_unfold)
    next
      case 4
      with g show ?thesis by (intro tell [OF _ s handle_set_sent]) (simp add: dispatch_def case_prod_unfold)
    next
      case 5
      with g s show ?thesis
        by (intro keep) (auto simp: dispatch_def case_prod_unfold Let_def obind_eq_Good split: if_splits)
    qed
  qed (rule keep)
qed

lemma drain_watcher_complete: "drain_watcher ds = (texts, Some code) \<Longrightarrow> \<exists>t. DrainComplete code t \<in> set ds"
  by (induction ds arbitrary: texts rule: drain_watcher.induct) (auto split: prod.splits)

lemma finish_keeps:
  "lp_exit_code (finish fl ok now lp) = lp_exit_code lp" "lp_drain (finish fl ok now lp) = lp_drain lp"
  "lp_running (finish fl ok now lp) = lp_running lp" "lp_commands (finish fl ok now lp) = lp_commands lp"
  "en_paused (lp_engine (finish fl ok now lp)) = en_paused (lp_engine lp)"
  "en_draining (lp_engine (finish fl ok now lp)) = en_draining (lp_engine lp)" "en_quoter (lp_engine (finish fl ok now lp)) = en_quoter (lp_engine lp)"
  by (simp_all add: finish_def take_pending_session_summary_def Let_def)

section \<open>The invariant of the process\<close>

definition process_inv :: "process \<Rightarrow> bool" where
  "process_inv p \<longleftrightarrow> (\<forall>ev \<in> set (pc_channel p). is_request ev \<longrightarrow> ev \<in> set (ct_sent (pc_control p)))
     \<and> asked (ct_sent (pc_control p)) (pc_loop p) \<and> drain_ok (pc_loop p)
     \<and> (\<forall>code. pc_exit p = Some code \<longrightarrow> code = 0 \<and> \<not> pc_engine p \<and> \<not> pc_feeds p
          \<or> (\<exists>t. DrainComplete code t \<in> set (lp_drain (pc_loop p))))"

lemma engine_ends_inv: "process_inv p \<Longrightarrow> pc_exit p = None \<Longrightarrow> asked (ct_sent (pc_control p)) lp \<Longrightarrow> drain_ok lp
    \<Longrightarrow> process_inv (engine_ends lp p)"
  by (simp add: process_inv_def engine_ends_def)

lemma finish_ok:
  "asked sent lp \<Longrightarrow> asked sent (finish fl ok now lp)" "drain_ok lp \<Longrightarrow> drain_ok (finish fl ok now lp)"
  by (simp_all add: asked_def finish_keeps) (auto simp: drain_ok_def has_no_open_position_def finish_keeps split: if_splits)

lemma process_step_inv:
  assumes "process_step L p q" and inv: "process_inv p"
  shows "process_inv q"
  using assms(1)
proof cases
  case (feed_sends f ev)
  with inv feed_event_no_request [of f ev] show ?thesis by (auto simp: process_inv_def try_send_def)
next
  case (message user chat w m reply c)
  from handle_message_sent [OF message(6)] obtain new where new: "ct_sent c = ct_sent (pc_control p) @ new" by blast
  from inv have "asked (ct_sent (pc_control p)) (pc_loop p)" by (simp add: process_inv_def)
  then have a: "asked (ct_sent c) (pc_loop p)" by (rule asked_more) (simp add: new)
  have "ev \<in> set (ct_sent c)" if "ev \<in> set (pc_channel q)" "is_request ev" for ev
    using that inv unfolding message(1) process_inv_def by (auto simp: new)
  with inv a message show ?thesis by (simp add: process_inv_def)
next
  case (engine_takes ev rest i lp)
  from inv engine_takes(5) have r: "is_request ev \<Longrightarrow> ev \<in> set (ct_sent (pc_control p))" by (simp add: process_inv_def)
  have "asked (ct_sent (pc_control p)) lp" using inv by (intro iteration_asked [OF engine_takes(7) _ r]) (simp_all add: process_inv_def)
  moreover have "drain_ok lp" using inv engine_takes(4) by (intro iteration_drain_ok [OF engine_takes(7)]) (simp_all add: process_inv_def)
  ultimately show ?thesis using inv engine_takes by (simp add: process_inv_def)
next
  case (engine_panics ev rest i)
  with inv show ?thesis by (simp add: engine_ends_inv) (simp add: process_inv_def engine_ends_def)
next
  case (engine_finishes ok now)
  have "asked (ct_sent (pc_control p)) (pc_loop p)" "drain_ok (pc_loop p)" using inv by (simp_all add: process_inv_def)
  with engine_finishes inv show ?thesis by (simp add: engine_ends_inv finish_ok)
next
  case (watcher_exits texts code)
  with inv drain_watcher_complete [of "lp_drain (pc_loop p)" texts code] show ?thesis by (auto simp: process_inv_def)
next
  case (main_returns code)
  with inv show ?thesis by (auto simp: process_inv_def main_exit_def split: if_splits)
qed (use inv in \<open>auto simp: process_inv_def\<close>)

lemma process_run_inv: "process_run L p q \<Longrightarrow> process_inv p \<Longrightarrow> process_inv q"
  by (induction rule: process_run.induct) (blast intro: process_step_inv)+

lemma process_start_inv: "process_start L env file toml db now now_cold text = Good p \<Longrightarrow> process_inv p"
  by (auto simp: process_start_def obind_eq_Good Let_def process_inv_def asked_def drain_ok_def loop_start_def
    engine_new_def control_new_def)

section \<open>How the process ends\<close>

text \<open>Without a listener nothing is ever sent.\<close>

lemma process_run_unattended:
  "process_run L p q \<Longrightarrow> pc_listener p = None \<Longrightarrow> ct_sent (pc_control p) = [] \<Longrightarrow>
     pc_listener q = None \<and> ct_sent (pc_control q) = []"
  by (induction rule: process_run.induct) (auto elim!: process_stepE simp: engine_ends_def)


section \<open>A dead engine\<close>

lemma dead_engine_run:
  assumes "process_run L p q" and "\<not> pc_engine p" and "pc_exit p = None" and "\<forall>code t. DrainComplete code t \<notin> set (lp_drain (pc_loop p))"
  shows "pc_loop q = pc_loop p \<and> \<not> pc_engine q \<and> (pc_feeds q \<longrightarrow> pc_exit q = None)"
  using assms
proof (induction rule: process_run.induct)
  case (more p q r)
  from more.hyps(2) more.IH more.prems show ?case
    by cases (auto simp: engine_ends_def main_exit_def dest: drain_watcher_complete split: if_splits)
qed simp

text \<open>
  C12. An engine that panicked. The task of the engine is gone and nobody notices: while the feeds
  run the process goes on for ever, no order is cancelled, no status is published and the exit is
  never requested; a \<open>/stop\<close>, \<open>/resume\<close> or \<open>/shutdown\<close> of the owner is refused by the channel.
\<close>

theorem dead_engine_unnoticed:
  assumes "process_run L p q" and "\<not> pc_engine p" and "pc_exit p = None"
    and "\<forall>code t. DrainComplete code t \<notin> set (lp_drain (pc_loop p))" and "pc_feeds q"
    and "wo_tx w = channel_error q" and "authorised a ch m" and "parse_command m = Some (cmd, args)" and "is_critical cmd"
  shows "pc_loop q = pc_loop p \<and> pc_exit q = None
    \<and> handle_message L a ch w m c = Good (Some ''Failed: sending on a disconnected channel'', c\<lparr> ct_last_command_ms := wo_now w \<rparr>)"
proof -
  from dead_engine_run [OF assms(1-4)] assms(5) have q: "pc_loop q = pc_loop p" "\<not> pc_engine q" "pc_exit q = None" by simp_all
  from assms(9) consider "cmd = ''stop''" | "cmd = ''resume''" | "cmd = ''shutdown''" by (auto simp: is_critical_def)
  then have "handle_message L a ch w m c
      = Good (Some ''Failed: sending on a disconnected channel'', c\<lparr> ct_last_command_ms := wo_now w \<rparr>)"
    by cases (use assms(6-9) q in \<open>simp_all add: handle_message_def dispatch_def handle_stop_def handle_resume_def
      handle_shutdown_def tell_engine_def channel_error_def\<close>)
  with q show ?thesis by simp
qed

definition demo_message :: "string \<Rightarrow> tg_message" where
  "demo_message text = \<lparr> tm_text = Some text, tm_from = Some 1, tm_chat = 1 \<rparr>"

definition demo_process :: "bool \<Rightarrow> bool \<Rightarrow> ingestor_event list \<Rightarrow> process" where
  "demo_process feeds engine channel = \<lparr> pc_feeds = feeds, pc_channel = channel,
     pc_loop = loop_start (engine_new exact_lib bot_default 0) None, pc_engine = engine,
     pc_control = (control_new None)\<lparr> ct_flags := io_flags (demo_io []) \<rparr>, pc_listener = Some (1, ''1''), pc_sender = True,
     pc_watcher = True, pc_replies = [], pc_exit = None \<rparr>"

lemma demo_commands:
  "authorised 1 ''1'' (demo_message text)" "parse_command (demo_message ''/stop'') = Some (''stop'', [])"
  "parse_command (demo_message ''/shutdown'') = Some (''shutdown'', [])"
proof -
  show "authorised 1 ''1'' (demo_message text)" unfolding authorised_def demo_message_def by (simp, code_simp)
  show "parse_command (demo_message ''/stop'') = Some (''stop'', [])" by code_simp
  show "parse_command (demo_message ''/shutdown'') = Some (''shutdown'', [])" by code_simp
qed

lemma dead_engine_unnoticed_witness:
  "\<exists>q. process_run exact_lib (demo_process True False []) q \<and> pc_feeds q \<and> pc_exit q = None
     \<and> handle_message exact_lib 1 ''1'' (demo_world\<lparr> wo_tx := channel_error q \<rparr>) (demo_message ''/stop'') (control_new None)
       = Good (Some ''Failed: sending on a disconnected channel'', (control_new None)\<lparr> ct_last_command_ms := 100 \<rparr>)"
proof -
  let ?p = "demo_process True False []"
  have "process_step exact_lib ?p (?p\<lparr> pc_channel := if pc_engine ?p then try_send channel_cap (EvHeartbeat True 3) (pc_channel ?p) else pc_channel ?p \<rparr>)"
    by (rule process_step.feed_sends [of _ FeedHeartbeat]) (simp_all add: demo_process_def)
  then have r: "process_run exact_lib ?p ?p" by (simp add: demo_process_def process_run.more [OF process_run.stay])
  have "\<not> pc_engine ?p" "pc_exit ?p = None" "\<forall>code t. DrainComplete code t \<notin> set (lp_drain (pc_loop ?p))" "pc_feeds ?p"
    by (simp_all add: demo_process_def loop_start_def)
  from dead_engine_unnoticed [OF r this, of "demo_world\<lparr> wo_tx := channel_error ?p \<rparr>" 1 "''1''" "demo_message ''/stop''" "''stop''" "[]"
      "control_new None"] r this demo_commands
  show ?thesis by (intro exI [of _ ?p]) (simp add: is_critical_def, simp add: demo_world_def)
qed

section \<open>Dead feeds\<close>

lemma send_cancels_cancel: "send_cancels as q = (q', cs) \<Longrightarrow> \<forall>c \<in> set cs. is_cancel Yes c \<or> is_cancel No c"
proof (induction as q arbitrary: q' cs rule: send_cancels.induct)
  case (2 sd i as q)
  then show ?case by (cases sd) (auto split: prod.splits)
qed auto

lemma request_commands:
  assumes "iteration L i ev lp = Good lp'" and "is_request ev"
  shows "\<exists>cs. lp_commands lp' = lp_commands lp @ cs \<and> (\<forall>c \<in> set cs. is_cancel Yes c \<or> is_cancel No c)"
proof -
  from assms(2) consider "ev = EvShutdown \<or> ev = EvDrainAndRestart" | "ev = EvResumeTrading" | "ev = EvPauseTrading"
    by (auto simp: is_request_def)
  then show ?thesis
  proof cases
    case 3
    with assms(1) show ?thesis
      by (auto simp: iteration_def Let_def pause_request_def set_paused_def send_def dest: send_cancels_cancel split: prod.splits)
  qed (use assms(1) in \<open>auto simp: iteration_def Let_def drain_request_def pause_request_def set_paused_def send_def split: if_splits\<close>)
qed

text \<open>
  C14. The feeds end together, and without them nothing is posted. As soon as one of the six has
  returned, none sends any more; once the engine has taken what they left in the channel, only
  the owner's commands move it, and all it ever sends the executor are cancels.
\<close>

theorem dead_feeds_only_cancels:
  assumes "process_run L p q" and "\<not> pc_feeds p" and "\<forall>ev \<in> set (pc_channel p). is_request ev"
  shows "\<not> pc_feeds q \<and> (\<forall>ev \<in> set (pc_channel q). is_request ev)
    \<and> (\<exists>cs. lp_commands (pc_loop q) = lp_commands (pc_loop p) @ cs \<and> (\<forall>c \<in> set cs. is_cancel Yes c \<or> is_cancel No c))"
  using assms
proof (induction rule: process_run.induct)
  case (more p q r)
  from more.IH [OF more.prems] obtain cs where f: "\<not> pc_feeds q" and r: "\<forall>ev \<in> set (pc_channel q). is_request ev"
    and cs: "lp_commands (pc_loop q) = lp_commands (pc_loop p) @ cs" "\<forall>c \<in> set cs. is_cancel Yes c \<or> is_cancel No c" by blast
  from more.hyps(2) show ?case
  proof cases
    case (message user chat w m reply c)
    from handle_message_sent [OF message(6)] obtain new where "ct_sent c = ct_sent (pc_control q) @ new" "\<forall>ev \<in> set new. is_request ev" by blast
    with message f r cs show ?thesis by auto
  next
    case (engine_takes ev rest i lp)
    with r have e: "is_request ev" by simp
    from request_commands [OF engine_takes(7) e] obtain cs' where "lp_commands lp = lp_commands (pc_loop q) @ cs'"
      "\<forall>c \<in> set cs'. is_cancel Yes c \<or> is_cancel No c" by blast
    with cs have "lp_commands lp = lp_commands (pc_loop p) @ (cs @ cs')" "\<forall>c \<in> set (cs @ cs'). is_cancel Yes c \<or> is_cancel No c" by auto
    with f r engine_takes(1,5) show ?thesis by fastforce
  next
    case (engine_finishes ok now)
    with f cs show ?thesis by (simp add: engine_ends_def finish_keeps)
  qed (use f r cs in \<open>auto simp: engine_ends_def\<close>)
qed simp

lemma dead_feeds_only_cancels_witness:
  "\<exists>q cs. process_run exact_lib (demo_process False True [EvPauseTrading]) q \<and> en_paused (lp_engine (pc_loop q))
     \<and> lp_commands (pc_loop q) = cs \<and> (\<forall>c \<in> set cs. is_cancel Yes c \<or> is_cancel No c)"
proof -
  let ?p = "demo_process False True [EvPauseTrading]"
  obtain lp where lp: "iteration exact_lib (demo_io []) EvPauseTrading (pc_loop ?p) = Good lp" "en_paused (lp_engine lp)"
    using iteration_pause by blast
  have "process_step exact_lib ?p (?p\<lparr> pc_channel := [], pc_loop := lp \<rparr>)"
    by (rule process_step.engine_takes [OF _ _ _ _ _ lp(1)]) (simp_all add: demo_process_def loop_start_def)
  then have r: "process_run exact_lib ?p (?p\<lparr> pc_channel := [], pc_loop := lp \<rparr>)" by (rule process_run.more [OF process_run.stay])
  have "\<not> pc_feeds ?p" "\<forall>ev \<in> set (pc_channel ?p). is_request ev" "lp_commands (pc_loop ?p) = []"
    by (simp_all add: demo_process_def is_request_def loop_start_def)
  with dead_feeds_only_cancels [OF r this(1,2)] r lp(2) show ?thesis by fastforce
qed

lemma start_demo:
  "\<exists>p0. process_start exact_lib (\<lambda>k. Some ''1'') (\<lambda>f. None) (\<lambda>s. None) False 0 0 None = Good p0
     \<and> pc_listener p0 = Some (1, ''1'') \<and> pc_channel p0 = [] \<and> pc_engine p0 \<and> pc_watcher p0 \<and> pc_exit p0 = None
     \<and> pc_control p0 = control_new None \<and> lp_running (pc_loop p0) \<and> lp_drain (pc_loop p0) = []
     \<and> lp_statuses (pc_loop p0) = [] \<and> en_quoter (lp_engine (pc_loop p0)) = quoter_new"
proof -
  have "parse_i64 ''1'' = Some 1" by code_simp
  then show ?thesis
    by (simp add: process_start_def listener_owner_def config_load_def load_bot_def loop_start_def engine_new_def Let_def)
qed


end
