(* ===== verification/FeedKinds.thy ===== *)
theory FeedKinds
  imports ProcessProps
begin

text \<open>
  The kinds of events of the six feeds: each gateway of \<open>src/src/gateway\<close> sends only its own,
  none of them a command. The contract is the locale \<open>feed_source\<close>, interpreted on the run of
  every feed.
\<close>

section \<open>The contract\<close>

locale feed_source =
  fixes events :: "'s \<Rightarrow> ingestor_event list" and source :: feed
  assumes typed: "ev \<in> set (events s) \<Longrightarrow> feed_event source ev"
begin

lemma all_typed: "list_all (feed_event source) (events s)"
  by (auto simp: list_all_iff intro: typed)

lemma no_request: "ev \<in> set (events s) \<Longrightarrow> \<not> is_request ev"
  by (rule feed_event_no_request [OF typed])

text \<open>An iteration on an event of the feed does not touch the mode of the engine or the exit code.\<close>

lemma mode_kept:
  "ev \<in> set (events s) \<Longrightarrow> iteration L i ev lp = Good lp' \<Longrightarrow>
     same_mode (lp_engine lp) (lp_engine lp') \<and> lp_exit_code lp' = lp_exit_code lp"
  by (rule iteration_plain [OF _ no_request])

end

section \<open>The spot feed\<close>

lemma in_try_send: "ev \<in> set (try_send cap m ch) \<Longrightarrow> ev = m \<or> ev \<in> set ch"
  by (auto simp: try_send_def split: if_splits)

lemma in_try_send_all: "ev \<in> set (try_send_all cap ms ch) \<Longrightarrow> ev \<in> set ms \<or> ev \<in> set ch"
  by (auto simp: try_send_all_eq dest: in_set_takeD)

lemma spot_trades:
  "ev \<in> set (foldl (\<lambda>ch t. if is_stale (st_timestamp_ms t) now thr then ch else try_send free (EvSpotTrade t) ch) ch ts) \<Longrightarrow>
     ev \<in> set ch \<or> (\<exists>t. ev = EvSpotTrade t)"
  by (induction ts arbitrary: ch) (fastforce split: if_splits dest: in_try_send)+

lemma spot_message: "handle_sbe_message thr now free payload = Good evs \<Longrightarrow> ev \<in> set evs \<Longrightarrow> feed_event FeedSpot ev"
  by (auto simp: handle_sbe_message_def Let_def obind_eq_Good split: if_splits outcome.splits
    dest!: in_try_send spot_trades)

lemma spot_stream: "sbe_stream thr fs = Good (c, evs) \<Longrightarrow> ev \<in> set evs \<Longrightarrow> feed_event FeedSpot ev"
  by (induction thr fs arbitrary: c evs rule: sbe_stream.induct)
    (auto simp: obind_eq_Good split: outcome.splits if_splits prod.splits dest: spot_message)

lemma spot_session: "sbe_connect_and_stream thr s = Good (c, evs) \<Longrightarrow> ev \<in> set evs \<Longrightarrow> feed_event FeedSpot ev"
  by (auto simp: sbe_connect_and_stream_def obind_eq_Good split: if_splits prod.splits dest: spot_stream dest!: in_try_send)

lemma spot_run: "sbe_run_from thr b ss = Good (evs, ds) \<Longrightarrow> ev \<in> set evs \<Longrightarrow> feed_event FeedSpot ev"
proof (induction ss arbitrary: b evs ds)
  case (Cons s ss)
  from Cons.prems show ?case
    by (auto simp: obind_eq_Good split: prod.splits dest: spot_session Cons.IH dest!: in_try_send)
qed simp

lemma spot_good: "ev \<in> set (fst (good_or (sbe_run thr ss) ([], []))) \<Longrightarrow> feed_event FeedSpot ev"
  by (cases "sbe_run thr ss") (auto simp: sbe_run_def intro: spot_run)

interpretation spot_feed: feed_source "\<lambda>(thr, ss). fst (good_or (sbe_run thr ss) ([], []))" FeedSpot
  by unfold_locales (use spot_good in auto)

section \<open>The futures feed\<close>

lemma futures_message: "ev \<in> set (handle_json_message L json_parse thr now payload) \<Longrightarrow> feed_event FeedFutures ev"
  by (auto simp: handle_json_message_def agg_trade_event_def book_ticker_event_def force_order_event_def
    split: option.splits if_splits prod.splits)

lemma futures_frames: "ev \<in> set (snd (futures_stream L json_parse thr fs)) \<Longrightarrow> feed_event FeedFutures ev"
  by (induction L json_parse thr fs rule: futures_stream.induct) (auto split: prod.splits dest: futures_message)

lemma futures_sessions: "ev \<in> set (fst (futures_run_from L json_parse thr b ss)) \<Longrightarrow> feed_event FeedFutures ev"
proof (induction ss arbitrary: b)
  case (Cons s ss)
  have "feed_event FeedFutures ev" if "ev \<in> set (snd (futures_connect_and_stream L json_parse thr s))"
    using that futures_frames by (auto simp: futures_connect_and_stream_def case_prod_unfold Let_def split: option.splits)
  with Cons show ?case by (auto simp: Let_def case_prod_unfold)
qed simp

interpretation futures_feed: feed_source "\<lambda>(thr, ss). fst (futures_run L json_parse thr ss)" FeedFutures for L json_parse
  by unfold_locales (auto simp: futures_run_def dest: futures_sessions)

section \<open>The feeds of the exchange\<close>

lemma session_events:
  "\<forall>now free p. set (handle now free p) \<subseteq> K \<Longrightarrow> ev \<in> set (snd (text_session handle ins)) \<Longrightarrow> ev \<in> K"
  by (induction handle ins rule: text_session.induct) (auto simp: case_prod_unfold Let_def split: if_splits)

lemma collect_all: "collect f xs = Good ys \<Longrightarrow> y \<in> set ys \<Longrightarrow> \<exists>x \<in> set xs. f x = Good y"
  by (induction xs arbitrary: ys) (auto simp: obind_eq_Good)

lemma market_events: "market_event L now event = Good evs \<Longrightarrow> ev \<in> set evs \<Longrightarrow> feed_event FeedMarket ev"
  by (auto simp: market_event_def Let_def obind_eq_Good parse_best_bid_ask_event_def parse_tick_size_change_event_def
    parse_market_resolved_event_def parse_price_change_event_def parse_change_def split: if_splits dest!: collect_all)

lemma market_dispatch:
  "ev \<in> set (good_or (dispatch_market_event L now cap event ch) ch) \<Longrightarrow> ev \<in> set ch \<or> feed_event FeedMarket ev"
  by (cases "market_event L now event") (auto simp: dispatch_market_event_def dest!: in_try_send_all dest: market_events)

lemma market_fold:
  "ev \<in> set (foldl (\<lambda>ch event. good_or (dispatch_market_event L now cap event ch) ch) ch events) \<Longrightarrow>
     ev \<in> set ch \<or> feed_event FeedMarket ev"
  by (induction events arbitrary: ch) (use market_dispatch in fastforce)+

lemma market_message: "ev \<in> set (good_or (handle_market_message L json_parse now cap payload []) []) \<Longrightarrow> feed_event FeedMarket ev"
  by (cases "json_parse payload") (auto simp: handle_market_message_def split: json.splits dest: market_fold market_dispatch)

lemma market_session: "ev \<in> set (snd (market_ws_session L json_parse s)) \<Longrightarrow> feed_event FeedMarket ev"
proof -
  let ?h = "\<lambda>now free p. good_or (handle_market_message L json_parse now free p []) []"
  have "\<forall>now free p. set (?h now free p) \<subseteq> {ev. feed_event FeedMarket ev}" using market_message by blast
  from session_events [OF this] have "ev \<in> set (snd (text_session ?h (ws_inputs s))) \<Longrightarrow> feed_event FeedMarket ev" by simp
  then show "ev \<in> set (snd (market_ws_session L json_parse s)) \<Longrightarrow> feed_event FeedMarket ev"
    by (auto simp: market_ws_session_def Let_def case_prod_unfold split: if_splits dest!: in_try_send)
qed

lemma market_turn: "ev \<in> set (mr_events (market_step L json_parse t r)) \<Longrightarrow> ev \<in> set (mr_events r) \<or> feed_event FeedMarket ev"
  by (auto simp: market_step_def split: if_splits market_turn.splits option.splits dest: market_session dest!: in_try_send)

interpretation market_feed: feed_source "\<lambda>ts. mr_events (run_market_ws L json_parse ts)" FeedMarket for L json_parse
proof
  fix ev ts
  have "ev \<in> set (mr_events (foldl (\<lambda>r t. market_step L json_parse t r) r ts)) \<Longrightarrow>
      ev \<in> set (mr_events r) \<or> feed_event FeedMarket ev" for r
    by (induction ts arbitrary: r) (use market_turn in fastforce)+
  from this [of market_run_new] show "ev \<in> set (mr_events (run_market_ws L json_parse ts)) \<Longrightarrow> feed_event FeedMarket ev"
    by (auto simp: run_market_ws_def market_run_new_def)
qed

lemma user_events: "ev \<in> set (user_event L event) \<Longrightarrow> feed_event FeedUser ev"
  by (auto simp: user_event_def Let_def split: option.splits if_splits)

lemma user_message: "ev \<in> set (good_or (handle_user_message L json_parse cap payload []) []) \<Longrightarrow> feed_event FeedUser ev"
  by (cases "json_parse payload") (auto simp: handle_user_message_def Let_def feed_events dest!: in_try_send_all dest: user_events)

lemma user_session: "ev \<in> set (snd (user_ws_session L json_parse s)) \<Longrightarrow> feed_event FeedUser ev"
proof -
  let ?h = "\<lambda>now free p. good_or (handle_user_message L json_parse free p []) []"
  have "\<forall>now free p. set (?h now free p) \<subseteq> {ev. feed_event FeedUser ev}" using user_message by blast
  from session_events [OF this] have "ev \<in> set (snd (text_session ?h (ws_inputs s))) \<Longrightarrow> feed_event FeedUser ev" by simp
  then show "ev \<in> set (snd (user_ws_session L json_parse s)) \<Longrightarrow> feed_event FeedUser ev"
    by (auto simp: user_ws_session_def Let_def case_prod_unfold split: if_splits dest!: in_try_send)
qed

lemma user_run: "ev \<in> set (fst (user_run_from L json_parse b ss)) \<Longrightarrow> feed_event FeedUser ev"
  by (induction L json_parse b ss rule: user_run_from.induct)
    (auto simp: case_prod_unfold Let_def dest: user_session dest!: in_try_send)

interpretation user_feed: feed_source
  "\<lambda>ss. fst (good_or (run_user_ws L json_parse api_key secret passphrase ss) ([], []))" FeedUser
  for L json_parse api_key secret passphrase
  by unfold_locales (cases api_key; cases secret; cases passphrase; auto simp: run_user_ws_def dest: user_run)

section \<open>The timers\<close>

lemma rotation_emits:
  "ev \<in> set (rn_events (emit_rotation_events i m bs r)) \<Longrightarrow> ev \<in> set (rn_events r) \<or> feed_event FeedRotation ev"
  by (auto simp: emit_rotation_events_def split: if_splits dest!: in_set_takeD)

lemma expiry_emits: "ev \<in> set (rn_events (on_expiry i r)) \<Longrightarrow> ev \<in> set (rn_events r) \<or> feed_event FeedRotation ev"
  by (cases "rn_next r") (auto simp: on_expiry_def Let_def split: if_splits dest: rotation_emits)

lemma prewarm_emits: "prewarm L ids_parse lead i r = Good r' \<Longrightarrow> rn_events r' = rn_events r"
  by (auto simp: prewarm_def Let_def split: option.splits outcome.splits if_splits)

lemma poll_emits:
  "poll_gamma_and_emit L ids_parse i r = Good r' \<Longrightarrow> ev \<in> set (rn_events r') \<Longrightarrow> ev \<in> set (rn_events r) \<or> feed_event FeedRotation ev"
  by (auto simp: poll_gamma_and_emit_def Let_def split: outcome.splits if_splits dest: rotation_emits)

lemma check_emits:
  assumes "on_check L ids_parse lead i r = Good r'" and "ev \<in> set (rn_events r')"
  shows "ev \<in> set (rn_events r) \<or> feed_event FeedRotation ev"
  using assms by (auto simp: on_check_def obind_eq_Good split: if_splits option.splits dest!: prewarm_emits)
    (drule (1) poll_emits; simp)+

lemma rotation_turns:
  "rotation_step L ids_parse lead t r = Good r' \<Longrightarrow> ev \<in> set (rn_events r') \<Longrightarrow> ev \<in> set (rn_events r) \<or> feed_event FeedRotation ev"
  by (cases t) (auto simp: rotation_step_def split: if_splits dest: expiry_emits check_emits)

interpretation rotation_feed: feed_source
  "\<lambda>ts. rn_events (good_or (run_market_rotation L ids_parse lead ts) rotation_new)" FeedRotation for L ids_parse lead
proof
  fix ev ts
  have "orun (rotation_step L ids_parse lead) ts r = Good r' \<Longrightarrow> ev \<in> set (rn_events r') \<Longrightarrow>
      ev \<in> set (rn_events r) \<or> feed_event FeedRotation ev" for r r'
    by (induction ts arbitrary: r) (auto simp: obind_eq_Good dest: rotation_turns)
  from this [of rotation_new]
  show "ev \<in> set (rn_events (good_or (run_market_rotation L ids_parse lead ts) rotation_new)) \<Longrightarrow> feed_event FeedRotation ev"
    by (cases "run_market_rotation L ids_parse lead ts") (auto simp: run_market_rotation_def rotation_new_def)
qed

lemma beat_events:
  "ev \<in> set (hb_events (heartbeat_beat json_parse uuid_parse h b)) \<Longrightarrow> ev \<in> set (hb_events h) \<or> feed_event FeedHeartbeat ev"
  by (auto simp: heartbeat_beat_def Let_def split: if_splits beat_answer.splits)

interpretation heartbeat_feed: feed_source
  "\<lambda>bs. hb_events (run_heartbeat json_parse uuid_parse bs heartbeat_new)" FeedHeartbeat for json_parse uuid_parse
proof
  fix ev bs
  have "ev \<in> set (hb_events (run_heartbeat json_parse uuid_parse bs h)) \<Longrightarrow> ev \<in> set (hb_events h) \<or> feed_event FeedHeartbeat ev" for h
    by (induction bs arbitrary: h) (use beat_events in \<open>fastforce simp: run_heartbeat_def\<close>)+
  from this [of heartbeat_new]
  show "ev \<in> set (hb_events (run_heartbeat json_parse uuid_parse bs heartbeat_new)) \<Longrightarrow> feed_event FeedHeartbeat ev"
    by (simp add: heartbeat_new_def)
qed

section \<open>Property\<close>

text \<open>
  C13. The type of every feed. Whatever arrives from outside, each of the six feeds sends only the
  kinds of events that are its own, with its own name as their source; none of them is a command,
  so no feed can pause, resume, restart or stop the bot.
\<close>

theorem feeds_send_their_kind:
  "list_all (feed_event FeedSpot) (fst (good_or (sbe_run thr spot_sessions) ([], [])))
   \<and> list_all (feed_event FeedFutures) (fst (futures_run L json_parse thr futures_sessions))
   \<and> list_all (feed_event FeedMarket) (mr_events (run_market_ws L json_parse market_turns))
   \<and> list_all (feed_event FeedUser) (fst (good_or (run_user_ws L json_parse api_key secret passphrase user_sessions) ([], [])))
   \<and> list_all (feed_event FeedRotation) (rn_events (good_or (run_market_rotation L ids_parse lead rotation_turns) rotation_new))
   \<and> list_all (feed_event FeedHeartbeat) (hb_events (run_heartbeat json_parse uuid_parse beats heartbeat_new))
   \<and> list_all (\<lambda>f. \<not> feed_event f EvShutdown \<and> \<not> feed_event f EvDrainAndRestart \<and> \<not> feed_event f EvPauseTrading
        \<and> \<not> feed_event f EvResumeTrading) [FeedSpot, FeedFutures, FeedMarket, FeedRotation, FeedUser, FeedHeartbeat]"
  using spot_feed.all_typed [of "(thr, spot_sessions)"] futures_feed.all_typed [of L json_parse "(thr, futures_sessions)"]
    market_feed.all_typed [of L json_parse market_turns] user_feed.all_typed [of L json_parse api_key secret passphrase user_sessions]
    rotation_feed.all_typed [of L ids_parse lead rotation_turns] heartbeat_feed.all_typed [of json_parse uuid_parse beats]
  by (simp add: feed_event_def)

end
