(* ===== verification/Connect.thy ===== *)
theory Connect
  imports Control Reporter Rotation QuoteProps
begin

text \<open>
  The connections the gateways and the Telegram client open: \<open>gateway/polymarket/tls_helpers.rs\<close>
  and its copies in \<open>gateway/binance/ws.rs\<close>, \<open>gateway/binance/futures_ws.rs\<close>,
  \<open>reporting/telegram.rs\<close> and \<open>control/listener.rs\<close> (under \<open>src/src/\<close>): what is connected to, what
  is asked, and which answers are errors. The network and the parser of URLs are the record \<open>net\<close>.
\<close>

section \<open>The network\<close>

record uri =
  ur_host :: "string option"
  ur_port :: "nat option"
  ur_path_and_query :: "string option"

record http_request =
  rq_method :: string
  rq_uri :: string
  rq_headers :: "(string \<times> string) list"
  rq_body :: string

text \<open>The status, and the body unless the connection is lost while it is read.\<close>

record http_response =
  rs_status :: nat
  rs_body :: "string option"

text \<open>
  Every step that can fail: parsing the URL, the TCP connection to a host and port, switching off
  Nagle's algorithm, a valid server name, the TLS handshake under that name, a request whose
  headers are valid, the web-socket upgrade, the HTTP handshake, the exchange.
\<close>

record net =
  nt_uri :: "string \<Rightarrow> uri option"
  nt_tcp :: "string \<Rightarrow> nat \<Rightarrow> bool"
  nt_nodelay :: bool
  nt_server_name :: "string \<Rightarrow> bool"
  nt_tls :: "string \<Rightarrow> bool"
  nt_valid :: "http_request \<Rightarrow> bool"
  nt_upgrade :: "http_request \<Rightarrow> bool"
  nt_handshake :: bool
  nt_send :: "http_request \<Rightarrow> http_response option"

definition ensure :: "bool \<Rightarrow> string \<Rightarrow> unit outcome" where
  "ensure b e = (if b then Good () else Err e)"

lemma ensure_Good [simp]: "ensure b e = Good u \<longleftrightarrow> b"
  by (simp add: ensure_def)

section \<open>Web sockets\<close>

text \<open>The upgrade request; \<open>key\<close> is the random key of the handshake.\<close>

definition upgrade_request :: "string \<Rightarrow> string \<Rightarrow> string \<Rightarrow> (string \<times> string) list \<Rightarrow> http_request" where
  "upgrade_request key path host extra = \<lparr> rq_method = ''GET'', rq_uri = path,
     rq_headers = [(''Host'', host), (''upgrade'', ''websocket''), (''connection'', ''upgrade''),
       (''Sec-WebSocket-Key'', key), (''Sec-WebSocket-Version'', ''13'')] @ extra, rq_body = [] \<rparr>"

definition addr_text :: "string \<Rightarrow> nat \<Rightarrow> string" where
  "addr_text host port = host @ '':'' @ show_int (int port)"

definition tls_connect :: "net \<Rightarrow> string \<Rightarrow> string \<Rightarrow> http_request outcome" where
  "tls_connect nt key url =
     obind (oget (nt_uri nt url) ''invalid WS URL'') (\<lambda>u.
     obind (oget (ur_host u) ''WS URL has no host'') (\<lambda>host.
     let port = unwrap_or (ur_port u) 443 in
     obind (ensure (nt_tcp nt host port) (''TCP connect to '' @ addr_text host port @ '' failed'')) (\<lambda>_.
     obind (ensure (nt_nodelay nt) ''TCP_NODELAY failed'') (\<lambda>_.
     obind (ensure (nt_server_name nt host) (''invalid TLS server name '' @ host)) (\<lambda>_.
     obind (ensure (nt_tls nt host) ''TLS handshake failed'') (\<lambda>_.
     let request = upgrade_request key (unwrap_or (ur_path_and_query u) ''/'') host [] in
     obind (ensure (nt_valid nt request) ''failed to build WS upgrade request'') (\<lambda>_.
     obind (ensure (nt_upgrade nt request) ''WebSocket handshake failed'') (\<lambda>_.
     Good request))))))))"

definition btcusdt_stream :: string where
  "btcusdt_stream = ''/stream?streams=btcusdt@depth20/btcusdt@bestBidAsk/btcusdt@trade''"

text \<open>The spot gateway sends its API key with the upgrade.\<close>

definition spot_tls_connect :: "net \<Rightarrow> string \<Rightarrow> string \<Rightarrow> string \<Rightarrow> http_request outcome" where
  "spot_tls_connect nt key ws_url api_key =
     obind (oget (nt_uri nt (ws_url @ btcusdt_stream)) ''invalid Binance SBE WS URL'') (\<lambda>u.
     obind (oget (ur_host u) ''Binance SBE WS URL has no host'') (\<lambda>host.
     let port = unwrap_or (ur_port u) 443 in
     obind (ensure (nt_tcp nt host port) (''TCP connect to '' @ addr_text host port @ '' failed'')) (\<lambda>_.
     obind (ensure (nt_nodelay nt) ''failed to set TCP_NODELAY'') (\<lambda>_.
     obind (ensure (nt_server_name nt host) (''invalid TLS server name '' @ host)) (\<lambda>_.
     obind (ensure (nt_tls nt host) ''TLS handshake failed'') (\<lambda>_.
     let request = upgrade_request key (unwrap_or (ur_path_and_query u) ''/'') host [(''X-MBX-APIKEY'', api_key)] in
     obind (ensure (nt_valid nt request) ''failed to build WS upgrade request'') (\<lambda>_.
     obind (ensure (nt_upgrade nt request) ''WebSocket handshake failed'') (\<lambda>_.
     Good request))))))))"

definition futures_stream_path :: string where
  "futures_stream_path = ''/stream?streams=btcusdt@aggTrade/btcusdt@bookTicker/btcusdt@forceOrder''"

text \<open>The errors of this one are those of the library, unadorned.\<close>

definition futures_tls_connect :: "net \<Rightarrow> string \<Rightarrow> string \<Rightarrow> http_request outcome" where
  "futures_tls_connect nt key ws_url =
     obind (oget (nt_uri nt (ws_url @ futures_stream_path)) ''invalid uri'') (\<lambda>u.
     obind (oget (ur_host u) ''no host in futures WS URL'') (\<lambda>host.
     let port = unwrap_or (ur_port u) 443 in
     obind (ensure (nt_tcp nt host port) ''connect'') (\<lambda>_.
     obind (ensure (nt_nodelay nt) ''nodelay'') (\<lambda>_.
     obind (ensure (nt_server_name nt host) ''invalid TLS server name'') (\<lambda>_.
     obind (ensure (nt_tls nt host) ''tls'') (\<lambda>_.
     let request = upgrade_request key (unwrap_or (ur_path_and_query u) ''/'') host [] in
     obind (ensure (nt_valid nt request) ''request'') (\<lambda>_.
     obind (ensure (nt_upgrade nt request) ''upgrade'') (\<lambda>_.
     Good request))))))))"

section \<open>HTTP\<close>

definition get_request :: "uri \<Rightarrow> string \<Rightarrow> http_request" where
  "get_request u host = \<lparr> rq_method = ''GET'', rq_uri = unwrap_or (ur_path_and_query u) ''/'',
     rq_headers = [(''Host'', host), (''User-Agent'', ''facaibot/0.1'')], rq_body = [] \<rparr>"

text \<open>What is logged of the status; the body is returned all the same.\<close>

datatype http_warning = EngineRestart | NonSuccess nat

definition status_warning :: "nat \<Rightarrow> http_warning option" where
  "status_warning status =
     (if status = 425 then Some EngineRestart
      else if \<not> (200 \<le> status \<and> status < 300) then Some (NonSuccess status) else None)"

definition http_get :: "net \<Rightarrow> string \<Rightarrow> (http_warning option \<times> string) outcome" where
  "http_get nt url =
     obind (oget (nt_uri nt url) ''invalid URL'') (\<lambda>u.
     obind (oget (ur_host u) ''URL missing host'') (\<lambda>host.
     let port = unwrap_or (ur_port u) 443 in
     obind (ensure (nt_tcp nt host port) (''TCP connect to '' @ addr_text host port @ '' failed'')) (\<lambda>_.
     obind (ensure (nt_server_name nt host) ''TLS server name error'') (\<lambda>_.
     obind (ensure (nt_tls nt host) ''TLS handshake failed'') (\<lambda>_.
     obind (ensure (nt_handshake nt) ''HTTP/1.1 handshake failed'') (\<lambda>_.
     obind (ensure (nt_valid nt (get_request u host)) ''GET request build failed'') (\<lambda>_.
     obind (oget (nt_send nt (get_request u host)) ''GET send failed'') (\<lambda>resp.
     obind (oget (rs_body resp) ''GET body collect failed'') (\<lambda>body.
     Good (status_warning (rs_status resp), body))))))))))"

section \<open>Telegram\<close>

definition telegram_host :: string where
  "telegram_host = ''api.telegram.org''"

definition telegram_port :: nat where
  "telegram_port = 443"

text \<open>The exchange shared by the three calls: None when any step before the response fails.\<close>

definition telegram_exchange :: "net \<Rightarrow> http_request \<Rightarrow> http_response option" where
  "telegram_exchange nt rq =
     (if nt_tcp nt telegram_host telegram_port \<and> nt_server_name nt telegram_host \<and> nt_tls nt telegram_host
         \<and> nt_handshake nt \<and> nt_valid nt rq then nt_send nt rq else None)"

definition json_post :: "string \<Rightarrow> string \<Rightarrow> http_request" where
  "json_post path body = \<lparr> rq_method = ''POST'', rq_uri = path,
     rq_headers = [(''host'', telegram_host), (''content-type'', ''application/json''),
       (''Content-Length'', show_int (int (length body)))], rq_body = body \<rparr>"

definition send_message_request :: "(json \<Rightarrow> string) \<Rightarrow> string \<Rightarrow> string \<Rightarrow> string \<Rightarrow> http_request" where
  "send_message_request json_show bot_token chat_id text =
     json_post (''/bot'' @ bot_token @ ''/sendMessage'') (json_show (message_body chat_id text))"

text \<open>The answer \<open>Reporter.post_telegram_message\<close> reads: a lost body fails the exchange.\<close>

definition send_message_answer :: "(string \<Rightarrow> json option) \<Rightarrow> http_response option \<Rightarrow> http_answer" where
  "send_message_answer json_parse r = (case r of
      None \<Rightarrow> HttpFailed
    | Some resp \<Rightarrow> (case rs_body resp of None \<Rightarrow> HttpFailed
        | Some body \<Rightarrow> HttpStatus (200 \<le> rs_status resp \<and> rs_status resp < 300) (json_parse body)))"

definition delete_request :: "(json \<Rightarrow> string) \<Rightarrow> string \<Rightarrow> string \<Rightarrow> int \<Rightarrow> http_request" where
  "delete_request json_show bot_token chat_id message_id =
     json_post (''/bot'' @ bot_token @ ''/deleteMessage'') (json_show (JObj [(''chat_id'', JStr chat_id),
       (''message_id'', if 0 \<le> message_id then JPos (of_int message_id) else JNeg message_id)]))"

text \<open>Only a failed exchange is an error; a refusal is logged.\<close>

definition delete_telegram_message :: "net \<Rightarrow> (json \<Rightarrow> string) \<Rightarrow> string \<Rightarrow> string \<Rightarrow> int \<Rightarrow> unit outcome" where
  "delete_telegram_message nt json_show bot_token chat_id message_id =
     obind (oget (telegram_exchange nt (delete_request json_show bot_token chat_id message_id)) ''request failed'') (\<lambda>_. Good ())"

definition poll_request :: "string \<Rightarrow> int \<Rightarrow> http_request" where
  "poll_request bot_token last_update_id = \<lparr> rq_method = ''GET'',
     rq_uri = ''/bot'' @ bot_token @ ''/getUpdates?offset='' @ show_int (last_update_id + 1)
       @ ''&timeout=10&allowed_updates=%5B%22message%22%5D'',
     rq_headers = [(''host'', telegram_host), (''content-type'', ''application/json'')], rq_body = [] \<rparr>"

text \<open>\<open>updates_parse\<close> is the derived parser of \<open>GetUpdatesResponse\<close>; a late answer is the caller's.\<close>

definition poll_exchange :: "net \<Rightarrow> (string \<Rightarrow> (bool \<times> tg_update list) option) \<Rightarrow> string \<Rightarrow> int \<Rightarrow> poll_answer" where
  "poll_exchange nt updates_parse bot_token last_update_id =
     (case Option.bind (telegram_exchange nt (poll_request bot_token last_update_id)) (\<lambda>resp.
             Option.bind (rs_body resp) updates_parse) of
        None \<Rightarrow> PollFailed
      | Some (ok, us) \<Rightarrow> PollOk ok us)"

section \<open>REST lookups over the connection\<close>

definition clob_base_url :: string where
  "clob_base_url = ''https://clob.polymarket.com''"

definition book_url :: "string \<Rightarrow> string" where
  "book_url token_id = clob_base_url @ ''/book?token_id='' @ token_id"

definition tick_size_url :: "string \<Rightarrow> string" where
  "tick_size_url token_id = clob_base_url @ ''/tick-size?token_id='' @ token_id"

definition gamma_url :: string where
  "gamma_url = ''https://gamma-api.polymarket.com/events?tag_id=102892&closed=false&order=endDate&ascending=true&limit=100''"

text \<open>What the lookups of \<open>Rotation\<close> get of a URL; \<open>parse\<close> fails on invalid UTF-8 and invalid JSON.\<close>

definition rest_value :: "net \<Rightarrow> (string \<Rightarrow> 'v option) \<Rightarrow> string \<Rightarrow> 'v option" where
  "rest_value nt parse url = (case http_get nt url of Good (warning, body) \<Rightarrow> parse body | _ \<Rightarrow> None)"

section \<open>Which answers are errors\<close>

text \<open>A GET succeeds exactly when every step does, whatever the status of the response.\<close>

lemma http_get_Good:
  "http_get nt url = Good (warning, body) \<longleftrightarrow> (\<exists>u host resp. nt_uri nt url = Some u \<and> ur_host u = Some host
     \<and> nt_tcp nt host (unwrap_or (ur_port u) 443) \<and> nt_server_name nt host \<and> nt_tls nt host \<and> nt_handshake nt
     \<and> nt_valid nt (get_request u host) \<and> nt_send nt (get_request u host) = Some resp \<and> rs_body resp = Some body
     \<and> warning = status_warning (rs_status resp))"
  by (auto simp: http_get_def obind_eq_Good Let_def)

lemma fetch_empty_book:
  assumes "dom (map_of kvs) \<inter> {''bids'', ''asks'', ''asset_id'', ''timestamp''} = {}"
  shows "fetch_order_book L now token (Some (JObj kvs))
    = Good \<lparr> ob_asset_id = token, ob_bids = [], ob_asks = [], ob_timestamp_ms = now \<rparr>"
proof -
  have "map_of kvs ''bids'' = None" "map_of kvs ''asks'' = None" "map_of kvs ''asset_id'' = None" "map_of kvs ''timestamp'' = None"
    using assms by blast+
  then show ?thesis
    by (simp add: fetch_order_book_def parse_price_levels_def get_str_def parse_timestamp_field_def sort_bids_def sort_asks_def)
qed


definition demo_net :: "nat \<Rightarrow> string \<Rightarrow> net" where
  "demo_net status body = \<lparr> nt_uri = (\<lambda>url. Some \<lparr> ur_host = Some ''clob.polymarket.com'', ur_port = None,
       ur_path_and_query = Some ''/book'' \<rparr>),
     nt_tcp = (\<lambda>host port. port = 443), nt_nodelay = True, nt_server_name = (\<lambda>host. True), nt_tls = (\<lambda>host. True),
     nt_valid = (\<lambda>rq. True), nt_upgrade = (\<lambda>rq. True), nt_handshake = True,
     nt_send = (\<lambda>rq. Some \<lparr> rs_status = status, rs_body = Some body \<rparr>) \<rparr>"


end
