(* ===== verification/AuditTrail.thy ===== *)
theory AuditTrail
  imports LoopFrames
begin

text \<open>
  From a fill to the database. The abstract specification of the bookkeeping is a ledger: a list of
  fills, from which both the position of the engine (\<open>engine/position.rs\<close>) and the rows of the table
  \<open>v2_fills\<close> (\<open>storage/cold.rs\<close>) follow. Every operation of the engine and every iteration of
  \<open>main.rs\<close> refines it by appending to the list.
\<close>

section \<open>The ledger\<close>

text \<open>Side, price, size, whether the taker's, and fee, as the database sees them.\<close>

type_synonym facts = "string \<times> f64 \<times> f64 \<times> bool \<times> f64"

definition fill_facts :: "'a lib_scheme \<Rightarrow> fill \<Rightarrow> facts" where
  "fill_facts L f = (side_label (fl_side f), dec_f64 L (fl_price f), dec_f64 L (fl_size f), fl_taker f, dec_f64 L (fl_fee f))"

definition record_facts :: "fill_record \<Rightarrow> facts" where
  "record_facts r = (fr_side r, fr_price r, fr_size r, fr_was_taker r, fr_fee r)"

definition book_fills :: "fill list \<Rightarrow> bilateral_position \<Rightarrow> bilateral_position" where
  "book_fills fs p = foldl (\<lambda>p f. apply_fill f p) p fs"

lemma book_fills_append: "book_fills (fs @ gs) p = book_fills gs (book_fills fs p)"
  by (simp add: book_fills_def)

lemma book_fills_shares:
  "total_shares (pos_side sd (book_fills fs p)) = total_shares (pos_side sd p) + (\<Sum>f\<leftarrow>filter (\<lambda>f. fl_side f = sd) fs. fl_size f)"
  by (induction fs arbitrary: p) (simp_all add: book_fills_def)

section \<open>The engine\<close>

definition refines_ledger :: "'a lib_scheme \<Rightarrow> engine \<Rightarrow> engine \<Rightarrow> fill list \<Rightarrow> bool" where
  "refines_ledger L e e' fs \<longleftrightarrow> en_position e' = book_fills fs (en_position e)
     \<and> map record_facts (en_pending_fill_records e') = map record_facts (en_pending_fill_records e) @ map (fill_facts L) fs"

lemma ledger_core: "same_core e e' \<Longrightarrow> refines_ledger L e e' []"
  by (simp add: refines_ledger_def same_core_def book_fills_def)

lemma ledger_trans: "refines_ledger L a b fs \<Longrightarrow> refines_ledger L b c gs \<Longrightarrow> refines_ledger L a c (fs @ gs)"
  by (simp add: refines_ledger_def book_fills_append)

lemma ledger_core_after: "refines_ledger L a b fs \<Longrightarrow> same_core b c \<Longrightarrow> refines_ledger L a c fs"
  using ledger_trans [OF _ ledger_core] by fastforce

text \<open>The one way a fill is booked: position, message, record.\<close>

lemma ledger_fill:
  assumes "en_position e1 = record_fill sd price sz tk fee (en_position e)"
    and "en_pending_fill_records e1 = en_pending_fill_records e"
  shows "refines_ledger L e (push_fill_record L sd price sz tk fee now (push_fill_message L sd price sz tk e1))
    [\<lparr> fl_side = sd, fl_price = price, fl_size = sz, fl_taker = tk, fl_fee = fee \<rparr>]"
  using assms by (simp add: refines_ledger_def push_fill_record_def push_fill_message_def book_fills_def apply_fill_def
    fill_facts_def record_facts_def Let_def)

lemma ledger_bump: "refines_ledger L e e' fs \<Longrightarrow> refines_ledger L e (bump_fills sd e') fs"
  by (cases sd) (simp_all add: refines_ledger_def bump_fills_def)

lemma ledger_fields:
  "en_position e2 = en_position e1 \<Longrightarrow> en_pending_fill_records e2 = en_pending_fill_records e1 \<Longrightarrow>
     refines_ledger L e e1 fs \<Longrightarrow> refines_ledger L e e2 fs"
  by (simp add: refines_ledger_def)

lemma ledger_stay: "en_position e' = en_position e \<Longrightarrow> en_pending_fill_records e' = en_pending_fill_records e \<Longrightarrow>
    \<exists>fs. refines_ledger L e e' fs"
  by (intro exI [of _ "[]"]) (simp add: refines_ledger_def book_fills_def)

lemma ledger_feedback: "\<exists>fs. refines_ledger L e (on_feedback L now fb e) fs"
proof (cases fb)
  case (OrderPosted sd i price sz filled)
  show ?thesis
  proof (cases filled)
    case True
    have "refines_ledger L e (on_feedback L now fb e) [\<lparr> fl_side = sd, fl_price = price, fl_size = sz, fl_taker = False, fl_fee = 0 \<rparr>]"
      unfolding OrderPosted using True by (simp add: fb_order_posted_def Let_def) (rule ledger_bump, rule ledger_fill, simp_all)
    then show ?thesis ..
  qed (intro ledger_stay; simp add: OrderPosted fb_order_posted_def Let_def)+
next
  case (OrderFailed sd)
  then show ?thesis by (intro ledger_stay) simp_all
next
  case (CancelResult sd i m)
  show ?thesis
  proof (cases "\<exists>matched price filled. m = Some matched \<and> 0 < matched
      \<and> lookup_order_for_cancel sd i (en_quoter e) = Some (price, filled) \<and> 0 < matched - filled")
    case True
    then obtain matched price filled where h: "m = Some matched" "0 < matched"
      "lookup_order_for_cancel sd i (en_quoter e) = Some (price, filled)" "0 < matched - filled" by blast
    let ?f = "\<lparr> fl_side = sd, fl_price = price, fl_size = matched - filled, fl_taker = False, fl_fee = 0 \<rparr>"
    have "refines_ledger L e (bump_fills sd (push_fill_record L sd price (matched - filled) False 0 now
        (push_fill_message L sd price (matched - filled) False
          (e\<lparr> en_position := record_fill sd price (matched - filled) False 0 (en_position e) \<rparr>)))) [?f]"
      by (rule ledger_bump, rule ledger_fill) simp_all
    then have "refines_ledger L e (on_feedback L now fb e) [?f]"
      unfolding CancelResult using h by (simp add: fb_cancel_result_def Let_def) (erule ledger_fields [rotated 2]; simp)
    then show ?thesis ..
  next
    case False
    then have "en_position (on_feedback L now fb e) = en_position e"
      "en_pending_fill_records (on_feedback L now fb e) = en_pending_fill_records e"
      unfolding CancelResult by (auto simp: fb_cancel_result_def Let_def split: option.splits)
    then show ?thesis by (rule ledger_stay)
  qed
next
  case (RebalanceResult sd filled m price)
  show ?thesis
  proof (cases "filled \<and> 0 < m")
    case True
    let ?fee = "compute_taker_fee price m"
    have "refines_ledger L e (push_fill_record L sd price m True ?fee now (push_fill_message L sd price m True
        (e\<lparr> en_position := record_fill sd price m True ?fee (en_position e) \<rparr>)))
      [\<lparr> fl_side = sd, fl_price = price, fl_size = m, fl_taker = True, fl_fee = ?fee \<rparr>]"
      by (rule ledger_fill) simp_all
    then have "refines_ledger L e (on_feedback L now fb e)
        [\<lparr> fl_side = sd, fl_price = price, fl_size = m, fl_taker = True, fl_fee = ?fee \<rparr>]"
      unfolding RebalanceResult using True by (simp add: fb_rebalance_result_def Let_def) (erule ledger_fields [rotated 2]; simp)
    then show ?thesis ..
  next
    case False
    then show ?thesis unfolding RebalanceResult by (intro ledger_stay) (auto simp: fb_rebalance_result_def Let_def)
  qed
qed

interpretation ledger_answers: feedback_relation L "\<lambda>e e'. \<exists>fs. refines_ledger L e e' fs" "\<lambda>fb. True" for L
  by unfold_locales (auto intro: ledger_stay ledger_trans ledger_feedback)

lemma ledger_feedbacks: "\<exists>fs. refines_ledger L e (drain_feedback L fbs e) fs"
  by (rule ledger_answers.drain_respects) simp

lemma ledger_trade: "\<exists>fs. refines_ledger L e (on_trade_status_update L i st m now e) fs"
proof -
  have ws: "\<exists>fs. refines_ledger L e (record_ws_delta L sd c now e) fs" for sd c
  proof -
    obtain d q1 where q: "record_ws_fill sd c (en_quoter e) = (d, q1)" by fastforce
    show ?thesis
    proof (cases "d \<le> 0")
      case True
      with q show ?thesis by (intro ledger_stay) (simp_all add: record_ws_delta_def Let_def)
    next
      case False
      define pr where "pr = (case q_order sd q1 of Some o1 \<Rightarrow> mo_price o1 | None \<Rightarrow> 0)"
      have "refines_ledger L e (record_ws_delta L sd c now e)
          [\<lparr> fl_side = sd, fl_price = pr, fl_size = d, fl_taker = False, fl_fee = 0 \<rparr>]"
        using False q unfolding record_ws_delta_def pr_def
        by (simp add: Let_def) (rule ledger_bump, rule ledger_fill, simp_all)
      then show ?thesis ..
    qed
  qed
  have "on_trade_status_update L i st m now e = e \<or> (\<exists>sd c. on_trade_status_update L i st m now e = record_ws_delta L sd c now e)"
    by (auto simp: on_trade_status_update_def split: option.splits)
  then show ?thesis using ws ledger_stay [of e e L] by auto
qed

lemma ledger_event:
  assumes "on_event L now ev e = Good e'" and "\<not> is_rotation ev"
  shows "\<exists>fs. refines_ledger L e e' fs"
proof -
  from assms(1) obtain e1 where e1: "handle_event L now ev e = Good e1" "after_event L now e1 = Good e'"
    by (auto simp: on_event_def obind_eq_Good)
  have "\<exists>fs. refines_ledger L e e1 fs"
  proof (cases "moves_books ev")
    case True
    with assms(2) obtain i st m orig where "ev = EvTradeStatus i st m orig" by (cases ev) auto
    with e1(1) ledger_trade [of L e i st m now] show ?thesis by auto
  next
    case False
    show ?thesis by (rule exI, rule ledger_core, rule core_handle [OF e1(1) False])
  qed
  then show ?thesis using ledger_core_after core_after [OF e1(2)] by blast
qed

section \<open>The loop and the storage\<close>

text \<open>The facts of a row of the table of fills; other rows have none.\<close>

definition row_facts :: "row \<Rightarrow> facts option" where
  "row_facts r = (if row_table r \<noteq> ''v2_fills'' then None else
     (case (row_symbols r, row_columns r) of
        (cid # (k, sd) # ks, ColF a price # ColF b sz # ColB c tk # ColF d fee # cs) \<Rightarrow> Some (sd, price, sz, tk, fee)
      | _ \<Rightarrow> None))"

lemma row_facts_simps [simp]:
  "row_facts (fill_row r) = Some (record_facts r)" "row_facts (tick_row L t) = None"
  "row_facts (market_summary_row s) = None" "row_facts (risk_score_row k) = None"
  by (simp_all add: row_facts_def fill_row_def record_facts_def tick_row_def market_summary_row_def risk_score_row_def)

text \<open>What the database has and will get: the fills stored, buffered, and pending in the engine.\<close>

definition trail :: "loop_state \<Rightarrow> facts list" where
  "trail lp = (case lp_cold lp of None \<Rightarrow> [] | Some s \<Rightarrow> List.map_filter row_facts (rows_of s))
     @ map record_facts (en_pending_fill_records (lp_engine lp))"

lemma map_filter_facts:
  "List.map_filter row_facts (xs @ ys) = List.map_filter row_facts xs @ List.map_filter row_facts ys"
  "List.map_filter row_facts (map fill_row rs) = map record_facts rs"
  "List.map_filter row_facts (map market_summary_row ss) = []"
  "List.map_filter row_facts (map risk_score_row ks) = []"
proof -
  show "List.map_filter row_facts (xs @ ys) = List.map_filter row_facts xs @ List.map_filter row_facts ys" by (simp add: map_filter_def)
  show "List.map_filter row_facts (map fill_row rs) = map record_facts rs" by (induction rs) (simp_all add: map_filter_simps)
  show "List.map_filter row_facts (map market_summary_row ss) = []" by (induction ss) (simp_all add: map_filter_simps)
  show "List.map_filter row_facts (map risk_score_row ks) = []" by (induction ks) (simp_all add: map_filter_simps)
qed

definition loop_ledger :: "'a lib_scheme \<Rightarrow> loop_state \<Rightarrow> loop_state \<Rightarrow> fill list \<Rightarrow> bool" where
  "loop_ledger L lp lp' fs \<longleftrightarrow> en_position (lp_engine lp') = book_fills fs (en_position (lp_engine lp))
     \<and> trail lp' = trail lp @ map (fill_facts L) fs \<and> (lp_cold lp' = None) = (lp_cold lp = None)"

lemma loop_ledger_trans: "loop_ledger L a b fs \<Longrightarrow> loop_ledger L b c gs \<Longrightarrow> loop_ledger L a c (fs @ gs)"
  by (simp add: loop_ledger_def book_fills_append)

lemma loop_ledger_engine:
  "refines_ledger L (lp_engine lp) e fs \<Longrightarrow> loop_ledger L lp (lp\<lparr> lp_engine := e \<rparr>) fs"
  by (simp add: loop_ledger_def refines_ledger_def trail_def)

lemma loop_ledger_stay:
  "en_position (lp_engine lp') = en_position (lp_engine lp) \<Longrightarrow>
     en_pending_fill_records (lp_engine lp') = en_pending_fill_records (lp_engine lp) \<Longrightarrow> lp_cold lp' = lp_cold lp \<Longrightarrow>
     loop_ledger L lp lp' []"
  by (simp add: loop_ledger_def trail_def book_fills_def)

lemma summary_books [frame_simps]:
  "en_position (send_session_summary L now e) = en_position e"
  "en_pending_fill_records (send_session_summary L now e) = en_pending_fill_records e"
  by (simp_all add: send_session_summary_def Let_def)

lemma ledger_control: "control_event L i ev lp = Some lp' \<Longrightarrow> loop_ledger L lp lp' []"
  by (cases ev; rule loop_ledger_stay)
    (auto simp: drain_request_def pause_request_def set_paused_def set_draining_def Let_def summary_books split: if_splits prod.splits)

lemma ledger_spot:
  assumes "lp_cold lp = Some s"
  shows "loop_ledger L lp (record_spot L i ev lp) []"
proof -
  have "loop_ledger L lp (lp\<lparr> lp_cold := cold_calls L i 0 [CallTick t] (lp_cold lp), lp_last_tick_record_ms := m \<rparr>) []" for t m
    using cold_calls_rows [of L i 0 "[CallTick t]" s] assms
    by (auto simp: loop_ledger_def trail_def book_fills_def map_filter_facts(1) map_filter_simps)
  then show ?thesis by (cases ev) (auto intro: loop_ledger_stay)
qed

lemma ledger_parts:
  "loop_ledger L lp (forward_pending i lp) []" "loop_ledger L lp (quote L i lp) []" "loop_ledger L lp (drain_check L i lp) []"
  using core_quote [of "lp_engine lp" L "io_now_quote i"]
  by (auto intro!: loop_ledger_stay simp: forward_pending_def quote_def drain_check_def take_pending_commands_def
      take_tick_size_change_def case_prod_unfold Let_def core_defs summary_books split: option.splits)

text \<open>Storing moves the facts from the engine to the storage.\<close>

lemma ledger_report:
  assumes "lp_cold lp = Some s"
  shows "loop_ledger L lp (report_all L i lp) []"
proof -
  let ?e = "lp_engine lp"
  let ?calls = "map CallFill (en_pending_fill_records ?e) @ map CallSummary (opt_list (en_pending_market_summary ?e))
      @ map CallRisk (en_pending_risk_records ?e)"
  obtain t where t: "cold_calls L i 1 ?calls (Some s) = Some t"
    "rows_of t = rows_of s @ map fill_row (en_pending_fill_records ?e) @ map market_summary_row (opt_list (en_pending_market_summary ?e))
        @ map risk_score_row (en_pending_risk_records ?e)"
    using cold_calls_rows [of L i 1 ?calls s] by (auto simp: comp_def)
  have k: "en_pending_fill_records (check_diagnostic L now e) = en_pending_fill_records e"
    "en_pending_market_summary (check_diagnostic L now e) = en_pending_market_summary e"
    "en_pending_risk_records (check_diagnostic L now e) = en_pending_risk_records e"
    "en_position (check_diagnostic L now e) = en_position e" for now e
    by (simp_all add: check_diagnostic_def)
  have r: "en_position (lp_engine (report_all L i lp)) = en_position ?e" "lp_cold (report_all L i lp) = Some t"
    "en_pending_fill_records (lp_engine (report_all L i lp)) = []"
    using t(1) assms by (simp_all add: report_all_def publish_status_def store_records_def market_report_def fill_messages_def
        diagnostics_def take_pending_fill_records_def take_pending_market_summary_def take_pending_risk_records_def
        take_pending_market_report_def take_pending_fill_messages_def take_pending_telegram_diag_def k Let_def)
  show ?thesis by (simp add: loop_ledger_def r assms trail_def t(2) map_filter_facts book_fills_def)
qed

lemma loop_ledger_after: "loop_ledger L a b fs \<Longrightarrow> loop_ledger L b c [] \<Longrightarrow> loop_ledger L a c fs"
  using loop_ledger_trans by fastforce

lemma loop_ledger_cold: "loop_ledger L a b fs \<Longrightarrow> lp_cold a = Some s \<Longrightarrow> \<exists>s'. lp_cold b = Some s'"
  by (auto simp: loop_ledger_def)

lemma iteration_ledger:
  assumes it: "iteration L i ev lp = Good lp'" and r: "\<not> is_rotation ev" and c: "lp_cold lp = Some s"
  shows "\<exists>fs. loop_ledger L lp lp' fs"
proof -
  define lp1 where "lp1 = lp\<lparr> lp_engine := drain_feedback L (io_feedback i) (lp_engine lp) \<rparr>"
  obtain fs where fs: "loop_ledger L lp lp1 fs"
    using ledger_feedbacks [of L "lp_engine lp" "io_feedback i"] loop_ledger_engine unfolding lp1_def by blast
  show ?thesis
  proof (cases "control_event L i ev lp1")
    case (Some lp2)
    then have "lp' = lp2" using it by (simp add: iteration_def lp1_def)
    with loop_ledger_after [OF fs ledger_control [OF Some]] show ?thesis by blast
  next
    case None
    define lp2 where "lp2 = record_spot L i ev lp1"
    obtain e where e: "on_event L (io_now_event i) ev (lp_engine lp2) = Good e" "lp' = after_engine L i ev (lp2\<lparr> lp_engine := e \<rparr>)"
      using it None by (auto simp: iteration_def lp1_def [symmetric] lp2_def obind_eq_Good Let_def)
    obtain s1 where s1: "lp_cold lp1 = Some s1" using loop_ledger_cold [OF fs c] by blast
    have a: "loop_ledger L lp lp2 fs" unfolding lp2_def by (rule loop_ledger_after [OF fs ledger_spot [OF s1]])
    obtain gs where gs: "refines_ledger L (lp_engine lp2) e gs" using ledger_event [OF e(1) r] by blast
    note b = loop_ledger_trans [OF a loop_ledger_engine [OF gs]]
    define lp3 where "lp3 = drain_check L i (quote L i (forward_pending i (lp2\<lparr> lp_engine := e \<rparr>)))"
    have d: "loop_ledger L lp lp3 (fs @ gs)"
      unfolding lp3_def by (rule loop_ledger_after [OF loop_ledger_after [OF loop_ledger_after [OF b]]]) (rule ledger_parts)+
    then obtain s3 where "lp_cold lp3 = Some s3" using loop_ledger_cold c by blast
    from loop_ledger_after [OF d ledger_report [OF this]] d show ?thesis
      using r by (auto simp: e(2) after_engine_def Let_def lp3_def [symmetric])
  qed
qed

section \<open>Property\<close>

text \<open>
  C6. The audit trail. Over any run of the engine loop inside one market, with any answers of the
  executor, any commands and any failing flushes, there is one list of fills such that the
  position is exactly these fills booked in order, and the rows of the table of fills in the
  database, its buffer and the engine's pending records together are exactly these fills in the
  same order: no fill moves the position without a record, none is recorded twice or altered.
\<close>

theorem fills_have_audit_trail:
  assumes "loop L inputs lp = Good lp'" and "lp_cold lp = Some s" and "list_all (\<lambda>(i, ev). \<not> is_rotation ev) inputs"
  shows "\<exists>fs. en_position (lp_engine lp') = foldl (\<lambda>p f. apply_fill f p) (en_position (lp_engine lp)) fs
    \<and> trail lp' = trail lp @ map (\<lambda>f. (side_label (fl_side f), dec_f64 L (fl_price f), dec_f64 L (fl_size f), fl_taker f,
        dec_f64 L (fl_fee f))) fs
    \<and> total_shares (pos_side sd (en_position (lp_engine lp'))) = total_shares (pos_side sd (en_position (lp_engine lp)))
        + (\<Sum>f\<leftarrow>filter (\<lambda>f. fl_side f = sd) fs. fl_size f)"
proof -
  have "\<exists>fs. loop_ledger L lp lp' fs"
    using assms
  proof (induction inputs arbitrary: lp s)
    case Nil
    then show ?case by (intro exI [of _ "[]"] loop_ledger_stay) simp_all
  next
    case (Cons x rest)
    obtain i ev where x: "x = (i, ev)" by (cases x)
    show ?case
    proof (cases "lp_running lp")
      case True
      then obtain m where m: "iteration L i ev lp = Good m" "loop L rest m = Good lp'"
        using Cons.prems(1) by (auto simp: x obind_eq_Good)
      obtain fs where fs: "loop_ledger L lp m fs" using iteration_ledger [OF m(1) _ Cons.prems(2)] Cons.prems(3) by (auto simp: x)
      obtain s' where "lp_cold m = Some s'" using loop_ledger_cold [OF fs Cons.prems(2)] by blast
      with Cons.IH [OF m(2)] Cons.prems(3) obtain gs where "loop_ledger L m lp' gs" by auto
      from loop_ledger_trans [OF fs this] show ?thesis by blast
    next
      case False
      with Cons.prems(1) show ?thesis by (intro exI [of _ "[]"] loop_ledger_stay) (simp_all add: x)
    qed
  qed
  then obtain fs where "loop_ledger L lp lp' fs" ..
  then show ?thesis
    by (intro exI [of _ fs]) (simp add: loop_ledger_def book_fills_shares, simp add: book_fills_def fill_facts_def [abs_def])
qed

lemma fills_have_audit_trail_witness:
  "\<exists>lp' (fs :: fill list). loop exact_lib [(demo_io [(RebalanceResult Yes True 5 (1 / 2), 900)], EvPauseTrading)]
       (loop_start (engine_new exact_lib demo_config 0) (Some \<lparr> cs_buffer = [], cs_tick_count = 0, cs_last_flush_ms = 0, cs_delivered = [] \<rparr>))
       = Good lp'
     \<and> total_shares (yes_pos (en_position (lp_engine lp'))) = 5 \<and> length (trail lp') = 1 \<and> length fs = 1
     \<and> (\<Sum>f\<leftarrow>filter (\<lambda>f. fl_side f = Yes) fs. fl_size f) = 5"
proof -
  let ?s = "\<lparr> cs_buffer = [], cs_tick_count = 0, cs_last_flush_ms = 0, cs_delivered = [] \<rparr>"
  let ?lp = "loop_start (engine_new exact_lib demo_config 0) (Some ?s)"
  let ?in = "[(demo_io [(RebalanceResult Yes True 5 (1 / 2), 900)], EvPauseTrading)]"
  have "\<exists>lp'. loop exact_lib ?in ?lp = Good lp' \<and> total_shares (yes_pos (en_position (lp_engine lp'))) = 5 \<and> length (trail lp') = 1"
    by (simp add: loop_start_def iteration_def drain_feedback_def demo_io_def fb_rebalance_result_def push_fill_record_def
      push_fill_message_def engine_new_def pause_request_def set_paused_def send_def trail_def rows_of_def map_filter_simps
      record_fill_def side_mut_def side_record_fill_def Let_def case_prod_unfold)
  then obtain lp' where lp': "loop exact_lib ?in ?lp = Good lp'" "total_shares (yes_pos (en_position (lp_engine lp'))) = 5"
    "length (trail lp') = 1" by blast
  have c: "lp_cold ?lp = Some ?s" "list_all (\<lambda>(i, ev). \<not> is_rotation ev) ?in" "trail ?lp = []"
    "total_shares (pos_side Yes (en_position (lp_engine ?lp))) = 0"
    by (simp_all add: loop_start_def trail_def rows_of_def map_filter_simps engine_new_def Let_def)
  from fills_have_audit_trail [OF lp'(1) c(1,2), of Yes] obtain fs :: "fill list" where
    h: "trail lp' = trail ?lp @ map (\<lambda>f. (side_label (fl_side f), dec_f64 exact_lib (fl_price f), dec_f64 exact_lib (fl_size f),
        fl_taker f, dec_f64 exact_lib (fl_fee f))) fs"
    "total_shares (pos_side Yes (en_position (lp_engine lp'))) = total_shares (pos_side Yes (en_position (lp_engine ?lp)))
        + (\<Sum>f\<leftarrow>filter (\<lambda>f. fl_side f = Yes) fs. fl_size f)" by blast
  have "length fs = 1" using h(1) c(3) lp'(3) by simp
  moreover have "(\<Sum>f\<leftarrow>filter (\<lambda>f. fl_side f = Yes) fs. fl_size f) = 5" using h(2) lp'(2) unfolding c(4) by simp
  ultimately show ?thesis using lp' by blast
qed

end
