(* ===== verification/DrainProps.thy ===== *)
theory DrainProps
  imports LoopFrames
begin

text \<open>
  How the bot comes to rest. \<open>/stop\<close> (\<open>set_paused\<close> of \<open>src/src/engine/strategy.rs\<close>) cancels what
  rests, \<open>/shutdown\<close> makes the loop of \<open>src/src/main.rs\<close> wait until nothing is open: what makes the
  wait end, and the order a pause does not reach.
\<close>

section \<open>A quoter that winds down\<close>

text \<open>A side with nothing on the exchange, and a quoter that has asked to cancel all it has there.\<close>

definition closed :: "market_side \<Rightarrow> quoter \<Rightarrow> bool" where
  "closed sd q \<longleftrightarrow> \<not> is_pending sd q \<and> q_order sd q = None"

definition closing :: "quoter \<Rightarrow> bool" where
  "closing q \<longleftrightarrow> (\<forall>sd. \<not> pending_post sd q \<and> (q_order sd q \<noteq> None \<longrightarrow> pending_cancel sd q))"

definition winds :: "quoter \<Rightarrow> quoter \<Rightarrow> bool" where
  "winds q q' \<longleftrightarrow> (closing q \<longrightarrow> closing q' \<and> (\<forall>sd. closed sd q \<longrightarrow> closed sd q'))"

lemma winds_refl [simp]: "winds q q"
  by (simp add: winds_def)

lemma winds_trans: "winds a b \<Longrightarrow> winds b c \<Longrightarrow> winds a c"
  by (simp add: winds_def)

lemmas wind_defs = winds_def closing_def closed_def is_pending_iff

lemma winds_updates [simp]:
  "winds q (on_order_failed sd q)" "winds q (on_cancel_result sd q)" "winds q (on_fill sd full q)"
  "winds q (snd (record_ws_fill sd c q))" "winds q (quoter_reset q)"
proof -
  show "winds q (on_order_failed sd q)" "winds q (on_cancel_result sd q)" "winds q (on_fill sd full q)"
    "winds q (snd (record_ws_fill sd c q))"
    using q_order_record_ws_fill [of _ sd c q] by (auto simp: wind_defs)
  show "winds q (quoter_reset q)"
    by (simp add: wind_defs quoter_new_def side_defs split: market_side.splits)
qed

lemma no_open_iff: "has_no_open_position e \<longleftrightarrow> closed Yes (en_quoter e) \<and> closed No (en_quoter e)"
  by (auto simp: has_no_open_position_def has_resting_orders_def closed_def q_order_def)

text \<open>Cancelling everything leaves a closing quoter, and sends nothing more when it is closing already.\<close>

lemma zone_cancel_closes:
  assumes "zone_cancel sd False q = (q', c)"
  shows "q_order sd' q' = q_order sd' q" "pending_post sd' q' = pending_post sd' q"
    "pending_cancel sd' q' \<longleftrightarrow> pending_cancel sd' q \<or> sd' = sd \<and> q_order sd q \<noteq> None"
    "c = (case q_order sd q of Some o1 \<Rightarrow> if pending_cancel sd q then [] else [CancelOrder sd (mo_order_id o1)] | None \<Rightarrow> [])"
  using assms
  by (cases sd; cases sd'; auto simp: zone_cancel_def cancel_side_action_def side_defs on_cancel_sent_def split: if_splits option.splits)+

lemma cancel_all_closes:
  assumes "send_cancels (cancel_all_actions q) q = (q', cs)"
  shows "q_order sd q' = q_order sd q" "pending_post sd q' = pending_post sd q"
    "pending_cancel sd q' \<longleftrightarrow> pending_cancel sd q \<or> q_order sd q \<noteq> None"
    "CancelOrder sd i \<in> set cs \<longleftrightarrow> (\<exists>o1. q_order sd q = Some o1 \<and> mo_order_id o1 = i) \<and> \<not> pending_cancel sd q"
proof -
  obtain q1 c1 where 1: "zone_cancel Yes False q = (q1, c1)" by fastforce
  obtain c2 where 2: "zone_cancel No False q1 = (q', c2)" "cs = c1 @ c2" using assms 1 by (auto simp: cancel_all_zone split: prod.splits)
  note z = zone_cancel_closes [OF 1] zone_cancel_closes [OF 2(1)]
  show "q_order sd q' = q_order sd q" "pending_post sd q' = pending_post sd q" by (simp_all add: z)
  show "pending_cancel sd q' \<longleftrightarrow> pending_cancel sd q \<or> q_order sd q \<noteq> None" by (cases sd) (auto simp: z)
  show "CancelOrder sd i \<in> set cs \<longleftrightarrow> (\<exists>o1. q_order sd q = Some o1 \<and> mo_order_id o1 = i) \<and> \<not> pending_cancel sd q"
    unfolding 2(2) z(4) z(8)
    by (cases sd) (auto simp: z split: option.splits, metis+)
qed

lemma cancel_all_winds:
  assumes "send_cancels (cancel_all_actions q) q = (q', cs)"
  shows "winds q q'"
  unfolding wind_defs cancel_all_closes(1-3) [OF assms] by blast

section \<open>Feedback and events\<close>

fun posts :: "executor_feedback \<Rightarrow> bool" where
  "posts (OrderPosted sd i price sz filled) = True"
| "posts fb = False"

lemma feedback_winds:
  assumes "\<not> posts fb"
  shows "winds (en_quoter e) (en_quoter (on_feedback L now fb e))"
  using assms by (cases fb) (auto simp: fb_cancel_result_def fb_rebalance_result_def frame_simps Let_def split: option.splits)

lemma cancel_result_closes:
  "closing (en_quoter e) \<Longrightarrow> closed sd (en_quoter (on_feedback L now (CancelResult sd i m) e))"
  by (auto simp: fb_cancel_result_def frame_simps Let_def closing_def closed_def is_pending_iff split: option.splits)

interpretation wind_answers: feedback_relation L "\<lambda>e e'. winds (en_quoter e) (en_quoter e')" "\<lambda>fb. \<not> posts fb" for L
  by unfold_locales (auto intro: winds_trans feedback_winds)

lemma feedbacks_wind:
  assumes "\<forall>f \<in> set fbs. \<not> posts (fst f)"
  shows "winds (en_quoter e) (en_quoter (drain_feedback L fbs e))"
    and "closing (en_quoter e) \<Longrightarrow> (CancelResult sd i m, now) \<in> set fbs \<Longrightarrow> closed sd (en_quoter (drain_feedback L fbs e))"
proof -
  show "winds (en_quoter e) (en_quoter (drain_feedback L fbs e))" by (rule wind_answers.drain_respects [OF assms])
  assume c: "closing (en_quoter e)" and "(CancelResult sd i m, now) \<in> set fbs"
  then obtain xs ys where fbs: "fbs = xs @ (CancelResult sd i m, now) # ys" by (meson split_list)
  define a b where "a = drain_feedback L xs e" and "b = on_feedback L now (CancelResult sd i m) a"
  have wa: "winds (en_quoter e) (en_quoter a)" unfolding a_def by (rule wind_answers.drain_respects) (use assms fbs in auto)
  have wb: "winds (en_quoter a) (en_quoter b)" unfolding b_def by (rule feedback_winds) simp
  have ca: "closing (en_quoter a)" using wa c by (simp add: winds_def)
  have w: "winds (en_quoter b) (en_quoter (drain_feedback L ys b))" by (rule wind_answers.drain_respects) (use assms fbs in auto)
  have "closed sd (en_quoter b)" using cancel_result_closes [OF ca] by (simp only: b_def)
  with w wb ca have "closed sd (en_quoter (drain_feedback L ys b))" by (simp add: winds_def)
  then show "closed sd (en_quoter (drain_feedback L fbs e))"
    by (simp add: fbs drain_feedback_append drain_feedback_one a_def b_def del: on_feedback.simps)
qed

lemma trade_winds: "winds (en_quoter e) (en_quoter (on_trade_status_update L i st m now e))"
proof -
  have "winds (en_quoter e) (en_quoter (record_ws_delta L sd c now e))" for sd c
  proof -
    obtain d q1 where q: "record_ws_fill sd c (en_quoter e) = (d, q1)" by fastforce
    then have "winds (en_quoter e) q1" using winds_updates(4) [of "en_quoter e" sd c] by simp
    then show ?thesis using winds_trans [OF _ winds_updates(3)]
      by (simp add: record_ws_delta_def q frame_simps Let_def)
  qed
  then show ?thesis by (auto simp: on_trade_status_update_def split: option.splits)
qed

lemma heartbeat_winds: "winds (en_quoter e) (en_quoter (ev_heartbeat ok lat e))"
proof -
  obtain q cs where q: "send_cancels (cancel_all_actions (en_quoter e)) (en_quoter e) = (q, cs)" by fastforce
  with cancel_all_winds [OF q] show ?thesis by (simp add: ev_heartbeat_def Let_def)
qed

lemma rotation_winds: "winds (en_quoter e) (en_quoter (on_market_rotation L c y n t k now e))"
  using winds_updates(5) [of "en_quoter e"] by (simp add: on_market_rotation_def send_market_report_def Let_def)

lemma event_winds:
  assumes "on_event L now ev e = Good e'"
  shows "winds (en_quoter e) (en_quoter e')"
proof -
  from assms obtain e1 where h: "handle_event L now ev e = Good e1" and a: "after_event L now e1 = Good e'"
    by (auto simp: on_event_def obind_eq_Good)
  have talk: "winds (en_quoter x) (en_quoter y)" if "same_talk x y" for x y using that by (simp add: same_talk_def)
  have "winds (en_quoter e) (en_quoter e1)"
    using h trade_winds heartbeat_winds rotation_winds talk [OF ev_binance_tick_talk] talk [OF ev_binance_depth_talk] talk [OF ev_others_talk(1)]
      talk [OF ev_others_talk(2)] talk [OF ev_others_talk(3)] talk [OF ev_others_talk(4)]
    by (cases ev) auto
  from winds_trans [OF this talk [OF after_event_talk [OF a]]] show ?thesis .
qed

section \<open>The loop while it drains\<close>

lemma winds_closing: "winds q q' \<Longrightarrow> closing q \<Longrightarrow> closing q'"
  by (simp add: winds_def)

lemma winds_closed: "winds q q' \<Longrightarrow> closing q \<Longrightarrow> closed sd q \<Longrightarrow> closed sd q'"
  by (simp add: winds_def)

lemma drain_request_ends:
  "en_quoter (lp_engine (drain_request L i code reason msg lp)) = en_quoter (lp_engine lp)"
  "lp_running (drain_request L i code reason msg lp) \<longleftrightarrow> lp_running lp \<and> \<not> has_no_open_position (lp_engine lp)"
  by (auto simp: drain_request_def set_draining_def has_no_open_position_def send_session_summary_def Let_def)

lemma drain_request_open:
  assumes "\<not> has_no_open_position (lp_engine lp)"
  shows "drain_request L i code reason msg lp = lp\<lparr> lp_engine := set_draining (lp_engine lp), lp_exit_code := Some code,
    lp_drain := lp_drain lp @ [Draining reason ''Waiting for market rotation''] \<rparr>"
proof -
  have "\<not> has_no_open_position (set_draining (lp_engine lp))" using assms by (simp add: has_no_open_position_def set_draining_def)
  then show ?thesis by (simp add: drain_request_def Let_def)
qed

lemma pause_winds: "winds (en_quoter (lp_engine lp)) (en_quoter (lp_engine (pause_request p i lp)))"
  using cancel_all_winds [of "en_quoter (lp_engine lp)"]
  by (auto simp: pause_request_def set_paused_def Let_def split: prod.splits)

definition stops_here :: "ingestor_event \<Rightarrow> bool" where
  "stops_here ev \<longleftrightarrow> ev \<noteq> EvPauseTrading \<and> ev \<noteq> EvResumeTrading"

definition drains :: "loop_state \<Rightarrow> bool" where
  "drains lp \<longleftrightarrow> en_draining (lp_engine lp) \<and> lp_exit_code lp \<noteq> None"

lemma draining_iteration:
  assumes it: "iteration L i ev lp = Good lp'" and d: "drains lp \<or> ev = EvShutdown" and r: "lp_running lp"
    and c: "closing (en_quoter (lp_engine lp))" and np: "\<forall>f \<in> set (io_feedback i). \<not> posts (fst f)"
  shows "drains lp'" and "closing (en_quoter (lp_engine lp'))"
    and "closed sd (en_quoter (lp_engine lp)) \<or> (CancelResult sd oid m, now) \<in> set (io_feedback i) \<Longrightarrow> closed sd (en_quoter (lp_engine lp'))"
    and "stops_here ev \<Longrightarrow> lp_running lp' \<longleftrightarrow> \<not> has_no_open_position (lp_engine lp')"
proof -
  define e1 where "e1 = drain_feedback L (io_feedback i) (lp_engine lp)"
  have w1: "winds (en_quoter (lp_engine lp)) (en_quoter e1)" unfolding e1_def by (rule feedbacks_wind(1) [OF np])
  have a1: "closed sd (en_quoter e1)" if "(CancelResult sd oid m, now) \<in> set (io_feedback i)"
    using feedbacks_wind(2) [OF np c that] by (simp add: e1_def)
  have m1: "same_mode (lp_engine lp) e1" unfolding e1_def by (rule mode_drain)
  have "drains lp' \<and> winds (en_quoter e1) (en_quoter (lp_engine lp'))
      \<and> (stops_here ev \<longrightarrow> (lp_running lp' \<longleftrightarrow> \<not> has_no_open_position (lp_engine lp')))"
    using it
  proof (cases rule: iteration_cases)
    case request
    define lp1 where "lp1 = lp\<lparr> lp_engine := e1 \<rparr>"
    have d1: "drains lp1 \<or> ev = EvShutdown" using d m1 by (auto simp: drains_def lp1_def same_mode_def)
    have "control_event L i ev lp1 = Some lp'" using request by (simp add: lp1_def e1_def)
    then consider code reason msg where "lp' = drain_request L i code reason msg lp1" | p where "lp' = pause_request p i lp1" "\<not> stops_here ev" "ev \<noteq> EvShutdown"
      by (cases ev) (auto simp: stops_here_def)
    then show ?thesis
    proof cases
      case 1
      then show ?thesis using r
        by (auto simp: drains_def drain_request_mode drain_request_ends has_no_open_position_def lp1_def)
    next
      case 2
      then show ?thesis using d1 pause_winds [of lp1 p i] by (auto simp: drains_def pause_request_mode lp1_def)
    qed
  next
    case (event lp1 e)
    have "ev \<noteq> EvShutdown" using event(6) by auto
    with d m1 event have d2: "en_draining (lp_engine lp1)" "lp_exit_code lp1 \<noteq> None" by (auto simp: drains_def same_mode_def e1_def)
    have m2: "same_mode (lp_engine lp1) e" by (rule mode_event [OF event(7)])
    define lp2 where "lp2 = lp1\<lparr> lp_engine := e \<rparr>"
    have q: "en_paused (lp_engine lp2) \<or> en_draining (lp_engine lp2)" using d2 m2 by (simp add: lp2_def same_mode_def)
    have lp': "lp' = after_engine L i ev lp2" using event(8) by (simp add: lp2_def)
    note a = after_closed [OF q, of L i ev]
    have "drains lp'" using a(5,6) d2 m2 by (simp add: drains_def lp' same_mode_def) (simp add: lp2_def)
    moreover have "winds (en_quoter e1) (en_quoter (lp_engine lp'))"
      using event_winds [OF event(7)] by (simp add: lp' a(1) event(1) e1_def) (simp add: lp2_def)
    moreover have "lp_running lp' \<longleftrightarrow> \<not> has_no_open_position (lp_engine lp')"
      using a(7) r d2 by (simp add: lp' has_no_open_position_def a(1)) (auto simp: lp2_def event(2))
    ultimately show ?thesis by blast
  qed
  then have w: "drains lp'" "winds (en_quoter e1) (en_quoter (lp_engine lp'))"
    "stops_here ev \<Longrightarrow> lp_running lp' \<longleftrightarrow> \<not> has_no_open_position (lp_engine lp')" by blast+
  show "drains lp'" "stops_here ev \<Longrightarrow> lp_running lp' \<longleftrightarrow> \<not> has_no_open_position (lp_engine lp')" by (fact w(1), fact w(3))
  show "closing (en_quoter (lp_engine lp'))" by (rule winds_closing [OF w(2) winds_closing [OF w1 c]])
  show "closed sd (en_quoter (lp_engine lp'))"
    if "closed sd (en_quoter (lp_engine lp)) \<or> (CancelResult sd oid m, now) \<in> set (io_feedback i)"
    using that a1 winds_closed [OF w(2) winds_closing [OF w1 c]] winds_closed [OF w1 c] by blast
qed

text \<open>Whether a side waits for the answer to a cancel, and whether the inputs hold it.\<close>

definition answered :: "market_side \<Rightarrow> (io \<times> ingestor_event) list \<Rightarrow> bool" where
  "answered sd inputs \<longleftrightarrow> (\<exists>(i, ev) \<in> set inputs. \<exists>oid m now. (CancelResult sd oid m, now) \<in> set (io_feedback i))"

definition ended :: "loop_state \<Rightarrow> bool" where
  "ended lp \<longleftrightarrow> \<not> lp_running lp \<and> has_no_open_position (lp_engine lp)
     \<and> (\<exists>code msg. lp_exit_code lp = Some code \<and> lp_drain lp \<noteq> [] \<and> last (lp_drain lp) = DrainComplete code msg)"

lemma loop_stopped: "\<not> lp_running lp \<Longrightarrow> loop L inputs lp = Good lp"
  by (cases inputs) (auto split: prod.splits)

lemma iteration_ends:
  assumes "iteration L i ev lp = Good lp'" and "lp_running lp" and "\<not> lp_running lp'"
  shows "ended lp'"
  using iteration_drained [OF assms] assms(3) by (auto simp: drained_def ended_def)

lemma draining_ends:
  assumes "loop L inputs lp = Good lp'" and "lp_running lp" and "inputs \<noteq> []" and "stops_here (snd (last inputs))"
    and "drains lp \<or> snd (hd inputs) = EvShutdown" and "closing (en_quoter (lp_engine lp))"
    and "\<forall>(i, ev) \<in> set inputs. \<forall>f \<in> set (io_feedback i). \<not> posts (fst f)"
    and "\<forall>sd. closed sd (en_quoter (lp_engine lp)) \<or> answered sd inputs"
  shows "ended lp'"
  using assms
proof (induction inputs arbitrary: lp)
  case (Cons x rest)
  obtain i ev where x: "x = (i, ev)" by (cases x)
  from Cons.prems(1,2) obtain m where m: "iteration L i ev lp = Good m" "loop L rest m = Good lp'" by (auto simp: x obind_eq_Good)
  from Cons.prems(5,7) have d: "drains lp \<or> ev = EvShutdown" and np: "\<forall>f \<in> set (io_feedback i). \<not> posts (fst f)" by (auto simp: x)
  note it = draining_iteration [OF m(1) d Cons.prems(2,6) np]
  have cl: "closed sd (en_quoter (lp_engine m)) \<or> answered sd rest" for sd
    using Cons.prems(8) it(3) unfolding answered_def x by fastforce
  show ?case
  proof (cases "lp_running m")
    case False
    have "lp' = m" using loop_stopped [OF False, of L rest] m(2) by simp
    with iteration_ends [OF m(1) Cons.prems(2) False] show ?thesis by simp
  next
    case True
    show ?thesis
    proof (cases "rest = []")
      case True
      then have "\<And>sd. closed sd (en_quoter (lp_engine m))" using cl by (simp add: answered_def)
      then have "has_no_open_position (lp_engine m)" by (simp add: no_open_iff)
      with it(4) Cons.prems(4) \<open>lp_running m\<close> True show ?thesis by (simp add: x)
    next
      case False
      show ?thesis
        by (rule Cons.IH [OF m(2) True False]) (use Cons.prems(4,7) False it(1,2) cl in auto)
    qed
  qed
qed simp

text \<open>The pause itself.\<close>

lemma pause_iteration:
  assumes "en_quoter (drain_feedback L (io_feedback i) (lp_engine lp)) = q"
  obtains lp1 where "iteration L i EvPauseTrading lp = Good lp1" "lp_running lp1 = lp_running lp" "en_paused (lp_engine lp1)"
    "\<And>sd. q_order sd (en_quoter (lp_engine lp1)) = q_order sd q" "\<And>sd. pending_post sd (en_quoter (lp_engine lp1)) = pending_post sd q"
    "\<And>sd. pending_cancel sd (en_quoter (lp_engine lp1)) \<longleftrightarrow> pending_cancel sd q \<or> q_order sd q \<noteq> None"
    "\<exists>cs. lp_commands lp1 = lp_commands lp @ cs \<and> (\<forall>sd oid. CancelOrder sd oid \<in> set cs \<longleftrightarrow>
       io_connected i \<and> (\<exists>o1. q_order sd q = Some o1 \<and> mo_order_id o1 = oid) \<and> \<not> pending_cancel sd q)"
    "en_pending_commands (lp_engine lp1) = en_pending_commands (drain_feedback L (io_feedback i) (lp_engine lp))"
    "en_pending_tick_change (lp_engine lp1) = en_pending_tick_change (drain_feedback L (io_feedback i) (lp_engine lp))"
proof -
  define e where "e = drain_feedback L (io_feedback i) (lp_engine lp)"
  obtain q' cs where s: "send_cancels (cancel_all_actions q) q = (q', cs)" by fastforce
  define lp1 where "lp1 = pause_request True i (lp\<lparr> lp_engine := e \<rparr>)"
  have lp1: "lp1 = send i cs (lp\<lparr> lp_engine := e\<lparr> en_paused := True, en_quoter := q' \<rparr> \<rparr>)"
    using s assms by (simp add: lp1_def pause_request_def set_paused_def e_def)
  note c = cancel_all_closes [OF s]
  show thesis
  proof (rule that [of lp1])
    show "iteration L i EvPauseTrading lp = Good lp1" by (simp add: iteration_def lp1_def e_def)
    show "\<exists>cs. lp_commands lp1 = lp_commands lp @ cs \<and> (\<forall>sd oid. CancelOrder sd oid \<in> set cs \<longleftrightarrow>
       io_connected i \<and> (\<exists>o1. q_order sd q = Some o1 \<and> mo_order_id o1 = oid) \<and> \<not> pending_cancel sd q)"
      by (rule exI [of _ "if io_connected i then cs else []"]) (auto simp: lp1 send_def c)
  qed (simp_all add: lp1 c e_def)
qed


section \<open>The order a pause does not reach\<close>

fun answer_side :: "executor_feedback \<Rightarrow> market_side option" where
  "answer_side (OrderPosted sd i price sz filled) = Some sd"
| "answer_side (OrderFailed sd) = Some sd"
| "answer_side (CancelResult sd i m) = Some sd"
| "answer_side (RebalanceResult sd filled m price) = None"

text \<open>Events that neither end a pause, repeat it, end the market, match an order nor report a failed heartbeat.\<close>

fun uneventful :: "ingestor_event \<Rightarrow> bool" where
  "uneventful (EvTradeStatus i st m orig) = False"
| "uneventful (EvMarketRotation c y n t k) = False"
| "uneventful (EvHeartbeat ok latency) = ok"
| "uneventful EvPauseTrading = False"
| "uneventful EvResumeTrading = False"
| "uneventful ev = True"

lemma uneventful_event:
  assumes "on_event L now ev e = Good e'" and "uneventful ev"
  shows "en_quoter e' = en_quoter e" and "en_pending_commands e' = en_pending_commands e"
proof -
  from assms(1) obtain e1 where h: "handle_event L now ev e = Good e1" and a: "after_event L now e1 = Good e'"
    by (auto simp: on_event_def obind_eq_Good)
  have "same_talk e e1"
    using h assms(2) by (cases ev) (auto simp: ev_others_talk intro: ev_binance_tick_talk ev_binance_depth_talk,
      (simp add: same_talk_def ev_heartbeat_def)+)
  with after_event_talk [OF a] show "en_quoter e' = en_quoter e" "en_pending_commands e' = en_pending_commands e"
    by (simp_all add: same_talk_def)
qed

lemma other_answer: "answer_side fb \<noteq> Some sd \<Longrightarrow> q_order sd (en_quoter (on_feedback L now fb e)) = q_order sd (en_quoter e)"
  by (cases fb) (auto simp: fb_order_posted_def fb_cancel_result_def fb_rebalance_result_def frame_simps Let_def split: option.splits)

interpretation side_answers: feedback_relation L "\<lambda>e e'. q_order sd (en_quoter e') = q_order sd (en_quoter e)"
  "\<lambda>fb. answer_side fb \<noteq> Some sd" for L sd
  by unfold_locales (auto simp: other_answer)

lemma answer_pending: "en_pending_commands (on_feedback L now fb e) = en_pending_commands e"
  by (cases fb) (auto simp: fb_order_posted_def fb_cancel_result_def fb_rebalance_result_def frame_simps Let_def split: option.splits)

interpretation pending_answers: feedback_relation L "\<lambda>e e'. en_pending_commands e' = en_pending_commands e
    \<and> en_pending_tick_change e' = en_pending_tick_change e" "\<lambda>fb. True" for L
  by unfold_locales (simp_all add: answer_pending tick_change_feedback)

lemmas feedback_pending = conjunct1 [OF pending_answers.drain_respects, simplified] conjunct2 [OF pending_answers.drain_respects, simplified]

text \<open>The loop is paused, keeps the order and has sent no cancel since the commands \<open>cs\<close>.\<close>

definition left_alone :: "executor_command list \<Rightarrow> string \<Rightarrow> market_side \<Rightarrow> loop_state \<Rightarrow> bool" where
  "left_alone cs oid sd lp \<longleftrightarrow> lp_running lp \<and> en_paused (lp_engine lp)
     \<and> (\<exists>o1. q_order sd (en_quoter (lp_engine lp)) = Some o1 \<and> mo_order_id o1 = oid)
     \<and> tick_change_ok (lp_engine lp) \<and> (\<forall>i. CancelOrder sd i \<notin> set (en_pending_commands (lp_engine lp)))
     \<and> (\<exists>ds. lp_commands lp = cs @ ds \<and> (\<forall>i. CancelOrder sd i \<notin> set ds))"

lemma resting_not_closed: "q_order sd (en_quoter e) = Some o1 \<Longrightarrow> \<not> has_no_open_position e"
  by (cases sd) (auto simp: no_open_iff closed_def)

lemma left_alone_iteration:
  assumes it: "iteration L i ev lp = Good lp'" and u: "uneventful ev"
    and h: "left_alone cs oid sd (lp\<lparr> lp_engine := drain_feedback L (io_feedback i) (lp_engine lp) \<rparr>)"
  shows "left_alone cs oid sd lp'"
  using it
proof (cases rule: iteration_cases)
  case request
  let ?lp1 = "lp\<lparr> lp_engine := drain_feedback L (io_feedback i) (lp_engine lp) \<rparr>"
  obtain o1 where o1: "q_order sd (en_quoter (lp_engine ?lp1)) = Some o1" using h by (auto simp: left_alone_def)
  note n = resting_not_closed [OF o1]
  from request u obtain code reason msg where lp': "lp' = drain_request L i code reason msg ?lp1" by (cases ev) auto
  show ?thesis using h unfolding lp' drain_request_open [OF n, of L i code reason msg]
    by (simp add: left_alone_def set_draining_def tick_change_ok_def)
next
  case (event lp1 e)
  have r: "\<not> is_rotation ev" using u by (cases ev) auto
  have h1: "left_alone cs oid sd lp1" using h event(1-4) by (simp add: left_alone_def)
  have t: "tick_change_ok e" using tick_change_event [OF event(7) r] h1 by (simp add: left_alone_def)
  note q = uneventful_event [OF event(7) u]
  have p: "en_paused e" using mode_event [OF event(7)] h1 by (simp add: same_mode_def left_alone_def)
  define lp2 where "lp2 = lp1\<lparr> lp_engine := e \<rparr>"
  have lp': "lp' = after_engine L i ev lp2" by (simp add: lp2_def event(8))
  obtain o1 where o1: "q_order sd (en_quoter (lp_engine lp2)) = Some o1" "mo_order_id o1 = oid"
    using h1 q(1) by (auto simp: left_alone_def lp2_def)
  have "en_paused (lp_engine lp2) \<or> en_draining (lp_engine lp2)" using p by (simp add: lp2_def)
  note a = after_closed [OF this, of L i ev]
  have "CancelOrder sd j \<notin> set (opt_list (en_pending_tick_change e))" for j
    using t by (auto simp: tick_change_ok_def list_all_iff)
  then have "\<exists>ds. lp_commands lp' = cs @ ds \<and> (\<forall>j. CancelOrder sd j \<notin> set ds)"
    using h1 q(2) a(3) by (auto simp: left_alone_def lp' lp2_def)
  moreover have "lp_running lp'" using a(7) h1 resting_not_closed [OF o1(1)] by (simp add: lp' left_alone_def lp2_def)
  moreover have "en_paused (lp_engine lp')" using a(5) p by (simp add: lp' same_mode_def lp2_def)
  moreover have "q_order sd (en_quoter (lp_engine lp')) = Some o1" by (simp add: lp' a(1) o1)
  moreover have "tick_change_ok (lp_engine lp')" by (simp add: tick_change_ok_def lp' a(4) opt_list_def)
  ultimately show ?thesis using o1(2) by (simp add: left_alone_def lp' a(2))
qed

text \<open>
  C8. A post in flight escapes the pause. When the loop takes a \<open>/stop\<close> while a post is in
  flight, and the answer says that the order rests, nothing takes the order back: whatever market
  data and answers follow, and even when the bot is asked to shut down, trading is paused, the
  order rests, no cancel for its side is sent, and the loop does not end. Only a second
  \<open>/stop\<close>, a resumption, failed heartbeats, a match of the order or the end of the market help.
\<close>

theorem post_in_flight_escapes_pause:
  assumes "loop L ((i0, EvPauseTrading) # (i1, ev1) # rest) lp = Good lp'" and "lp_running lp"
    and "eng_inv (lp_engine lp) out" and "pending_post sd (en_quoter (lp_engine lp))"
    and "en_pending_commands (lp_engine lp) = []" and "en_pending_tick_change (lp_engine lp) = None"
    and "io_feedback i0 = []" and "io_feedback i1 = [(OrderPosted sd oid price sz False, now)]"
    and "\<And>i ev fb t. (i, ev) \<in> set rest \<Longrightarrow> (fb, t) \<in> set (io_feedback i) \<Longrightarrow> answer_side fb \<noteq> Some sd"
    and "uneventful ev1" and "\<And>i ev. (i, ev) \<in> set rest \<Longrightarrow> uneventful ev"
  shows "lp_running lp' \<and> en_paused (lp_engine lp')
    \<and> (\<exists>o1. q_order sd (en_quoter (lp_engine lp')) = Some o1 \<and> mo_order_id o1 = oid)
    \<and> (\<exists>cs. lp_commands lp' = lp_commands lp @ cs \<and> (\<forall>i. CancelOrder sd i \<notin> set cs))"
proof -
  have f: "drain_feedback L (io_feedback i0) (lp_engine lp) = lp_engine lp" using assms(7) by (simp add: drain_feedback_def)
  have q: "q_order sd (en_quoter (lp_engine lp)) = None" "\<not> pending_cancel sd (en_quoter (lp_engine lp))"
    using assms(3,4) by (auto simp: eng_inv_def flags_ok_def)
  obtain lp1 where l: "iteration L i0 EvPauseTrading lp = Good lp1" "lp_running lp1 = lp_running lp" "en_paused (lp_engine lp1)"
    "\<exists>cs. lp_commands lp1 = lp_commands lp @ cs \<and> (\<forall>sd oid. CancelOrder sd oid \<in> set cs \<longleftrightarrow>
       io_connected i0 \<and> (\<exists>o1. q_order sd (en_quoter (lp_engine lp)) = Some o1 \<and> mo_order_id o1 = oid)
         \<and> \<not> pending_cancel sd (en_quoter (lp_engine lp)))"
    "en_pending_commands (lp_engine lp1) = en_pending_commands (lp_engine lp)"
    "en_pending_tick_change (lp_engine lp1) = en_pending_tick_change (lp_engine lp)"
    by (rule pause_iteration [OF arg_cong [OF f, of en_quoter]]) (rule that, assumption+, (simp only: f)+)
  have r: "loop L ((i1, ev1) # rest) lp1 = Good lp'" using assms(1,2) l(1) by simp
  define e where "e = drain_feedback L (io_feedback i1) (lp_engine lp1)"
  have e: "\<exists>o1. q_order sd (en_quoter e) = Some o1 \<and> mo_order_id o1 = oid"
    by (simp add: e_def assms(8) drain_feedback_def fb_order_posted_def Let_def)
  have m: "en_paused e" using mode_drain [of "lp_engine lp1" L "io_feedback i1"] l(3) by (simp add: e_def same_mode_def)
  have h: "left_alone (lp_commands lp) oid sd (lp1\<lparr> lp_engine := e \<rparr>)"
    using e m l assms(2,5,6) q by (auto simp: left_alone_def e_def feedback_pending tick_change_ok_def opt_list_def)
  obtain m where m: "iteration L i1 ev1 lp1 = Good m" "loop L rest m = Good lp'"
    using r l(2) assms(2) by (auto simp: obind_eq_Good)
  have "left_alone (lp_commands lp) oid sd m" by (rule left_alone_iteration [OF m(1) assms(10)]) (use h in \<open>simp add: e_def\<close>)
  then have "left_alone (lp_commands lp) oid sd lp'"
    using m(2) assms(9,11)
  proof (induction rest arbitrary: m)
    case (Cons x rest)
    obtain i ev where x: "x = (i, ev)" by (cases x)
    from Cons.prems(1) have run: "lp_running m" by (simp add: left_alone_def)
    with Cons.prems(2) obtain m' where m': "iteration L i ev m = Good m'" "loop L rest m' = Good lp'" by (auto simp: x obind_eq_Good)
    have "\<forall>f \<in> set (io_feedback i). answer_side (fst f) \<noteq> Some sd" using Cons.prems(3) by (force simp: x)
    note k = side_answers.drain_respects [OF this]
    have "left_alone (lp_commands lp) oid sd (m\<lparr> lp_engine := drain_feedback L (io_feedback i) (lp_engine m) \<rparr>)"
      using Cons.prems(1) mode_drain [of "lp_engine m" L "io_feedback i"]
      by (simp add: left_alone_def k feedback_pending same_mode_def tick_change_ok_def)
    from left_alone_iteration [OF m'(1) _ this] Cons.prems(4) have "left_alone (lp_commands lp) oid sd m'" by (auto simp: x)
    from Cons.IH [OF this m'(2)] show ?case
      using Cons.prems(3) [OF list.set_intros(2)] Cons.prems(4) [OF list.set_intros(2)] by blast
  qed simp
  then show ?thesis by (simp add: left_alone_def)
qed

section \<open>Both happen\<close>

definition posting_engine :: engine where
  "posting_engine = (demo_engine position_new)\<lparr> en_quoter := mark_post_pending Yes quoter_new \<rparr>"

lemma posting_engine_simps:
  "en_quoter posting_engine = mark_post_pending Yes quoter_new" "en_pending_commands posting_engine = []"
  "en_pending_tick_change posting_engine = None" "en_pending_rebalance posting_engine = False"
  by (simp_all add: posting_engine_def) (simp add: demo_engine_def engine_new_def Let_def)

lemma fresh_quoter: "q_order sd quoter_new = None" "\<not> pending_post sd quoter_new" "\<not> pending_cancel sd quoter_new"
  by (cases sd; simp add: side_defs quoter_new_def)+

lemma post_in_flight_escapes_pause_witness:
  "\<exists>lp'. loop exact_lib [(demo_io [], EvPauseTrading), (demo_io [(OrderPosted Yes ''o'' (1 / 2) 10 False, 900)], EvShutdown)]
       (loop_start posting_engine None) = Good lp'
     \<and> lp_running lp' \<and> (\<exists>o1. q_order Yes (en_quoter (lp_engine lp')) = Some o1 \<and> mo_order_id o1 = ''o'')
     \<and> (\<exists>cs. lp_commands lp' = cs \<and> (\<forall>i. CancelOrder Yes i \<notin> set cs))"
proof -
  let ?lp = "loop_start posting_engine None"
  let ?in = "[(demo_io [], EvPauseTrading), (demo_io [(OrderPosted Yes ''o'' (1 / 2) 10 False, 900)], EvShutdown)]"
  have g: "\<exists>lp'. loop exact_lib ?in ?lp = Good lp'"
    by (simp add: iteration_def pause_request_def set_paused_def loop_start_def Let_def split: prod.splits)
  then obtain lp' where lp': "loop exact_lib ?in ?lp = Good lp'" ..
  have inv: "eng_inv (lp_engine ?lp) [PostOrder Yes ''y'' (1 / 2) 10]"
    by (auto simp: eng_inv_def flags_ok_def loop_start_def posting_engine_simps fresh_quoter)
  have "lp_running lp' \<and> en_paused (lp_engine lp') \<and> (\<exists>o1. q_order Yes (en_quoter (lp_engine lp')) = Some o1 \<and> mo_order_id o1 = ''o'')
      \<and> (\<exists>cs. lp_commands lp' = lp_commands ?lp @ cs \<and> (\<forall>i. CancelOrder Yes i \<notin> set cs))"
    by (rule post_in_flight_escapes_pause [OF lp' _ inv, where price = "1 / 2" and sz = 10 and now = 900])
      (simp_all add: loop_start_def posting_engine_simps demo_io_def)
  moreover have "lp_commands ?lp = []" by (simp add: loop_start_def)
  ultimately show ?thesis using lp' by auto
qed

definition resting_engine :: engine where
  "resting_engine = (demo_engine position_new)\<lparr> en_quoter := on_order_posted Yes \<lparr> mo_order_id = ''o'', mo_price = 1 / 2, mo_size = 10,
     mo_posted_ms = 900, mo_fair_value_at_post = 1 / 2, mo_ask_at_post = 1, mo_size_filled = 0 \<rparr> quoter_new \<rparr>"

lemma resting_engine_quoter:
  "q_order sd (en_quoter resting_engine) = (if sd = Yes then Some \<lparr> mo_order_id = ''o'', mo_price = 1 / 2, mo_size = 10,
     mo_posted_ms = 900, mo_fair_value_at_post = 1 / 2, mo_ask_at_post = 1, mo_size_filled = 0 \<rparr> else None)"
  "\<not> pending_post sd (en_quoter resting_engine)" "\<not> pending_cancel sd (en_quoter resting_engine)"
  by (simp_all add: resting_engine_def fresh_quoter)


end
