(* ===== verification/SourceTests.thy ===== *)
theory SourceTests
  imports Quoter FillEngine
begin

text \<open>
  Unit tests of the repository, evaluated on the model by the kernel: the sizes, decisions and
  bookkeeping of \<open>src/src/engine/quoter.rs\<close> and \<open>src/src/engine/position.rs\<close>, and the
  fee. The library record is the exact one, so prices are the
  rationals the tests write.
\<close>

section \<open>Quoter\<close>

definition test_order :: "string \<Rightarrow> dec \<Rightarrow> dec \<Rightarrow> dec \<Rightarrow> dec \<Rightarrow> managed_order" where
  "test_order i price sz fv ask = \<lparr> mo_order_id = i, mo_price = price, mo_size = sz, mo_posted_ms = 1000,
     mo_fair_value_at_post = fv, mo_ask_at_post = ask, mo_size_filled = 0 \<rparr>"

definition test_side :: "quoter \<Rightarrow> dec \<Rightarrow> dec \<Rightarrow> dec \<Rightarrow> bilateral_position \<Rightarrow> quote_action option" where
  "test_side q target fv ask p = evaluate_side exact_lib q Yes target fv ask False ''yes_token'' p quoting_default risk_default"

definition test_posts :: "quote_action option \<Rightarrow> bool" where
  "test_posts a = (case a of Some (QPost sd tok price sz) \<Rightarrow> True | _ \<Rightarrow> False)"

lemma test_dynamic_size:
  "map (\<lambda>n. dynamic_order_size exact_lib 10 5 n 3) [0, 9, 10, 14, 15, 100] = [10, 10, 5, 5, 5, 5]"
  "map (\<lambda>n. dynamic_order_size exact_lib 20 5 n 3) [0, 19, 20, 29, 30, 100] = [20, 20, 10, 10, 5, 5]"
  by code_simp+

lemma test_max_total_shares: "map (\<lambda>m. max_total_shares exact_lib m 5 3) [10, 20, 40] = [20, 35, 70]"
  by code_simp

lemma test_post_when_no_resting: "test_posts (test_side quoter_new (dnew 42 2) (dnew 45 2) (dnew 50 2) position_new)"
  by code_simp

lemma test_no_post:
  "test_side (mark_post_pending Yes quoter_new) (dnew 42 2) (dnew 45 2) (dnew 50 2) position_new = None"
  "test_side quoter_new (dnew 42 2) (dnew 45 2) (dnew 50 2) (record_fill Yes (dnew 50 2) 200 False 0 position_new) = None"
  by code_simp+

lemma test_resting:
  "test_side (on_order_posted Yes (test_order ''order1'' (dnew 42 2) 50 (dnew 45 2) (dnew 50 2)) quoter_new)
     (dnew 44 2) (dnew 47 2) (dnew 50 2) position_new = Some (QCancel Yes ''order1'')"
  "test_side (on_order_posted Yes (test_order ''order1'' (dnew 42 2) 50 (dnew 45 2) (dnew 50 2)) quoter_new)
     (dnew 425 3) (dnew 455 3) (dnew 50 2) position_new = None"
  by code_simp+

lemma test_pair_cost_guard:
  "test_side quoter_new (dnew 45 2) (dnew 50 2) (dnew 55 2) (record_fill No (dnew 60 2) 10 False 0 position_new) = None"
  "test_posts (test_side quoter_new (dnew 39 2) (dnew 45 2) (dnew 50 2) (record_fill No (dnew 60 2) 10 False 0 position_new))"
  "test_posts (test_side quoter_new (dnew 85 2) (dnew 90 2) (dnew 95 2) position_new)"
  by code_simp+

lemma test_record_ws_fill_delta:
  "(let q0 = on_order_posted Yes (test_order ''o1'' (dnew 42 2) 100 (dnew 45 2) (dnew 50 2)) quoter_new;
        (d1, q1) = record_ws_fill Yes 30 q0; (d2, q2) = record_ws_fill Yes 50 q1; (d3, q3) = record_ws_fill Yes 50 q2
    in [d1, d2, d3]) = [30, 20, 0]"
  by code_simp

lemma test_lookup_order_for_cancel:
  "(let q0 = on_order_posted No (test_order ''o2'' (dnew 55 2) 80 (dnew 52 2) (dnew 57 2)) quoter_new;
        q1 = snd (record_ws_fill No 25 q0)
    in [lookup_order_for_cancel No ''o2'' q0, lookup_order_for_cancel No ''o2'' q1, lookup_order_for_cancel No ''wrong'' q1])
   = [Some (dnew 55 2, 0), Some (dnew 55 2, 25), None]"
  "(let q0 = on_order_posted Yes (test_order ''o3'' (dnew 63 2) 10 (dnew 60 2) (dnew 65 2)) quoter_new;
        q1 = on_fill Yes True (snd (record_ws_fill Yes 10 q0))
    in (q_order Yes q1, lookup_order_for_cancel Yes ''o3'' q1)) = (None, Some (dnew 63 2, 10))"
  by code_simp+

lemma test_cancel_all_and_reset:
  "length (cancel_all_actions (on_order_posted No (test_order ''n1'' (dnew 48 2) 10 (dnew 55 2) (dnew 60 2))
     (on_order_posted Yes (test_order ''y1'' (dnew 42 2) 10 (dnew 45 2) (dnew 50 2)) quoter_new))) = 2"
  "(let q = quoter_reset (on_cancel_sent No (mark_post_pending Yes quoter_new))
    in is_pending Yes q \<or> is_pending No q \<or> has_resting_orders q) = False"
  by code_simp+

section \<open>Position and fees\<close>

lemma test_bilateral_pairing:
  "(let p = record_fill No (dnew 48 2) 20 False (- 1 / 100) (record_fill Yes (dnew 42 2) 30 False (- 1 / 100) position_new)
    in [paired_shares p, unpaired_yes p, unpaired_no p, avg_pair_cost exact_lib p, locked_profit exact_lib p])
   = [20, 10, 0, 90 / 100, 2]"
  by code_simp

lemma test_averages_and_exposure:
  "avg_price exact_lib (yes_pos (record_fill Yes (dnew 40 2) 30 False 0 (record_fill Yes (dnew 45 2) 20 False 0 position_new))) = 42 / 100"
  "unpaired_usdc exact_lib (record_fill No (dnew 48 2) 20 False 0 (record_fill Yes (dnew 42 2) 50 False 0 position_new)) = 1260 / 100"
  "(let p = record_fill No (dnew 50 2) 10 True (dnew 5 2) (record_fill Yes (dnew 45 2) 20 False 0 position_new)
    in (total_capital_deployed p, total_taker_fees p)) = (14, 5 / 100)"
  by code_simp+

lemma test_compute_taker_fee: "compute_taker_fee (dnew 50 2) 100 = 78125 / 100000"
  by (simp add: compute_taker_fee_def dnew_def)

end
