(* ===== verification/Spec2Isabelle.thy ===== *)
theory Spec2Isabelle
  imports ExecutorProps SbeProps FeedProps RotationProps Reporter Heartbeat ConfigEditorProps WalletProps FeedKinds Connect AuditTrail DrainProps SourceTests
begin

text \<open>
  A verification library for the market-making bot under \<open>src/\<close> (Rust).

  The program. The bot quotes both sides of five-minute binary markets on Polymarket. The
  gateways (\<open>gateway/\<close>) turn web-socket messages into \<open>IngestorEvent\<close>s; the engine thread
  (\<open>main.rs\<close>) takes one event at a time, first drains the answers of the executor, lets the
  strategy engine (\<open>engine/strategy.rs\<close>) process the event, sends the commands it leaves and those
  of its quoting tick to the executor (\<open>executor/live.rs\<close>), which calls the exchange through the
  REST gateway (\<open>gateway/polymarket/rest.rs\<close>) and answers over a bounded channel; then it reports
  and stores what the engine recorded (\<open>storage/cold.rs\<close>). A listener (\<open>control/listener.rs\<close>)
  takes the owner's commands from Telegram: it pauses and stops the engine over the channel of the
  feeds, edits the configuration file and redeems settled positions (\<open>control/wallet.rs\<close>).

  Theories, in the order of their imports.
  \<^item> \<open>Prelude\<close>: the \<open>outcome\<close> of code that may fail or panic, saturating arithmetic, generic lemmas.
  \<^item> \<open>Float64\<close>: binary64 as \<open>Fin\<close> of a rational, infinities and one NaN; rounding to nearest even,
    the arithmetic and comparisons of \<open>f64\<close>. \<open>ln\<close>, \<open>exp\<close>, \<open>sqrt\<close> are fields of the record \<open>libm\<close>.
  \<^item> \<open>RustText\<close>, \<open>Decimal\<close>: byte strings and their parsing and printing; \<open>rust_decimal\<close> as exact
    rationals, with its division, rounding and conversions as fields of the record \<open>lib\<close>.
  \<^item> \<open>MarketTypes\<close> (\<open>types/\<close>), \<open>ControlTypes\<close> (\<open>control/types.rs\<close>), \<open>Config\<close> (\<open>config.rs\<close>).
  \<^item> \<open>Position\<close> (\<open>engine/position.rs\<close>), \<open>FillEngine\<close> (\<open>executor/fill_engine.rs\<close>),
    \<open>Quoter\<close> (\<open>engine/quoter.rs\<close>), \<open>Metrics\<close> (\<open>engine/buildup/metrics.rs\<close>),
    \<open>FairValue\<close> (\<open>engine/fair_value.rs\<close>): the parts of the engine, each with its own properties.
  \<^item> \<open>Strategy\<close> (\<open>engine/strategy.rs\<close>): the whole engine. \<open>StrategyProtocol\<close>, \<open>QuoteProps\<close> and
    \<open>LifecycleProps\<close> hold what is proved of it: the invariant of commands and answers, what an
    order of the quoting tick satisfies, rotation, heartbeat, risk, the counting of fills.
  \<^item> \<open>ColdStorage\<close> (\<open>storage/cold.rs\<close>), \<open>Rest\<close> (\<open>gateway/polymarket/rest.rs\<close>), \<open>Executor\<close>
    (\<open>executor/live.rs\<close>) with \<open>ExecutorProps\<close>; \<open>BotProtocol\<close> composes engine and executor into one
    step relation, \<open>EngineLoop\<close> (\<open>main.rs\<close>) is the engine thread and refines that composition.
  \<^item> \<open>EngineFrames\<close>, \<open>LoopFrames\<close>: what the parts of the engine and of an iteration leave alone.
    \<open>AuditTrail\<close>: a list of fills as the specification of the position and of the table of fills.
    \<open>DrainProps\<close>: when a stop and a shutdown end the loop, and the order a stop does not reach.
  \<^item> \<open>Channels\<close>: bounded channels and the reconnect delays all feeds share. \<open>Sbe\<close> and \<open>SbeProps\<close>
    (\<open>gateway/binance/ws.rs\<close>): the binary decoder, its frames and its reconnect loop; the decoder
    inverts the wire format. \<open>FuturesFeed\<close> (\<open>gateway/binance/futures_ws.rs\<close>), \<open>MarketFeed\<close>
    (\<open>gateway/polymarket/market_ws.rs\<close>) and \<open>UserFeed\<close> (\<open>gateway/polymarket/user_ws.rs\<close>): the
    parsers, sessions and loops over the JSON values of \<open>Json\<close>; \<open>FeedProps\<close> follows a frame of the
    user feed to the position of the engine and bounds the feeds' loops.
  \<^item> \<open>Rotation\<close> and \<open>RotationProps\<close> (\<open>gateway/polymarket/rotation.rs\<close>): date parsing, the discovery
    of the next market, the manager with its timers; the date parser against the calendar, the
    choice of the soonest market, the direction of rotations, the timers.

  \<^item> \<open>Reporter\<close> (\<open>reporting/telegram.rs\<close>): the splitting of long messages, the two rate limits, the
    ids kept for deletion; when the splitter panics, that it keeps every line, how messages bunch.
  \<^item> \<open>Heartbeat\<close> (\<open>gateway/polymarket/heartbeat.rs\<close>): set-up, beats, the recovery of the session id,
    the restart window in UTC; the count of failures is followed into the engine.
  \<^item> \<open>TextLines\<close>: lemmas on lines and prefixes. \<open>ConfigEditor\<close> (\<open>control/config_editor.rs\<close>): the
    parameters, the range check, the edit of the file; \<open>ConfigEditorProps\<close>: exactly which values
    pass, exactly which lines change, and that they then read the new value.
  \<^item> \<open>Wallet\<close> (\<open>control/wallet.rs\<close>): amounts, balances, redemptions and the file of ids;
    \<open>WalletProps\<close>: every id is submitted once and the file keeps what was not confirmed.
  \<^item> \<open>Control\<close> (\<open>control/listener.rs\<close>, \<open>control/handlers.rs\<close>): authorisation, parsing, the rate
    limit, every handler, polling, the drain watcher; \<open>ControlProps\<close>: the listener does what the
    owner's messages alone do, once each, and what the commands do to the engine loop.
  \<^item> \<open>Process\<close> (\<open>async_main\<close> of \<open>main.rs\<close>): start, the six feeds under one \<open>select!\<close>, the channel,
    engine loop, listener and watcher as one step relation, and the ways it ends. \<open>ProcessProps\<close>:
    an invariant over every interleaving, the exits, a dead engine, dead feeds. \<open>FeedKinds\<close>: the
    locale \<open>feed_source\<close>, interpreted on each feed: what kinds of events it sends.
  \<^item> \<open>Connect\<close> (\<open>gateway/polymarket/tls_helpers.rs\<close> and its copies in the other gateways): the
    requests, and which answers are errors; an error answer that becomes an empty book.

  \<^item> \<open>SourceTests\<close>: unit tests of \<open>engine/quoter.rs\<close>, \<open>engine/position.rs\<close> and
    \<open>executor/fill_engine.rs\<close>, evaluated on the model by the kernel.

  Bounds and fuel. No definition uses fuel: every loop is structural recursion, a fold, or has a
  termination proof. \<open>u64\<close> and \<open>u32\<close> are words that wrap; \<open>usize\<close> counters are \<open>nat\<close>. Every reading
  of the clock is an argument.

  Not modelled: thread, runtime and TLS set-up, the pinning to cores, logging, the crates
  themselves (the CLOB SDK, the chain client, the HTTP, JSON and TOML libraries, the database
  client: their answers are parameters), the tests, the scripts under \<open>src/examples\<close>.
\<close>

end
